(* ===== verification/Prelude.thy ===== *)
theory Prelude
  imports Complex_Main "HOL-Library.Product_Lexorder" "HOL-Library.List_Lexorder"
    "HOL-Library.Char_ord"
begin

text \<open>
  Shared vocabulary of the development: clocks and identifiers, the SQL statements the
  program is written in (\<open>UPDATE .. WHERE\<close>, \<open>ORDER BY .. LIMIT 1\<close>) as functions on lists
  of rows, Python truthiness, reachability of a step relation and the interface a safety
  argument over one has, and the lemmas on lists that the component proofs share.

  Timestamps, intervals and the floats of the program are exact rationals counted in
  seconds: the rounding of double precision is not modelled. A \<open>uuid\<close> is a number; nothing
  but its identity is used.
\<close>

section \<open>Types and collections of facts\<close>

type_synonym time = rat
type_synonym uuid = nat

named_theorems table_simps \<open>rewriting of SQL statements over tables\<close>
named_theorems inv_intros \<open>operations keep the invariant of their component\<close>

section \<open>Python truthiness\<close>

definition truthy :: "string option \<Rightarrow> bool" where
  "truthy s = (case s of None \<Rightarrow> False | Some t \<Rightarrow> t \<noteq> [])"

lemma truthy_simps [simp]: "\<not> truthy None" "truthy (Some t) \<longleftrightarrow> t \<noteq> []"
  by (simp_all add: truthy_def)

text \<open>\<open>a or b\<close> on optional strings, and \<open>a or ""\<close>.\<close>

definition str_or :: "string option \<Rightarrow> string option \<Rightarrow> string option" where
  "str_or a b = (if truthy a then a else b)"

definition or_empty :: "string option \<Rightarrow> string" where
  "or_empty a = (case a of None \<Rightarrow> [] | Some t \<Rightarrow> t)"

lemma or_empty_simps [simp]: "or_empty None = []" "or_empty (Some t) = t"
  by (simp_all add: or_empty_def)

section \<open>SQL statements over a list of rows\<close>

definition upd_where :: "('r \<Rightarrow> bool) \<Rightarrow> ('r \<Rightarrow> 'r) \<Rightarrow> 'r list \<Rightarrow> 'r list" where
  "upd_where P f rs = map (\<lambda>r. if P r then f r else r) rs"

definition order_first :: "('r \<Rightarrow> 'k::linorder) \<Rightarrow> 'r list \<Rightarrow> 'r option" where
  "order_first k rs = (case sort_key k rs of [] \<Rightarrow> None | r # _ \<Rightarrow> Some r)"

definition count_where :: "('r \<Rightarrow> bool) \<Rightarrow> 'r list \<Rightarrow> nat" where
  "count_where P rs = length (filter P rs)"

lemma set_upd_where: "set (upd_where P f rs) = (\<lambda>r. if P r then f r else r) ` set rs"
  by (simp add: upd_where_def)

lemma upd_where_simps [simp]:
  "upd_where P f [] = []"
  "upd_where P f (r # rs) = (if P r then f r else r) # upd_where P f rs"
  by (simp_all add: upd_where_def)

lemma length_upd_where [simp]: "length (upd_where P f rs) = length rs"
  by (simp add: upd_where_def)

lemma ball_upd_where [table_simps]:
  "(\<forall>r \<in> set (upd_where P f rs). Q r) \<longleftrightarrow> (\<forall>r \<in> set rs. Q (if P r then f r else r))"
  by (auto simp: set_upd_where)

lemma bex_upd_where [table_simps]:
  "(\<exists>r \<in> set (upd_where P f rs). Q r) \<longleftrightarrow> (\<exists>r \<in> set rs. Q (if P r then f r else r))"
  by (auto simp: set_upd_where)

lemma map_upd_where [table_simps]:
  assumes "\<And>r. g (f r) = g r"
  shows "map g (upd_where P f rs) = map g rs"
  using assms by (simp add: upd_where_def)

lemma upd_where_none: "(\<And>r. r \<in> set rs \<Longrightarrow> \<not> P r) \<Longrightarrow> upd_where P f rs = rs"
  by (induction rs) auto

lemma upd_where_cong:
  "(\<And>r. r \<in> set rs \<Longrightarrow> P r = P' r) \<Longrightarrow> upd_where P f rs = upd_where P' f rs"
  by (induction rs) auto

lemma count_upd_where:
  assumes "\<And>r. r \<in> set rs \<Longrightarrow> Q (if P r then f r else r) = Q r"
  shows "count_where Q (upd_where P f rs) = count_where Q rs"
  using assms by (induction rs) (auto simp: count_where_def)

lemma count_list_update:
  "i < length xs \<Longrightarrow>
     count_where P (xs[i := y]) + (if P (xs ! i) then 1 else 0) = count_where P xs + (if P y then 1 else 0)"
proof (induction xs arbitrary: i)
  case (Cons x xs)
  then show ?case by (cases i) (auto simp: count_where_def split: if_splits)
qed simp

lemma in_upd_where:
  assumes "r \<in> set rs"
  shows "(if P r then f r else r) \<in> set (upd_where P f rs)"
  using assms by (auto simp: set_upd_where)

lemma keep_upd_where: "\<lbrakk> r \<in> set rs; \<not> P r \<rbrakk> \<Longrightarrow> r \<in> set (upd_where P f rs)"
  using in_upd_where [of r rs P f] by simp

lemma sort_key_Nil_iff [simp]: "sort_key k rs = [] \<longleftrightarrow> rs = []"
  by (metis set_empty set_sort)

lemma order_first_None [simp]: "order_first k rs = None \<longleftrightarrow> rs = []"
  using sort_key_Nil_iff [of k rs] by (auto simp: order_first_def simp del: sort_key_Nil_iff split: list.splits)

lemma order_first_Nil [simp]: "order_first k [] = None"
  by simp

lemma order_first_Some:
  assumes "order_first k rs = Some r"
  shows "r \<in> set rs" and "\<And>x. x \<in> set rs \<Longrightarrow> k r \<le> k x"
proof -
  from assms obtain xs where srt: "sort_key k rs = r # xs"
    by (auto simp: order_first_def split: list.splits)
  then have "set (r # xs) = set rs" by (metis set_sort)
  then show "r \<in> set rs" by auto
  have "sorted (map k (r # xs))" by (metis srt sorted_sort_key)
  with \<open>set (r # xs) = set rs\<close> show "\<And>x. x \<in> set rs \<Longrightarrow> k r \<le> k x" by auto
qed

section \<open>Rows with a primary key\<close>

lemma distinct_key_eq:
  "\<lbrakk> distinct (map key rs); r \<in> set rs; r' \<in> set rs; key r = key r' \<rbrakk> \<Longrightarrow> r = r'"
  by (auto simp: distinct_map dest: inj_onD)

lemma find_key:
  assumes "distinct (map key rs)" and "r \<in> set rs"
  shows "find (\<lambda>x. key x = key r) rs = Some r"
  using assms by (induction rs) (auto simp: rev_image_eqI)

section \<open>Dictionaries\<close>

text \<open>\<open>d[k] = v\<close>: in place when the key is there, else at the end.\<close>

fun dict_put :: "'k \<times> 'v \<Rightarrow> ('k \<times> 'v) list \<Rightarrow> ('k \<times> 'v) list" where
  "dict_put (k, v) [] = [(k, v)]"
| "dict_put (k, v) ((k', v') # d) = (if k = k' then (k, v) # d else (k', v') # dict_put (k, v) d)"

lemma map_of_dict_put: "map_of (dict_put (k, v) d) = (map_of d)(k \<mapsto> v)"
  by (induction d) auto

lemma map_of_fold_put: "map_of (fold dict_put kvs d) = map_of d ++ map_of (rev kvs)"
  by (induction kvs arbitrary: d) (auto simp: map_of_dict_put map_add_def fun_eq_iff split: option.splits)

lemma fst_dict_put: "set (map fst (dict_put kv d)) = insert (fst kv) (set (map fst d))"
  by (induction kv d rule: dict_put.induct) auto

lemma distinct_dict_put: "distinct (map fst d) \<Longrightarrow> distinct (map fst (dict_put kv d))"
proof (induction kv d rule: dict_put.induct)
  case (2 k v k' v' d)
  then show ?case using fst_dict_put [of "(k, v)" d] by auto
qed simp

lemma fst_fold_put: "set (map fst (fold dict_put kvs d)) = set (map fst kvs) \<union> set (map fst d)"
  by (induction kvs arbitrary: d) (simp_all add: fst_dict_put [unfolded set_map])

lemma distinct_fold_put: "distinct (map fst d) \<Longrightarrow> distinct (map fst (fold dict_put kvs d))"
  by (induction kvs arbitrary: d) (simp_all add: distinct_dict_put)

section \<open>Reachable states and invariants\<close>

inductive reachable :: "('s \<Rightarrow> bool) \<Rightarrow> ('s \<Rightarrow> 's \<Rightarrow> bool) \<Rightarrow> 's \<Rightarrow> bool"
  for I :: "'s \<Rightarrow> bool" and R :: "'s \<Rightarrow> 's \<Rightarrow> bool" where
  init: "I s \<Longrightarrow> reachable I R s"
| step: "reachable I R s \<Longrightarrow> R s t \<Longrightarrow> reachable I R t"

locale invariant_system =
  fixes start :: "'s \<Rightarrow> bool"
    and step :: "'s \<Rightarrow> 's \<Rightarrow> bool"
    and inv :: "'s \<Rightarrow> bool"
  assumes inv_start: "start s \<Longrightarrow> inv s"
    and inv_step: "\<lbrakk> step s t; inv s \<rbrakk> \<Longrightarrow> inv t"
begin

lemma inv_reachable: "reachable start step s \<Longrightarrow> inv s"
  by (induction rule: reachable.induct) (auto intro: inv_start inv_step)

lemma inv_steps: "step\<^sup>*\<^sup>* s t \<Longrightarrow> inv s \<Longrightarrow> inv t"
  by (induction rule: rtranclp_induct) (auto intro: inv_step)

end

text \<open>A system that refines another: every step is, seen through \<open>abs\<close>, a step of the specification.\<close>

locale refinement = invariant_system start step inv
  for start :: "'s \<Rightarrow> bool" and step :: "'s \<Rightarrow> 's \<Rightarrow> bool" and inv :: "'s \<Rightarrow> bool" +
  fixes abs :: "'s \<Rightarrow> 'a"
    and astart :: "'a \<Rightarrow> bool"
    and astep :: "'a \<Rightarrow> 'a \<Rightarrow> bool"
  assumes abs_start: "start s \<Longrightarrow> astart (abs s)"
    and abs_step: "\<lbrakk> inv s; step s t \<rbrakk> \<Longrightarrow> astep (abs s) (abs t)"
begin

lemma abs_reachable: "reachable start step s \<Longrightarrow> reachable astart astep (abs s)"
proof (induction rule: reachable.induct)
  case (step s t)
  then show ?case using abs_step [OF inv_reachable] by (blast intro: reachable.step)
qed (blast intro: reachable.init abs_start)

lemma abs_steps: "step\<^sup>*\<^sup>* s t \<Longrightarrow> inv s \<Longrightarrow> astep\<^sup>*\<^sup>* (abs s) (abs t)"
proof (induction rule: rtranclp_induct)
  case (step t u)
  then show ?case using abs_step [OF inv_steps] by (meson rtranclp.rtrancl_into_rtrancl)
qed simp

end

end
