(* ===== verification/Models.thy ===== *)
theory Models
  imports Settings
begin

text \<open>
  The data of the program: the tables of \<open>src/app/models.py\<close>, the result record of
  \<open>src/app/schemas.py\<close>. Field names carry a prefix for their table (\<open>j_\<close>, \<open>jd_\<close>, \<open>ji_\<close>, \<open>d_\<close>),
  since two tables share most of theirs. The database is one record of the tables the modelled
  code reads and writes. Left out are columns no code reads back: the serial number of
  \<open>job_items\<close> and the time stamp \<open>processed_at\<close> of a result.
\<close>

section \<open>Enumerations\<close>

datatype job_status = JQueued | JRunning | JPaused | JDone | JFailed | JCancelled

datatype domain_stage =
  SPending | SDns | SDiscovery | SFetching | SExtracting | SJudging | SDone

datatype jd_state = Queued | Running | Done

datatype status =
  Invalid_Input | Fetch_Failed | Parked_Or_For_Sale | No_Business_Email | Found | Form_Only
| No_Contact_Info

datatype extraction_method = Mailto | Jsonld | Cloudflare | Text | Attribute | Script

datatype mx_provider = Google | Microsoft | Other_Mx | No_Mx

datatype best_source = By_Typesafe | By_Rules

section \<open>The result record\<close>

record email_candidate_out =
  eo_email :: string
  eo_source_urls :: "string list"
  eo_method :: extraction_method
  eo_rank :: nat
  eo_belongs :: "rat option"

record domain_result =
  dr_domain :: string
  dr_final_domain :: "string option"
  dr_status :: status
  dr_best_email :: "string option"
  dr_best_email_source :: "best_source option"
  dr_confidence :: "rat option"
  dr_needs_review :: bool
  dr_business_emails :: "string list"
  dr_all_emails :: "email_candidate_out list"
  dr_phones :: "string list"
  dr_socials :: "(string \<times> string) list"
  dr_contact_form_url :: "string option"
  dr_mx_provider :: "mx_provider option"
  dr_site_status :: "string option"
  dr_pages_fetched :: "string list"
  dr_jina_tokens :: int
  dr_typesafe_called :: bool
  dr_typesafe_error :: bool
  dr_error_reason :: "string option"

text \<open>The field defaults of the class: \<open>DomainResult(domain=.., status=..)\<close>.\<close>

definition DomainResult :: "string \<Rightarrow> status \<Rightarrow> domain_result" where
  "DomainResult dm st = \<lparr>
     dr_domain = dm, dr_final_domain = None, dr_status = st, dr_best_email = None,
     dr_best_email_source = None, dr_confidence = None, dr_needs_review = False,
     dr_business_emails = [], dr_all_emails = [], dr_phones = [], dr_socials = [],
     dr_contact_form_url = None, dr_mx_provider = None, dr_site_status = None,
     dr_pages_fetched = [], dr_jina_tokens = 0, dr_typesafe_called = False,
     dr_typesafe_error = False, dr_error_reason = None \<rparr>"

text \<open>
  A \<open>jsonb\<close> result column holds either the dump of a result, or a document another version
  of the program wrote: its text fields, and what \<open>DomainResult.model_validate\<close> makes of it
  (\<open>None\<close> when validation raises).
\<close>

datatype doc =
  Doc domain_result
| Foreign "(string \<times> string) list" "domain_result option"

fun model_validate :: "doc \<Rightarrow> domain_result option" where
  "model_validate (Doc r) = Some r"
| "model_validate (Foreign fs v) = v"

fun doc_empty :: "doc \<Rightarrow> bool" where
  "doc_empty (Doc r) = False"
| "doc_empty (Foreign fs v) = (fs = [])"

text \<open>\<open>result->>'error_reason'\<close> and \<open>result->>'site_status'\<close>.\<close>

fun doc_error_reason :: "doc \<Rightarrow> string option" where
  "doc_error_reason (Doc r) = dr_error_reason r"
| "doc_error_reason (Foreign fs v) = map_of fs ''error_reason''"

fun doc_site_status :: "doc \<Rightarrow> string option" where
  "doc_site_status (Doc r) = dr_site_status r"
| "doc_site_status (Foreign fs v) = map_of fs ''site_status''"

section \<open>Tables\<close>

record user =
  u_id :: uuid
  u_name :: string
  u_key_hash :: string
  u_is_admin :: bool
  u_is_service :: bool
  u_created_at :: time
  u_revoked_at :: "time option"

record job =
  j_id :: uuid
  j_created_at :: time
  j_finished_at :: "time option"
  j_status :: job_status
  j_total :: nat
  j_done_count :: nat
  j_failed_count :: nat
  j_webhook_url :: "string option"
  j_filename :: "string option"
  j_columns :: "string list option"
  j_website_column :: "string option"
  j_pause_reason :: "string option"
  j_paused_at :: "time option"
  j_started_at :: "time option"
  j_paused_seconds :: rat
  j_idempotency_key :: "string option"
  j_idempotency_fingerprint :: "string option"
  j_owner_id :: "uuid option"
  j_fresh :: bool

record job_domain =
  jd_job_id :: uuid
  jd_domain :: string
  jd_seq :: nat
  jd_state :: jd_state
  jd_attempts :: int
  jd_available_at :: time
  jd_claimed_by :: "string option"
  jd_heartbeat_at :: "time option"
  jd_finished_at :: "time option"
  jd_from_cache :: bool
  jd_jina_tokens :: int
  jd_status :: "status option"
  jd_result :: "doc option"
  jd_needs_review :: bool
  jd_typesafe_called :: bool
  jd_has_phone :: bool
  jd_has_form :: bool
  jd_has_linkedin :: bool
  jd_requeued_at :: "time option"

record job_item =
  ji_job_id :: uuid
  ji_row_index :: nat
  ji_input_value :: string
  ji_domain :: "string option"
  ji_status :: "status option"
  ji_reason :: "string option"
  ji_domain_source :: "string option"
  ji_raw_row :: "(string \<times> string) list"

record domain_row =
  d_domain :: string
  d_stage :: domain_stage
  d_status :: "status option"
  d_result :: "doc option"
  d_attempts :: int
  d_updated_at :: time
  d_finished_at :: "time option"
  d_lock_owner :: "string option"
  d_lock_until :: "time option"

record db =
  jobs :: "job list"
  job_domains :: "job_domain list"
  job_items :: "job_item list"
  domains :: "domain_row list"

definition jd_key :: "job_domain \<Rightarrow> uuid \<times> string" where
  "jd_key r = (jd_job_id r, jd_domain r)"

text \<open>A row inserted with the column defaults (server or client side) of the tables.\<close>

definition new_job_domain :: "time \<Rightarrow> uuid \<Rightarrow> string \<Rightarrow> nat \<Rightarrow> job_domain" where
  "new_job_domain now j dm sq = \<lparr>
     jd_job_id = j, jd_domain = dm, jd_seq = sq, jd_state = Queued, jd_attempts = 0,
     jd_available_at = now, jd_claimed_by = None, jd_heartbeat_at = None,
     jd_finished_at = None, jd_from_cache = False, jd_jina_tokens = 0, jd_status = None,
     jd_result = None, jd_needs_review = False, jd_typesafe_called = False,
     jd_has_phone = False, jd_has_form = False, jd_has_linkedin = False,
     jd_requeued_at = None \<rparr>"

definition new_domain_row :: "time \<Rightarrow> string \<Rightarrow> domain_row" where
  "new_domain_row now dm = \<lparr>
     d_domain = dm, d_stage = SPending, d_status = None, d_result = None, d_attempts = 0,
     d_updated_at = now, d_finished_at = None, d_lock_owner = None, d_lock_until = None \<rparr>"

text \<open>The failure reasons after which a domain has earned another attempt, \<open>src/app/pipeline/run.py\<close>.\<close>

definition RETRYABLE_DOMAIN_REASONS :: "string list" where
  "RETRYABLE_DOMAIN_REASONS = [''circuit_open'']"

end
