(* ===== verification/Queue.thy ===== *)
theory Queue
  imports Models
begin

text \<open>
  The work queue of \<open>src/app/queue.py\<close>: each function is a transition of the database.
  A function of the source runs its statements in one transaction, so it is one step here;
  \<open>now\<close> is the transaction's \<open>now()\<close>. Where the source rolls back and starts a second
  transaction (\<open>finish\<close> on a lost claim) the model does the same. Rows another transaction
  holds locked are an argument (\<open>locked\<close>), which is what \<open>SKIP LOCKED\<close> looks at. The random
  part of a claim token is an argument too (\<open>hex\<close>, by loop iteration).
\<close>

section \<open>Constants and claims\<close>

definition LEASE_S :: rat where "LEASE_S = 90"
definition HEARTBEAT_S :: rat where "HEARTBEAT_S = 20"
definition LOCK_BUSY_DELAY_S :: rat where "LOCK_BUSY_DELAY_S = 10"

record claimed =
  c_job_id :: uuid
  c_domain :: string
  c_attempts :: int
  c_token :: string
  c_not_before :: "time option"

definition new_token :: "string \<Rightarrow> string \<Rightarrow> string" where
  "new_token worker hex = worker @ ''|'' @ hex"

section \<open>Claiming\<close>

text \<open>The two common table expressions of \<open>_PICK_JOBS\<close>: running rows per job and per owner.\<close>

definition job_running :: "db \<Rightarrow> uuid \<Rightarrow> nat" where
  "job_running d j =
     count_where (\<lambda>r. jd_job_id r = j \<and> jd_state r = Running) (job_domains d)"

definition owner_running :: "db \<Rightarrow> uuid option \<Rightarrow> nat" where
  "owner_running d ow =
     (\<Sum>j\<leftarrow>filter (\<lambda>j. j_owner_id j = ow) (jobs d). job_running d (j_id j))"

definition claimable :: "time \<Rightarrow> uuid \<Rightarrow> job_domain \<Rightarrow> bool" where
  "claimable now j r \<longleftrightarrow> jd_job_id r = j \<and> jd_state r = Queued \<and> jd_available_at r \<le> now"

definition eligible :: "db \<Rightarrow> time \<Rightarrow> job \<Rightarrow> bool" where
  "eligible d now j \<longleftrightarrow> j_status j \<in> {JQueued, JRunning} \<and>
     (\<exists>q \<in> set (job_domains d). claimable now (j_id j) q)"

definition share_key :: "db \<Rightarrow> job \<Rightarrow> nat \<times> nat \<times> time" where
  "share_key d j =
     (owner_running d (j_owner_id j), job_running d (j_id j), j_created_at j)"

definition pick_jobs :: "db \<Rightarrow> time \<Rightarrow> uuid list" where
  "pick_jobs d now =
     take 5 (map j_id (sort_key (share_key d) (filter (eligible d now) (jobs d))))"

text \<open>\<open>_CLAIM_FROM_JOB\<close>: the row with the smallest \<open>seq\<close> that nobody holds locked.\<close>

definition take_row :: "time \<Rightarrow> string \<Rightarrow> job_domain \<Rightarrow> job_domain" where
  "take_row now token r = r\<lparr>jd_state := Running, jd_claimed_by := Some token,
     jd_heartbeat_at := Some now, jd_attempts := jd_attempts r + 1\<rparr>"

definition open_rows :: "(uuid \<times> string \<Rightarrow> bool) \<Rightarrow> time \<Rightarrow> uuid \<Rightarrow> db \<Rightarrow> job_domain list" where
  "open_rows locked now j d =
     filter (\<lambda>r. claimable now j r \<and> \<not> locked (jd_key r)) (job_domains d)"

definition claim_from_job ::
  "(uuid \<times> string \<Rightarrow> bool) \<Rightarrow> time \<Rightarrow> string \<Rightarrow> uuid \<Rightarrow> db \<Rightarrow> (db \<times> job_domain) option" where
  "claim_from_job locked now token j d =
     (case order_first jd_seq (open_rows locked now j d) of
        None \<Rightarrow> None
      | Some p \<Rightarrow>
          Some (d\<lparr>job_domains :=
                    upd_where (\<lambda>r. jd_key r = jd_key p) (take_row now token) (job_domains d)\<rparr>,
                take_row now token p))"

definition start_job :: "time \<Rightarrow> job \<Rightarrow> job" where
  "start_job now j = j\<lparr>
     j_status := (if j_status j = JQueued then JRunning else j_status j),
     j_started_at := (case j_started_at j of None \<Rightarrow> Some now | Some t \<Rightarrow> Some t)\<rparr>"

definition mark_started :: "time \<Rightarrow> uuid \<Rightarrow> db \<Rightarrow> db" where
  "mark_started now j d = d\<lparr>jobs :=
     upd_where (\<lambda>x. j_id x = j \<and> (j_status x = JQueued \<or> j_started_at x = None))
       (start_job now) (jobs d)\<rparr>"

fun claim_loop ::
  "(uuid \<times> string \<Rightarrow> bool) \<Rightarrow> time \<Rightarrow> string \<Rightarrow> (nat \<Rightarrow> string) \<Rightarrow> nat \<Rightarrow> uuid list \<Rightarrow> db \<Rightarrow>
     db \<times> claimed option" where
  "claim_loop locked now worker hex i [] d = (d, None)"
| "claim_loop locked now worker hex i (j # js) d =
     (let token = new_token worker (hex i) in
      case claim_from_job locked now token j d of
        None \<Rightarrow> claim_loop locked now worker hex (Suc i) js d
      | Some (d', row) \<Rightarrow>
          (mark_started now j d',
           Some \<lparr>c_job_id = j, c_domain = jd_domain row, c_attempts = jd_attempts row,
                 c_token = token, c_not_before = jd_requeued_at row\<rparr>))"

definition claim ::
  "(uuid \<times> string \<Rightarrow> bool) \<Rightarrow> time \<Rightarrow> string \<Rightarrow> (nat \<Rightarrow> string) \<Rightarrow> db \<Rightarrow> db \<times> claimed option" where
  "claim locked now worker hex d = claim_loop locked now worker hex 0 (pick_jobs d now) d"

section \<open>Reading the shared cache\<close>

definition cache_usable ::
  "settings \<Rightarrow> time \<Rightarrow> job \<Rightarrow> time option \<Rightarrow> status option \<Rightarrow> doc option \<Rightarrow> time option \<Rightarrow> bool" where
  "cache_usable cfg now j finished_at st res not_before =
     (case (finished_at, res) of
        (Some f, Some r) \<Rightarrow>
          if doc_empty r then False
          else
            let flr = (case not_before of
                         None \<Rightarrow> j_created_at j | Some nb \<Rightarrow> max (j_created_at j) nb)
            in if f \<ge> flr then True
               else if j_fresh j \<or> st = Some Fetch_Failed then False
               else f \<ge> now - of_int (cache_days cfg) * 86400
      | _ \<Rightarrow> False)"

definition cached_result ::
  "settings \<Rightarrow> time \<Rightarrow> job \<Rightarrow> string \<Rightarrow> time option \<Rightarrow> db \<Rightarrow> domain_result option" where
  "cached_result cfg now j dm not_before d =
     (case find (\<lambda>x. d_domain x = dm) (domains d) of
        None \<Rightarrow> None
      | Some x \<Rightarrow>
          if cache_usable cfg now j (d_finished_at x) (d_status x) (d_result x) not_before
          then Option.bind (d_result x) model_validate else None)"

section \<open>Domain locks\<close>

definition insert_domain :: "time \<Rightarrow> string \<Rightarrow> domain_row list \<Rightarrow> domain_row list" where
  "insert_domain now dm ds =
     (if \<exists>x \<in> set ds. d_domain x = dm then ds else ds @ [new_domain_row now dm])"

definition lock_free :: "time \<Rightarrow> domain_row \<Rightarrow> bool" where
  "lock_free now x \<longleftrightarrow> d_lock_owner x = None \<or>
     (case d_lock_until x of None \<Rightarrow> False | Some u \<Rightarrow> u < now)"

definition take_lock :: "time \<Rightarrow> string \<Rightarrow> domain_row \<Rightarrow> domain_row" where
  "take_lock now token x = x\<lparr>d_lock_owner := Some token,
     d_lock_until := Some (now + LEASE_S), d_stage := SFetching\<rparr>"

definition lock_domain :: "time \<Rightarrow> claimed \<Rightarrow> db \<Rightarrow> db \<times> bool" where
  "lock_domain now c d =
     (let ds = insert_domain now (c_domain c) (domains d);
          hit = (\<lambda>x. d_domain x = c_domain c \<and> lock_free now x)
      in (d\<lparr>domains := upd_where hit (take_lock now (c_token c)) ds\<rparr>, \<exists>x \<in> set ds. hit x))"

definition drop_lock :: "domain_row \<Rightarrow> domain_row" where
  "drop_lock x = x\<lparr>d_lock_owner := None, d_lock_until := None,
     d_stage := (if d_finished_at x = None then SPending else SDone)\<rparr>"

definition unlock_domain :: "claimed \<Rightarrow> db \<Rightarrow> db" where
  "unlock_domain c d = d\<lparr>domains :=
     upd_where (\<lambda>x. d_domain x = c_domain c \<and> d_lock_owner x = Some (c_token c)) drop_lock
       (domains d)\<rparr>"

section \<open>Giving a row back, finishing it\<close>

definition owns_row :: "claimed \<Rightarrow> job_domain \<Rightarrow> bool" where
  "owns_row c r \<longleftrightarrow> jd_job_id r = c_job_id c \<and> jd_domain r = c_domain c \<and>
     jd_state r = Running \<and> jd_claimed_by r = Some (c_token c)"

definition requeue_row :: "time \<Rightarrow> rat \<Rightarrow> int \<Rightarrow> job_domain \<Rightarrow> job_domain" where
  "requeue_row now delay refund r = r\<lparr>jd_state := Queued, jd_claimed_by := None,
     jd_heartbeat_at := None, jd_available_at := now + delay,
     jd_attempts := jd_attempts r - refund\<rparr>"

definition requeue :: "time \<Rightarrow> claimed \<Rightarrow> rat \<Rightarrow> bool \<Rightarrow> db \<Rightarrow> db" where
  "requeue now c delay count_attempt d = d\<lparr>job_domains :=
     upd_where (owns_row c) (requeue_row now delay (if count_attempt then 0 else 1))
       (job_domains d)\<rparr>"

definition unfinished :: "uuid \<Rightarrow> job_domain \<Rightarrow> bool" where
  "unfinished j r \<longleftrightarrow> jd_job_id r = j \<and> jd_state r \<in> {Queued, Running}"

definition job_rows :: "uuid \<Rightarrow> db \<Rightarrow> job_domain list" where
  "job_rows j d = filter (\<lambda>r. jd_job_id r = j) (job_domains d)"

definition completes :: "db \<Rightarrow> job \<Rightarrow> bool" where
  "completes d x \<longleftrightarrow> j_status x \<in> {JQueued, JRunning} \<and>
     \<not> (\<exists>r \<in> set (job_domains d). unfinished (j_id x) r)"

definition complete_job :: "time \<Rightarrow> db \<Rightarrow> job \<Rightarrow> job" where
  "complete_job now d x = x\<lparr>j_status := JDone, j_finished_at := Some now,
     j_done_count := length (job_rows (j_id x) d)\<rparr>"

definition complete_if_finished :: "time \<Rightarrow> uuid \<Rightarrow> db \<Rightarrow> db \<times> bool" where
  "complete_if_finished now j d =
     (let hit = (\<lambda>x. j_id x = j \<and> completes d x)
      in (d\<lparr>jobs := upd_where hit (complete_job now d) (jobs d)\<rparr>, \<exists>x \<in> set (jobs d). hit x))"

definition finish_row :: "time \<Rightarrow> domain_result \<Rightarrow> bool \<Rightarrow> job_domain \<Rightarrow> job_domain" where
  "finish_row now res from_cache r = r\<lparr>jd_state := Done, jd_finished_at := Some now,
     jd_claimed_by := None, jd_from_cache := from_cache,
     jd_jina_tokens := (if from_cache then 0 else dr_jina_tokens res),
     jd_status := Some (dr_status res), jd_result := Some (Doc res),
     jd_needs_review := dr_needs_review res,
     jd_typesafe_called := dr_typesafe_called res \<and> \<not> from_cache,
     jd_has_phone := (dr_phones res \<noteq> []), jd_has_form := truthy (dr_contact_form_url res),
     jd_has_linkedin := truthy (map_of (dr_socials res) ''linkedin'')\<rparr>"

definition write_cache_row :: "time \<Rightarrow> domain_result \<Rightarrow> domain_row \<Rightarrow> domain_row" where
  "write_cache_row now res x = x\<lparr>d_status := Some (dr_status res), d_result := Some (Doc res),
     d_stage := SDone, d_finished_at := Some now, d_updated_at := now,
     d_attempts := d_attempts x + 1\<rparr>"

definition write_cache_of :: "time \<Rightarrow> claimed \<Rightarrow> domain_result \<Rightarrow> db \<Rightarrow> db" where
  "write_cache_of now c res d = d\<lparr>domains :=
     upd_where (\<lambda>x. d_domain x = c_domain c) (write_cache_row now res) (domains d)\<rparr>"

text \<open>
  The result is \<open>(recorded, job_done)\<close>. A lost claim writes nothing but the release of its
  own domain lock, in a transaction of its own after the rollback.
\<close>

definition finish ::
  "time \<Rightarrow> claimed \<Rightarrow> domain_result \<Rightarrow> bool \<Rightarrow> bool \<Rightarrow> db \<Rightarrow> db \<times> bool \<times> bool" where
  "finish now c res from_cache write_cache d =
     (if \<not> (\<exists>r \<in> set (job_domains d). owns_row c r)
      then (unlock_domain c d, False, False)
      else
        let d1 = d\<lparr>job_domains :=
                     upd_where (owns_row c) (finish_row now res from_cache) (job_domains d)\<rparr>;
            d2 = (if \<not> from_cache \<and> write_cache then write_cache_of now c res d1 else d1);
            (d4, done) = complete_if_finished now (c_job_id c) (unlock_domain c d2)
        in (d4, True, done))"

section \<open>Retrying finished rows, pausing\<close>

definition RETRYABLE_FAILURE_REASONS :: "string list" where
  "RETRYABLE_FAILURE_REASONS =
     [''homepage'', ''dns'', ''circuit_open'', ''domain_timeout'', ''internal_error'',
      ''private_address'']"

definition retryable_row :: "uuid \<Rightarrow> job_domain \<Rightarrow> bool" where
  "retryable_row j r \<longleftrightarrow> jd_job_id r = j \<and> jd_state r = Done \<and> jd_status r = Some Fetch_Failed \<and>
     (case jd_result r of
        None \<Rightarrow> False
      | Some res \<Rightarrow>
          (case doc_error_reason res of
             None \<Rightarrow> False | Some e \<Rightarrow> e \<in> set RETRYABLE_FAILURE_REASONS) \<or>
          doc_site_status res = Some ''too_many_attempts'')"

definition retry_row :: "time \<Rightarrow> job_domain \<Rightarrow> job_domain" where
  "retry_row now r = r\<lparr>jd_state := Queued, jd_attempts := 0, jd_claimed_by := None,
     jd_heartbeat_at := None, jd_available_at := now, jd_requeued_at := Some now\<rparr>"

definition reopen_job :: "time \<Rightarrow> job \<Rightarrow> job" where
  "reopen_job now x = x\<lparr>j_status := JRunning,
     j_paused_seconds := j_paused_seconds x +
       (case j_finished_at x of None \<Rightarrow> 0 | Some f \<Rightarrow> now - f),
     j_finished_at := None\<rparr>"

definition requeue_failed :: "time \<Rightarrow> uuid \<Rightarrow> db \<Rightarrow> db \<times> nat" where
  "requeue_failed now j d =
     (let n = count_where (retryable_row j) (job_domains d);
          d1 = d\<lparr>job_domains := upd_where (retryable_row j) (retry_row now) (job_domains d)\<rparr>;
          d2 = (if n > 0
                then d1\<lparr>jobs := upd_where (\<lambda>x. j_id x = j \<and> j_status x = JDone)
                                  (reopen_job now) (jobs d1)\<rparr>
                else d1)
      in (d2, n))"

definition pause_job :: "time \<Rightarrow> string \<Rightarrow> job \<Rightarrow> job" where
  "pause_job now reason x = x\<lparr>j_status := JPaused, j_pause_reason := Some reason,
     j_paused_at := Some now\<rparr>"

definition pause_active_jobs :: "time \<Rightarrow> string \<Rightarrow> db \<Rightarrow> db" where
  "pause_active_jobs now reason d = d\<lparr>jobs :=
     upd_where (\<lambda>x. j_status x \<in> {JQueued, JRunning}) (pause_job now reason) (jobs d)\<rparr>"

section \<open>Liveness: heartbeats, the reaper, shutdown\<close>

definition held_by :: "string list \<Rightarrow> string option \<Rightarrow> bool" where
  "held_by tokens ow = (case ow of None \<Rightarrow> False | Some t \<Rightarrow> t \<in> set tokens)"

definition heartbeat :: "time \<Rightarrow> string list \<Rightarrow> db \<Rightarrow> db" where
  "heartbeat now tokens d =
     (if tokens = [] then d
      else d\<lparr>
        job_domains := upd_where (\<lambda>r. jd_state r = Running \<and> held_by tokens (jd_claimed_by r))
          (\<lambda>r. r\<lparr>jd_heartbeat_at := Some now\<rparr>) (job_domains d),
        domains := upd_where (\<lambda>x. held_by tokens (d_lock_owner x))
          (\<lambda>x. x\<lparr>d_lock_until := Some (now + LEASE_S)\<rparr>) (domains d)\<rparr>)"

definition complete_finished_jobs :: "time \<Rightarrow> db \<Rightarrow> db \<times> nat" where
  "complete_finished_jobs now d =
     (d\<lparr>jobs := upd_where (completes d) (complete_job now d) (jobs d)\<rparr>,
      count_where (completes d) (jobs d))"

definition stale :: "time \<Rightarrow> job_domain \<Rightarrow> bool" where
  "stale now r \<longleftrightarrow> jd_state r = Running \<and>
     (case jd_heartbeat_at r of None \<Rightarrow> False | Some h \<Rightarrow> h < now - LEASE_S)"

definition reap_row :: "time \<Rightarrow> job_domain \<Rightarrow> job_domain" where
  "reap_row now r = r\<lparr>jd_state := Queued, jd_claimed_by := None, jd_heartbeat_at := None,
     jd_available_at := now\<rparr>"

definition reap :: "time \<Rightarrow> db \<Rightarrow> db \<times> nat" where
  "reap now d =
     (d\<lparr>job_domains := upd_where (stale now) (reap_row now) (job_domains d)\<rparr>,
      count_where (stale now) (job_domains d))"

text \<open>
  \<open>LIKE\<close>: \<open>%\<close> matches any text, \<open>_\<close> one character, a backslash takes the next character of the
  pattern literally.
\<close>

fun like :: "string \<Rightarrow> string \<Rightarrow> bool" where
  "like [] t = (t = [])"
| "like (p # ps) [] = (p = CHR ''%'' \<and> like ps [])"
| "like (p # ps) (c # t) =
     (if p = CHR ''%'' then like ps (c # t) \<or> like (p # ps) t
      else if p = CHR ''_'' then like ps t
      else if p = CHR 0x5C then
        (case ps of [] \<Rightarrow> False | q # qs \<Rightarrow> q = c \<and> like qs t)
      else p = c \<and> like ps t)"

definition claimed_like :: "string \<Rightarrow> string option \<Rightarrow> bool" where
  "claimed_like pat ow = (case ow of None \<Rightarrow> False | Some t \<Rightarrow> like pat t)"

definition release_row :: "time \<Rightarrow> job_domain \<Rightarrow> job_domain" where
  "release_row now r = r\<lparr>jd_state := Queued, jd_claimed_by := None, jd_heartbeat_at := None,
     jd_available_at := now, jd_attempts := max (jd_attempts r - 1) 0\<rparr>"

definition release_worker :: "time \<Rightarrow> string \<Rightarrow> db \<Rightarrow> db" where
  "release_worker now worker d =
     (let pat = worker @ ''|%''
      in d\<lparr>
        job_domains := upd_where (\<lambda>r. jd_state r = Running \<and> claimed_like pat (jd_claimed_by r))
          (release_row now) (job_domains d),
        domains := upd_where (\<lambda>x. claimed_like pat (d_lock_owner x)) drop_lock (domains d)\<rparr>)"

definition row_indexes :: "uuid \<Rightarrow> string \<Rightarrow> db \<Rightarrow> nat list" where
  "row_indexes j dm d =
     sort (map ji_row_index
       (filter (\<lambda>it. ji_job_id it = j \<and> ji_domain it = Some dm) (job_items d)))"

end
