(* ===== verification/Queue_Inv.thy ===== *)
theory Queue_Inv
  imports Queue
begin

text \<open>
  What the queue keeps true between transactions. The invariant \<open>db_inv\<close> is stated row by
  row; each SQL \<open>UPDATE\<close> of the queue is an instance of one of three statement interfaces
  (\<open>row_statement\<close>, \<open>job_statement\<close>, \<open>lock_statement\<close>), whose lemmas say once that such a
  statement keeps the table's share of the invariant.
\<close>

section \<open>The invariant\<close>

definition row_ok :: "job_domain \<Rightarrow> bool" where
  "row_ok r \<longleftrightarrow> 0 \<le> jd_attempts r \<and>
     (jd_state r = Running \<longleftrightarrow> jd_claimed_by r \<noteq> None) \<and>
     (jd_state r = Running \<longrightarrow> jd_heartbeat_at r \<noteq> None \<and> 1 \<le> jd_attempts r) \<and>
     (jd_state r = Done \<longrightarrow>
        jd_finished_at r \<noteq> None \<and> jd_status r \<noteq> None \<and> jd_result r \<noteq> None)"

definition tokens_of :: "job_domain list \<Rightarrow> string list" where
  "tokens_of rs = List.map_filter jd_claimed_by rs"

definition rows_inv :: "job_domain list \<Rightarrow> bool" where
  "rows_inv rs \<longleftrightarrow> distinct (map jd_key rs) \<and> (\<forall>r \<in> set rs. row_ok r) \<and> distinct (tokens_of rs)"

definition all_done :: "job_domain list \<Rightarrow> uuid \<Rightarrow> bool" where
  "all_done rs j \<longleftrightarrow> (\<forall>r \<in> set rs. jd_job_id r = j \<longrightarrow> jd_state r = Done)"

definition job_ok :: "job_domain list \<Rightarrow> job \<Rightarrow> bool" where
  "job_ok rs x \<longleftrightarrow> (j_status x = JPaused \<longleftrightarrow> j_paused_at x \<noteq> None) \<and>
     (j_status x \<in> {JDone, JCancelled} \<longleftrightarrow> j_finished_at x \<noteq> None) \<and>
     (j_status x = JDone \<longrightarrow> all_done rs (j_id x))"

definition jobs_inv :: "job_domain list \<Rightarrow> job list \<Rightarrow> bool" where
  "jobs_inv rs js \<longleftrightarrow> distinct (map j_id js) \<and> (\<forall>x \<in> set js. job_ok rs x)"

definition lock_ok :: "domain_row \<Rightarrow> bool" where
  "lock_ok x \<longleftrightarrow> (d_lock_owner x = None \<longleftrightarrow> d_lock_until x = None)"

definition locks_inv :: "domain_row list \<Rightarrow> bool" where
  "locks_inv ds \<longleftrightarrow> distinct (map d_domain ds) \<and> (\<forall>x \<in> set ds. lock_ok x)"

definition refs_ok :: "(uuid \<times> string) list \<Rightarrow> uuid list \<Rightarrow> string list \<Rightarrow> bool" where
  "refs_ok ks js ds \<longleftrightarrow> fst ` set ks \<subseteq> set js \<and> snd ` set ks \<subseteq> set ds"

definition refs_inv :: "db \<Rightarrow> bool" where
  "refs_inv d \<longleftrightarrow>
     refs_ok (map jd_key (job_domains d)) (map j_id (jobs d)) (map d_domain (domains d))"

definition db_inv :: "db \<Rightarrow> bool" where
  "db_inv d \<longleftrightarrow> rows_inv (job_domains d) \<and> jobs_inv (job_domains d) (jobs d) \<and>
     locks_inv (domains d) \<and> refs_inv d"

lemmas inv_defs = db_inv_def rows_inv_def jobs_inv_def locks_inv_def refs_inv_def

lemma unfinished_iff: "unfinished j r \<longleftrightarrow> jd_job_id r = j \<and> jd_state r \<noteq> Done"
  by (cases "jd_state r") (auto simp: unfinished_def)

lemma all_done_unfinished: "all_done rs j \<longleftrightarrow> \<not> (\<exists>r \<in> set rs. unfinished j r)"
  by (auto simp: all_done_def unfinished_iff)

lemma refs_invD:
  assumes "refs_inv d" and "r \<in> set (job_domains d)"
  shows "jd_job_id r \<in> j_id ` set (jobs d)" and "jd_domain r \<in> d_domain ` set (domains d)"
proof -
  have "jd_key r \<in> set (map jd_key (job_domains d))" using assms(2) by simp
  then have "fst (jd_key r) \<in> set (map j_id (jobs d)) \<and> snd (jd_key r) \<in> set (map d_domain (domains d))"
    using assms(1) unfolding refs_inv_def refs_ok_def by blast
  then show "jd_job_id r \<in> j_id ` set (jobs d)" and "jd_domain r \<in> d_domain ` set (domains d)"
    by (simp_all add: jd_key_def)
qed

section \<open>Tokens of a table\<close>

lemma tokens_of_simps [simp]:
  "tokens_of [] = []"
  "tokens_of (r # rs) =
     (case jd_claimed_by r of None \<Rightarrow> tokens_of rs | Some t \<Rightarrow> t # tokens_of rs)"
  by (simp_all add: tokens_of_def List.map_filter_simps split: option.splits)

lemma set_tokens_of: "set (tokens_of rs) = {t. \<exists>r \<in> set rs. jd_claimed_by r = Some t}"
  by (induction rs) (auto split: option.splits)

lemma tokens_upd_subset:
  assumes "\<And>r. P r \<Longrightarrow> jd_claimed_by (f r) \<in> {None, jd_claimed_by r}"
  shows "set (tokens_of (upd_where P f rs)) \<subseteq> set (tokens_of rs)"
  using assms by (fastforce simp: set_tokens_of set_upd_where)

lemma distinct_tokens_upd:
  assumes cb: "\<And>r. P r \<Longrightarrow> jd_claimed_by (f r) \<in> {None, jd_claimed_by r}"
  shows "distinct (tokens_of rs) \<Longrightarrow> distinct (tokens_of (upd_where P f rs))"
proof (induction rs)
  case (Cons r rs)
  have sub: "set (tokens_of (upd_where P f rs)) \<subseteq> set (tokens_of rs)"
    using cb by (rule tokens_upd_subset)
  from Cons have IH: "distinct (tokens_of (upd_where P f rs))"
    by (auto split: option.splits)
  show ?case
  proof (cases "P r")
    case True
    with cb [OF True] IH sub Cons.prems show ?thesis by (auto split: option.splits)
  next
    case False
    with IH sub Cons.prems show ?thesis by (auto split: option.splits)
  qed
qed simp

lemma token_unique:
  assumes "distinct (tokens_of rs)" and "r \<in> set rs" and "r' \<in> set rs"
    and "jd_claimed_by r = Some t" and "jd_claimed_by r' = Some t"
  shows "r = r'"
  using assms
proof (induction rs)
  case (Cons a rs)
  have "\<And>x. x \<in> set rs \<Longrightarrow> jd_claimed_by x = Some t \<Longrightarrow> t \<in> set (tokens_of rs)"
    by (auto simp: set_tokens_of)
  with Cons show ?case by (auto split: option.splits)
qed simp

section \<open>Statements on the queue rows\<close>

locale row_statement =
  fixes P :: "job_domain \<Rightarrow> bool"
    and f :: "job_domain \<Rightarrow> job_domain"
  assumes row_key: "jd_key (f r) = jd_key r"
    and row_kept: "\<lbrakk> P r; row_ok r \<rbrakk> \<Longrightarrow> row_ok (f r)"
    and row_token: "P r \<Longrightarrow> jd_claimed_by (f r) \<in> {None, jd_claimed_by r}"
begin

lemma keys: "map jd_key (upd_where P f rs) = map jd_key rs"
  by (rule map_upd_where) (rule row_key)

lemma rows: "rows_inv rs \<Longrightarrow> rows_inv (upd_where P f rs)"
  by (auto simp: rows_inv_def keys ball_upd_where row_kept
      intro: distinct_tokens_upd [OF row_token])

lemma tokens: "set (tokens_of (upd_where P f rs)) \<subseteq> set (tokens_of rs)"
  by (rule tokens_upd_subset) (rule row_token)

end

text \<open>A statement that only touches rows in flight cannot disturb a finished job.\<close>

locale running_statement = row_statement +
  assumes only_running: "P r \<Longrightarrow> jd_state r = Running"
begin

lemma row_job: "jd_job_id (f r) = jd_job_id r"
  using row_key [of r] by (simp add: jd_key_def)

lemma all_done_kept: "all_done rs j \<Longrightarrow> all_done (upd_where P f rs) j"
  by (auto simp: all_done_def ball_upd_where row_job dest: only_running)

lemma jobs_kept: "jobs_inv rs js \<Longrightarrow> jobs_inv (upd_where P f rs) js"
  by (auto simp: jobs_inv_def job_ok_def intro: all_done_kept)

lemma db_kept: "db_inv d \<Longrightarrow> db_inv (d\<lparr>job_domains := upd_where P f (job_domains d)\<rparr>)"
  by (simp add: db_inv_def rows jobs_kept refs_inv_def keys)

end

section \<open>Statements on the jobs\<close>

locale job_statement =
  fixes rs :: "job_domain list"
    and P :: "job \<Rightarrow> bool"
    and f :: "job \<Rightarrow> job"
  assumes job_key: "j_id (f x) = j_id x"
    and job_kept: "\<lbrakk> P x; job_ok rs x \<rbrakk> \<Longrightarrow> job_ok rs (f x)"
begin

lemma keys: "map j_id (upd_where P f js) = map j_id js"
  by (rule map_upd_where) (rule job_key)

lemma jobs: "jobs_inv rs js \<Longrightarrow> jobs_inv rs (upd_where P f js)"
  by (auto simp: jobs_inv_def keys ball_upd_where job_kept)

lemma db_kept:
  "\<lbrakk> db_inv d; job_domains d = rs \<rbrakk> \<Longrightarrow> db_inv (d\<lparr>jobs := upd_where P f (jobs d)\<rparr>)"
  by (simp add: db_inv_def jobs refs_inv_def keys)

end

section \<open>Statements on the domain rows\<close>

locale lock_statement =
  fixes P :: "domain_row \<Rightarrow> bool"
    and f :: "domain_row \<Rightarrow> domain_row"
  assumes lock_key: "d_domain (f x) = d_domain x"
    and lock_kept: "\<lbrakk> P x; lock_ok x \<rbrakk> \<Longrightarrow> lock_ok (f x)"
begin

lemma keys: "map d_domain (upd_where P f ds) = map d_domain ds"
  by (rule map_upd_where) (rule lock_key)

lemma locks: "locks_inv ds \<Longrightarrow> locks_inv (upd_where P f ds)"
  by (auto simp: locks_inv_def keys ball_upd_where lock_kept)

lemma db_kept: "db_inv d \<Longrightarrow> db_inv (d\<lparr>domains := upd_where P f (domains d)\<rparr>)"
  by (simp add: db_inv_def locks refs_inv_def keys)

end

section \<open>Every statement of the queue is one of these\<close>

interpretation requeue_st: running_statement "owns_row c"
  "requeue_row now delay (if count_attempt then 0 else 1)" for c now delay count_attempt
  by unfold_locales (auto simp: jd_key_def requeue_row_def owns_row_def row_ok_def)

interpretation finish_st: running_statement "owns_row c" "finish_row now res from_cache"
  for c now res from_cache
  by unfold_locales (auto simp: jd_key_def finish_row_def owns_row_def row_ok_def)

interpretation beat_st: running_statement
  "\<lambda>r. jd_state r = Running \<and> held_by tokens (jd_claimed_by r)"
  "\<lambda>r. r\<lparr>jd_heartbeat_at := Some now\<rparr>" for tokens now
  by unfold_locales (auto simp: jd_key_def row_ok_def)

interpretation reap_st: running_statement "stale now" "reap_row now" for now
  by unfold_locales (auto simp: jd_key_def reap_row_def stale_def row_ok_def)

interpretation release_st: running_statement
  "\<lambda>r. jd_state r = Running \<and> claimed_like pat (jd_claimed_by r)" "release_row now" for pat now
  by unfold_locales (auto simp: jd_key_def release_row_def row_ok_def)

interpretation retry_st: row_statement "retryable_row j" "retry_row now" for j now
  by unfold_locales (auto simp: jd_key_def retry_row_def retryable_row_def row_ok_def)

interpretation start_st: job_statement rs "\<lambda>x. j_id x = j \<and> (j_status x = JQueued \<or> j_started_at x = None)"
  "start_job now" for rs j now
  by unfold_locales (auto simp: start_job_def job_ok_def)

interpretation pause_st: job_statement rs "\<lambda>x. j_status x \<in> {JQueued, JRunning}"
  "pause_job now reason" for rs now reason
  by unfold_locales (auto simp: pause_job_def job_ok_def)

interpretation complete_st: job_statement "job_domains d" "\<lambda>x. sel x \<and> completes d x"
  "complete_job now d'" for d sel now d'
proof unfold_locales
  fix x
  assume "sel x \<and> completes d x" and "job_ok (job_domains d) x"
  moreover have "all_done (job_domains d) (j_id x)" if "completes d x"
    using that by (simp add: completes_def all_done_unfinished)
  ultimately show "job_ok (job_domains d) (complete_job now d' x)"
    by (auto simp: job_ok_def complete_job_def completes_def)
qed (simp add: complete_job_def)

interpretation drop_st: lock_statement P drop_lock for P
  by unfold_locales (auto simp: drop_lock_def lock_ok_def)

interpretation take_st: lock_statement P "take_lock now token" for P now token
  by unfold_locales (auto simp: take_lock_def lock_ok_def)

interpretation cache_st: lock_statement P "write_cache_row now res" for P now res
  by unfold_locales (auto simp: write_cache_row_def lock_ok_def)

interpretation renew_st: lock_statement "\<lambda>x. held_by tokens (d_lock_owner x)"
  "\<lambda>x. x\<lparr>d_lock_until := Some u\<rparr>" for tokens u
  by unfold_locales (auto simp: held_by_def lock_ok_def split: option.splits)

section \<open>Claiming a row\<close>

lemma open_rows_iff:
  "r \<in> set (open_rows locked now j d) \<longleftrightarrow>
     r \<in> set (job_domains d) \<and> claimable now j r \<and> \<not> locked (jd_key r)"
  by (auto simp: open_rows_def)

lemma claim_from_job_None:
  "claim_from_job locked now token j d = None \<longleftrightarrow> open_rows locked now j d = []"
  by (auto simp: claim_from_job_def split: option.splits)

lemma claim_from_job_SomeD:
  "claim_from_job locked now token j d = Some a \<Longrightarrow> open_rows locked now j d \<noteq> []"
  using claim_from_job_None [of locked now token j d] by auto

text \<open>What a pass over the picked jobs does: nothing, or one row of the first job that has one.\<close>

lemma claim_loop_None:
  "snd (claim_loop locked now w hex i js d) = None \<longleftrightarrow>
     (\<forall>j \<in> set js. open_rows locked now j d = [])"
  by (induction js arbitrary: i)
    (auto simp: Let_def claim_from_job_None split: option.splits dest: claim_from_job_SomeD)

lemma claim_loop_unchanged:
  "snd (claim_loop locked now w hex i js d) = None \<Longrightarrow> fst (claim_loop locked now w hex i js d) = d"
  by (induction js arbitrary: i) (auto simp: Let_def split: option.splits)

lemma claim_loop_Some:
  assumes "claim_loop locked now w hex i js d = (d', Some c)"
  obtains pre post p k where
    "js = pre @ c_job_id c # post"
    "\<And>j. j \<in> set pre \<Longrightarrow> open_rows locked now j d = []"
    "order_first jd_seq (open_rows locked now (c_job_id c) d) = Some p"
    "k < i + length js" "c_token c = new_token w (hex k)"
    "c_domain c = jd_domain p" "c_attempts c = jd_attempts p + 1"
    "c_not_before c = jd_requeued_at p"
    "d' = mark_started now (c_job_id c) (d\<lparr>job_domains :=
       upd_where (\<lambda>r. jd_key r = jd_key p) (take_row now (c_token c)) (job_domains d)\<rparr>)"
  using assms
proof (induction js arbitrary: i thesis)
  case Nil
  then show ?case by simp
next
  case (Cons j js)
  show ?case
  proof (cases "claim_from_job locked now (new_token w (hex i)) j d")
    case None
    with Cons.prems(2) have rec: "claim_loop locked now w hex (Suc i) js d = (d', Some c)"
      by simp
    show ?thesis
    proof (rule Cons.IH [OF _ rec])
      fix pre post p k
      assume js: "js = pre @ c_job_id c # post"
        and pre: "\<And>j. j \<in> set pre \<Longrightarrow> open_rows locked now j d = []"
        and rest: "order_first jd_seq (open_rows locked now (c_job_id c) d) = Some p"
          "k < Suc i + length js" "c_token c = new_token w (hex k)"
          "c_domain c = jd_domain p" "c_attempts c = jd_attempts p + 1"
          "c_not_before c = jd_requeued_at p"
          "d' = mark_started now (c_job_id c) (d\<lparr>job_domains :=
             upd_where (\<lambda>r. jd_key r = jd_key p) (take_row now (c_token c)) (job_domains d)\<rparr>)"
      show thesis
        by (rule Cons.prems(1) [of "j # pre" post p k])
          (use js pre rest None in \<open>auto simp: claim_from_job_None\<close>)
    qed
  next
    case (Some a)
    then obtain p where p: "order_first jd_seq (open_rows locked now j d) = Some p"
      and a: "a = (d\<lparr>job_domains :=
           upd_where (\<lambda>r. jd_key r = jd_key p) (take_row now (new_token w (hex i))) (job_domains d)\<rparr>,
         take_row now (new_token w (hex i)) p)"
      by (auto simp: claim_from_job_def split: option.splits)
    have "c = \<lparr>c_job_id = j, c_domain = jd_domain p, c_attempts = jd_attempts p + 1,
        c_token = new_token w (hex i), c_not_before = jd_requeued_at p\<rparr>"
      and "d' = mark_started now j (fst a)"
      using Cons.prems(2) Some a by (auto simp: Let_def take_row_def)
    with p a show ?thesis by (intro Cons.prems(1) [of "[]" js p i]) auto
  qed
qed

lemma take_row_simps [simp]:
  "jd_key (take_row now token r) = jd_key r"
  "jd_claimed_by (take_row now token r) = Some token"
  by (simp_all add: take_row_def jd_key_def)

lemma take_row_tokens:
  assumes "distinct (map jd_key rs)" and "distinct (tokens_of rs)" and "token \<notin> set (tokens_of rs)"
  shows "distinct (tokens_of (upd_where (\<lambda>r. jd_key r = k) (take_row now token) rs)) \<and>
    set (tokens_of (upd_where (\<lambda>r. jd_key r = k) (take_row now token) rs))
      \<subseteq> insert token (set (tokens_of rs))"
  using assms
proof (induction rs)
  case (Cons a rs)
  show ?case
  proof (cases "jd_key a = k")
    case True
    with Cons.prems(1) have "upd_where (\<lambda>r. jd_key r = k) (take_row now token) rs = rs"
      by (intro upd_where_none) (auto simp: rev_image_eqI)
    with True Cons.prems show ?thesis by (auto split: option.splits)
  next
    case False
    with Cons show ?thesis by (auto split: option.splits)
  qed
qed simp

lemma take_row_db_inv:
  assumes inv: "db_inv d" and p: "p \<in> set (job_domains d)" "jd_state p = Queued"
    and fresh: "token \<notin> set (tokens_of (job_domains d))"
  shows "db_inv (d\<lparr>job_domains :=
    upd_where (\<lambda>r. jd_key r = jd_key p) (take_row now token) (job_domains d)\<rparr>)"
proof -
  let ?rs = "job_domains d"
  let ?rs' = "upd_where (\<lambda>r. jd_key r = jd_key p) (take_row now token) ?rs"
  have keys: "map jd_key ?rs' = map jd_key ?rs"
    by (rule map_upd_where) simp
  have uniq: "\<And>r. r \<in> set ?rs \<Longrightarrow> jd_key r = jd_key p \<Longrightarrow> r = p"
    using inv p(1) by (auto simp: inv_defs dest: distinct_key_eq)
  have "rows_inv ?rs'"
    using inv p fresh take_row_tokens [of ?rs token "jd_key p" now]
    by (auto simp: inv_defs keys ball_upd_where row_ok_def take_row_def)
  moreover have "all_done ?rs' j" if "all_done ?rs j" for j
    using that p uniq by (auto simp: all_done_def ball_upd_where take_row_def jd_key_def)
  then have "jobs_inv ?rs' (jobs d)"
    using inv by (auto simp: inv_defs job_ok_def)
  ultimately show ?thesis
    using inv by (simp add: db_inv_def refs_inv_def keys)
qed

lemma mark_started_inv [inv_intros]: "db_inv d \<Longrightarrow> db_inv (mark_started now j d)"
  by (simp add: mark_started_def start_st.db_kept)

lemma claim_inv [inv_intros]:
  assumes inv: "db_inv d"
    and fresh: "\<And>k. k < 5 \<Longrightarrow> new_token w (hex k) \<notin> set (tokens_of (job_domains d))"
  shows "db_inv (fst (claim locked now w hex d))"
proof (cases "claim locked now w hex d")
  case (Pair d' oc)
  show ?thesis
  proof (cases oc)
    case None
    with Pair inv show ?thesis
      using claim_loop_unchanged [of locked now w hex 0 "pick_jobs d now" d]
      by (simp add: claim_def)
  next
    case (Some c)
    from Pair Some have "claim_loop locked now w hex 0 (pick_jobs d now) d = (d', Some c)"
      by (simp add: claim_def)
    then obtain p k where p: "order_first jd_seq (open_rows locked now (c_job_id c) d) = Some p"
      and k: "k < length (pick_jobs d now)" "c_token c = new_token w (hex k)"
      and d': "d' = mark_started now (c_job_id c) (d\<lparr>job_domains :=
         upd_where (\<lambda>r. jd_key r = jd_key p) (take_row now (c_token c)) (job_domains d)\<rparr>)"
      by (rule claim_loop_Some) simp
    have "p \<in> set (job_domains d)" "jd_state p = Queued"
      using order_first_Some(1) [OF p] by (auto simp: open_rows_iff claimable_def)
    moreover have "c_token c \<notin> set (tokens_of (job_domains d))"
      using k fresh [of k] by (auto simp: pick_jobs_def)
    ultimately show ?thesis
      using Pair inv by (auto simp: d' intro!: mark_started_inv take_row_db_inv)
  qed
qed

section \<open>The other operations\<close>

lemma unlock_domain_inv [inv_intros]: "db_inv d \<Longrightarrow> db_inv (unlock_domain c d)"
  by (simp add: unlock_domain_def drop_st.db_kept)

lemma insert_domain_locks:
  "locks_inv ds \<Longrightarrow> locks_inv (insert_domain now dm ds)"
  by (auto simp: locks_inv_def insert_domain_def new_domain_row_def lock_ok_def)

lemma insert_domain_keys:
  "set (map d_domain (insert_domain now dm ds)) = insert dm (set (map d_domain ds))"
  by (auto simp: insert_domain_def new_domain_row_def)

lemma refs_more_domains:
  "\<lbrakk> refs_inv d; set (map d_domain (domains d)) \<subseteq> set (map d_domain ds) \<rbrakk>
     \<Longrightarrow> refs_inv (d\<lparr>domains := ds\<rparr>)"
  unfolding refs_inv_def refs_ok_def by simp (rule subset_trans, auto)

lemma lock_domain_inv [inv_intros]: "db_inv d \<Longrightarrow> db_inv (fst (lock_domain now c d))"
  unfolding lock_domain_def Let_def db_inv_def fst_conv
  by (intro conjI refs_more_domains)
    (auto simp: take_st.keys take_st.locks insert_domain_locks
      simp del: set_map simp add: insert_domain_keys)

lemma requeue_inv [inv_intros]: "db_inv d \<Longrightarrow> db_inv (requeue now c delay ca d)"
  unfolding requeue_def by (rule requeue_st.db_kept)

lemma complete_if_finished_inv [inv_intros]:
  "db_inv d \<Longrightarrow> db_inv (fst (complete_if_finished now j d))"
  by (simp add: complete_if_finished_def Let_def complete_st.db_kept)

lemma complete_finished_jobs_inv [inv_intros]:
  "db_inv d \<Longrightarrow> db_inv (fst (complete_finished_jobs now d))"
  using complete_st.db_kept [where sel = "\<lambda>_. True"] by (simp add: complete_finished_jobs_def)

lemma write_cache_of_inv [inv_intros]: "db_inv d \<Longrightarrow> db_inv (write_cache_of now c res d)"
  by (simp add: write_cache_of_def cache_st.db_kept)

lemma finish_inv [inv_intros]: "db_inv d \<Longrightarrow> db_inv (fst (finish now c res fc wc d))"
  by (auto simp: finish_def Let_def split: prod.splits
      dest!: arg_cong [where f = fst] intro!: inv_intros finish_st.db_kept)

lemma pause_active_jobs_inv [inv_intros]: "db_inv d \<Longrightarrow> db_inv (pause_active_jobs now reason d)"
  unfolding pause_active_jobs_def by (rule pause_st.db_kept [OF _ refl])

lemma heartbeat_inv [inv_intros]: "db_inv d \<Longrightarrow> db_inv (heartbeat now tokens d)"
  using beat_st.db_kept [THEN renew_st.db_kept] by (auto simp: heartbeat_def)

lemma reap_inv [inv_intros]: "db_inv d \<Longrightarrow> db_inv (fst (reap now d))"
  by (simp add: reap_def reap_st.db_kept)

lemma release_worker_inv [inv_intros]: "db_inv d \<Longrightarrow> db_inv (release_worker now w d)"
  using release_st.db_kept [THEN drop_st.db_kept] by (simp add: release_worker_def Let_def)

lemma count_where_0: "count_where P rs = 0 \<longleftrightarrow> (\<forall>r \<in> set rs. \<not> P r)"
  by (auto simp: count_where_def filter_empty_conv)

lemma retry_all_done:
  assumes "all_done rs k" and "k \<noteq> j \<or> count_where (retryable_row j) rs = 0"
  shows "all_done (upd_where (retryable_row j) (retry_row now) rs) k"
  using assms
  by (auto simp: all_done_def ball_upd_where count_where_0 retry_row_def retryable_row_def)

lemma requeue_failed_inv [inv_intros]:
  assumes inv: "db_inv d"
  shows "db_inv (fst (requeue_failed now j d))"
proof -
  let ?n = "count_where (retryable_row j) (job_domains d)"
  let ?rs = "upd_where (retryable_row j) (retry_row now) (job_domains d)"
  let ?js = "upd_where (\<lambda>x. j_id x = j \<and> j_status x = JDone) (reopen_job now) (jobs d)"
  have ids: "map j_id ?js = map j_id (jobs d)"
    by (rule map_upd_where) (simp add: reopen_job_def)
  have rows: "rows_inv ?rs" using inv by (simp add: db_inv_def retry_st.rows)
  have "jobs_inv ?rs (jobs d)" if "?n = 0"
    using inv that by (auto simp: inv_defs job_ok_def intro: retry_all_done)
  moreover have "jobs_inv ?rs ?js"
    using inv by (auto simp: inv_defs ids ball_upd_where job_ok_def reopen_job_def
        intro: retry_all_done)
  ultimately show ?thesis
    using inv rows
    by (simp add: requeue_failed_def Let_def db_inv_def refs_inv_def retry_st.keys ids)
qed

end
