(* ===== verification/Sample.thy ===== *)
theory Sample
  imports Queue_Inv
begin

text \<open>
  A small concrete database on which the hypotheses of the properties are shown to hold:
  job 1 is running with one domain in flight, one queued and one that failed; job 2 of another
  owner waits with one queued domain.
\<close>

definition s_job :: "uuid \<Rightarrow> time \<Rightarrow> job_status \<Rightarrow> uuid option \<Rightarrow> job" where
  "s_job j t st ow = \<lparr>
     j_id = j, j_created_at = t, j_finished_at = None, j_status = st, j_total = 2,
     j_done_count = 0, j_failed_count = 0, j_webhook_url = Some ''https://hook.example/'',
     j_filename = None, j_columns = Some [''website''], j_website_column = None,
     j_pause_reason = None, j_paused_at = None, j_started_at = None, j_paused_seconds = 0,
     j_idempotency_key = None, j_idempotency_fingerprint = None, j_owner_id = ow,
     j_fresh = False\<rparr>"

definition s_result :: domain_result where
  "s_result = (DomainResult ''a.com'' Found)\<lparr>dr_best_email := Some ''info@a.com'', dr_jina_tokens := 900\<rparr>"

definition s_failure :: domain_result where
  "s_failure = (DomainResult ''c.com'' Fetch_Failed)\<lparr>dr_error_reason := Some ''dns''\<rparr>"

definition s_run :: job_domain where
  "s_run = take_row 5 ''w|1'' (new_job_domain 0 1 ''a.com'' 0)"

definition s_fail :: job_domain where
  "s_fail = finish_row 20 s_failure False (new_job_domain 0 1 ''c.com'' 2)"

definition s_claim :: claimed where
  "s_claim = \<lparr>c_job_id = 1, c_domain = ''a.com'', c_attempts = 1, c_token = ''w|1'', c_not_before = None\<rparr>"

definition s_db :: db where
  "s_db = \<lparr>
     jobs = [s_job 1 0 JRunning (Some 7), s_job 2 10 JQueued None],
     job_domains = [s_run, new_job_domain 0 1 ''b.com'' 1, s_fail, new_job_domain 10 2 ''a.com'' 0],
     job_items = [],
     domains = [take_lock 5 ''w|1'' (new_domain_row 0 ''a.com''), new_domain_row 0 ''b.com'',
                write_cache_row 20 s_failure (new_domain_row 0 ''c.com'')]\<rparr>"

text \<open>Job 1 alone, with its last domain in flight.\<close>

definition s_last :: db where
  "s_last = \<lparr>
     jobs = [s_job 1 0 JRunning (Some 7)], job_domains = [s_run, s_fail], job_items = [],
     domains = [take_lock 5 ''w|1'' (new_domain_row 0 ''a.com''),
                write_cache_row 20 s_failure (new_domain_row 0 ''c.com'')]\<rparr>"

lemmas sample_defs = s_job_def s_result_def s_failure_def s_run_def s_fail_def s_claim_def
  s_db_def s_last_def

lemma s_db_inv: "db_inv s_db"
  by code_simp

lemma s_last_inv: "db_inv s_last"
  by code_simp

end
