(* ===== verification/Queue_Props.thy ===== *)
theory Queue_Props
  imports Sample
begin

text \<open>
  What the queue of \<open>src/app/queue.py\<close> promises its callers: which row a claim takes, that a
  lost claim writes nothing, that a retried row does not read its own failure back, that a
  live claim keeps its row and its lock, and that a shutdown gives back the worker's rows and
  nobody else's.
\<close>

section \<open>Claiming\<close>

text \<open>The picked jobs are the first five of the eligible ones in the order of their shares.\<close>

lemma pick_jobs_position:
  assumes "pick_jobs d now = pre @ j # post"
  shows "\<exists>x \<in> set (jobs d). j_id x = j \<and> eligible d now x \<and>
    (\<forall>y \<in> set (jobs d). eligible d now y \<longrightarrow> j_id y \<in> set pre \<or> share_key d x \<le> share_key d y)"
proof -
  let ?xs = "sort_key (share_key d) (filter (eligible d now) (jobs d))"
  let ?n = "length pre"
  have split: "take 5 (map j_id ?xs) = pre @ j # post"
    using assms by (simp add: pick_jobs_def)
  have n: "?n < length (take 5 (map j_id ?xs))" by (simp add: split)
  then have nl: "?n < length ?xs" by simp
  have at: "map j_id ?xs ! i = (pre @ j # post) ! i" if "i \<le> ?n" for i
    using that n by (simp flip: split)
  have srt: "sorted (map (share_key d) ?xs)" by simp
  have "j_id y \<in> set pre \<or> share_key d (?xs ! ?n) \<le> share_key d y" if "y \<in> set ?xs" for y
  proof -
    from that obtain i where i: "i < length ?xs" "?xs ! i = y" unfolding in_set_conv_nth by blast
    show ?thesis
    proof (cases "i < ?n")
      case True
      with at [of i] i have "j_id y = pre ! i" by (simp add: nth_append)
      with True show ?thesis by simp
    next
      case False
      with srt i show ?thesis
        using sorted_nth_mono [OF srt, of ?n i] nl by simp
    qed
  qed
  moreover have "?xs ! ?n \<in> set (jobs d)" "eligible d now (?xs ! ?n)"
    using nth_mem [OF nl] by auto
  moreover have "j_id (?xs ! ?n) = j"
    using at [of ?n] nl by simp
  ultimately show ?thesis by auto
qed

lemma claim_SomeD:
  assumes "claim locked now w hex d = (d', Some c)"
  obtains pre post p where
    "pick_jobs d now = pre @ c_job_id c # post"
    "\<And>j. j \<in> set pre \<Longrightarrow> open_rows locked now j d = []"
    "order_first jd_seq (open_rows locked now (c_job_id c) d) = Some p"
    "jd_key p = (c_job_id c, c_domain c)" "c_attempts c = jd_attempts p + 1"
    "c_not_before c = jd_requeued_at p"
    "d' = mark_started now (c_job_id c) (d\<lparr>job_domains :=
       upd_where (\<lambda>r. jd_key r = (c_job_id c, c_domain c)) (take_row now (c_token c))
         (job_domains d)\<rparr>)"
proof -
  from assms have "claim_loop locked now w hex 0 (pick_jobs d now) d = (d', Some c)"
    by (simp add: claim_def)
  then show thesis
  proof (rule claim_loop_Some)
    fix pre post p k
    assume loop: "pick_jobs d now = pre @ c_job_id c # post"
      "\<And>j. j \<in> set pre \<Longrightarrow> open_rows locked now j d = []"
      "order_first jd_seq (open_rows locked now (c_job_id c) d) = Some p"
      "c_domain c = jd_domain p" "c_attempts c = jd_attempts p + 1"
      "c_not_before c = jd_requeued_at p"
      "d' = mark_started now (c_job_id c) (d\<lparr>job_domains :=
         upd_where (\<lambda>r. jd_key r = jd_key p) (take_row now (c_token c)) (job_domains d)\<rparr>)"
    have "jd_key p = (c_job_id c, c_domain c)"
      using order_first_Some(1) [OF loop(3)] loop(4)
      by (auto simp: open_rows_iff claimable_def jd_key_def)
    with loop show thesis by (intro that) auto
  qed
qed

text \<open>
  C1: A claim serves the fairest job and takes its next row. The job it returns is eligible,
  and no eligible job that still has a row nobody holds locked has a smaller share (owner's
  running domains, then the job's, then age). The row it takes is the one of that job with
  the smallest \<open>seq\<close> among the rows due and not locked; exactly that row turns running under
  the claim's token.
\<close>

theorem claim_fair:
  assumes "claim locked now w hex d = (d', Some c)"
  shows "(\<exists>x \<in> set (jobs d). j_id x = c_job_id c \<and> eligible d now x \<and>
      (\<forall>y \<in> set (jobs d). eligible d now y \<and> open_rows locked now (j_id y) d \<noteq> [] \<longrightarrow>
         share_key d x \<le> share_key d y)) \<and>
    (\<exists>p \<in> set (open_rows locked now (c_job_id c) d). jd_domain p = c_domain c \<and>
      (\<forall>q \<in> set (open_rows locked now (c_job_id c) d). jd_seq p \<le> jd_seq q)) \<and>
    job_domains d' = upd_where (\<lambda>r. jd_key r = (c_job_id c, c_domain c))
      (take_row now (c_token c)) (job_domains d)"
proof -
  from assms obtain pre post p where c: "pick_jobs d now = pre @ c_job_id c # post"
    "\<And>j. j \<in> set pre \<Longrightarrow> open_rows locked now j d = []"
    and p: "order_first jd_seq (open_rows locked now (c_job_id c) d) = Some p"
      "jd_key p = (c_job_id c, c_domain c)"
    and d': "d' = mark_started now (c_job_id c) (d\<lparr>job_domains :=
       upd_where (\<lambda>r. jd_key r = (c_job_id c, c_domain c)) (take_row now (c_token c))
         (job_domains d)\<rparr>)"
    by (rule claim_SomeD) blast
  from pick_jobs_position [OF c(1)] c(2)
  have "\<exists>x \<in> set (jobs d). j_id x = c_job_id c \<and> eligible d now x \<and>
      (\<forall>y \<in> set (jobs d). eligible d now y \<and> open_rows locked now (j_id y) d \<noteq> [] \<longrightarrow>
         share_key d x \<le> share_key d y)"
    by blast
  moreover have "jd_domain p = c_domain c" using p(2) by (simp add: jd_key_def)
  with order_first_Some [OF p(1)]
  have "\<exists>p \<in> set (open_rows locked now (c_job_id c) d). jd_domain p = c_domain c \<and>
      (\<forall>q \<in> set (open_rows locked now (c_job_id c) d). jd_seq p \<le> jd_seq q)"
    by blast
  ultimately show ?thesis using d' by (simp add: mark_started_def)
qed

theorem claim_fair_witness:
  "\<exists>d' c. claim (\<lambda>_. False) 100 ''w'' (\<lambda>_. ''h'') s_db = (d', Some c) \<and>
    c_job_id c = 2 \<and> c_token c = ''w|h'' \<and>
    job_domains d' = upd_where (\<lambda>r. jd_key r = (2, ''a.com'')) (take_row 100 ''w|h'') (job_domains s_db)"
proof -
  let ?c = "\<lparr>c_job_id = 2, c_domain = ''a.com'', c_attempts = 1, c_token = ''w|h'', c_not_before = None\<rparr>"
  have "snd (claim (\<lambda>_. False) 100 ''w'' (\<lambda>_. ''h'') s_db) = Some ?c" by code_simp
  then obtain d' where d': "claim (\<lambda>_. False) 100 ''w'' (\<lambda>_. ''h'') s_db = (d', Some ?c)"
    by (metis prod.collapse)
  with claim_fair [OF d'] show ?thesis by (intro exI [of _ d'] exI [of _ ?c]) simp
qed

lemma claim_None_iff:
  "snd (claim (\<lambda>_. False) now w hex d) = None \<longleftrightarrow> \<not> (\<exists>x \<in> set (jobs d). eligible d now x)"
proof -
  have rows: "open_rows (\<lambda>_. False) now (j_id x) d \<noteq> []" if "eligible d now x" for x
    using that by (auto simp: eligible_def open_rows_def filter_empty_conv)
  have mem: "j \<in> j_id ` {x \<in> set (jobs d). eligible d now x}" if "j \<in> set (pick_jobs d now)" for j
    using that by (auto simp: pick_jobs_def dest: in_set_takeD)
  have "pick_jobs d now = [] \<longleftrightarrow> \<not> (\<exists>x \<in> set (jobs d). eligible d now x)"
    by (simp add: pick_jobs_def filter_empty_conv)
  moreover have "snd (claim (\<lambda>_. False) now w hex d) = None \<longleftrightarrow> pick_jobs d now = []"
  proof
    assume "snd (claim (\<lambda>_. False) now w hex d) = None"
    then have "\<forall>j \<in> set (pick_jobs d now). open_rows (\<lambda>_. False) now j d = []"
      by (simp add: claim_def claim_loop_None)
    moreover have "open_rows (\<lambda>_. False) now j d \<noteq> []" if "j \<in> set (pick_jobs d now)" for j
      using mem [OF that] rows by auto
    ultimately have "\<not> (\<exists>j. j \<in> set (pick_jobs d now))" by blast
    then show "pick_jobs d now = []" by (cases "pick_jobs d now") auto
  qed (simp add: claim_def)
  ultimately show ?thesis by simp
qed

text \<open>
  An idle answer is honest. When no row is locked by another transaction, a claim comes
  back empty exactly when no job that is queued or running has a queued row whose time has
  come; an empty claim, whatever is locked, leaves the database as it was.
\<close>

theorem claim_idle:
  "(snd (claim (\<lambda>_. False) now w hex d) = None) = (\<not> (\<exists>x \<in> set (jobs d). eligible d now x)) \<and>
   (snd (claim locked now w hex d) = None \<longrightarrow> fst (claim locked now w hex d) = d)"
  by (simp only: claim_None_iff) (simp add: claim_def claim_loop_unchanged)

theorem claim_idle_witness:
  "snd (claim (\<lambda>_. True) 100 ''w'' (\<lambda>_. ''h'') s_db) = None \<and>
   fst (claim (\<lambda>_. True) 100 ''w'' (\<lambda>_. ''h'') s_db) = s_db"
proof -
  have "snd (claim (\<lambda>_. True) 100 ''w'' (\<lambda>_. ''h'') s_db) = None" by code_simp
  with claim_idle [of 100 "''w''" "\<lambda>_. ''h''" s_db "\<lambda>_. True"] show ?thesis by simp
qed

section \<open>Finishing\<close>

lemma finish_eq:
  "finish now c res fc wc d =
     (if \<exists>r \<in> set (job_domains d). owns_row c r
      then let d1 = d\<lparr>job_domains := upd_where (owns_row c) (finish_row now res fc) (job_domains d)\<rparr>;
               d2 = (if \<not> fc \<and> wc then write_cache_of now c res d1 else d1);
               e = complete_if_finished now (c_job_id c) (unlock_domain c d2)
           in (fst e, True, snd e)
      else (unlock_domain c d, False, False))"
  by (simp add: finish_def Let_def split_def)

lemma job_domains_simps [simp]:
  "job_domains (unlock_domain c d) = job_domains d"
  "job_domains (write_cache_of now c res d) = job_domains d"
  "job_domains (fst (complete_if_finished now j d)) = job_domains d"
  "job_domains (mark_started now j d) = job_domains d"
  "job_domains (fst (lock_domain now c d)) = job_domains d"
  "job_domains (pause_active_jobs now reason d) = job_domains d"
  "job_domains (fst (complete_finished_jobs now d)) = job_domains d"
  by (simp_all add: unlock_domain_def write_cache_of_def complete_if_finished_def mark_started_def
      lock_domain_def pause_active_jobs_def complete_finished_jobs_def Let_def)

lemma jobs_simps [simp]:
  "jobs (unlock_domain c d) = jobs d"
  "jobs (write_cache_of now c res d) = jobs d"
  "jobs (requeue now c delay ca d) = jobs d"
  "jobs (fst (lock_domain now c d)) = jobs d"
  "jobs (heartbeat now tokens d) = jobs d"
  "jobs (fst (reap now d)) = jobs d"
  "jobs (release_worker now w d) = jobs d"
  by (simp_all add: unlock_domain_def write_cache_of_def requeue_def lock_domain_def
      heartbeat_def reap_def release_worker_def Let_def)

text \<open>The row a claim owns is unique, and finishing it leaves nothing to finish again.\<close>

lemma finish_rows:
  "job_domains (fst (finish now c res fc wc d)) =
     upd_where (owns_row c) (finish_row now res fc) (job_domains d)"
  by (auto simp: finish_eq Let_def upd_where_none)

lemma not_owned_finish: "\<not> owns_row c (finish_row now res fc r)"
  by (simp add: owns_row_def finish_row_def)

lemma not_owned_after:
  "\<not> (\<exists>r \<in> set (upd_where (owns_row c) (finish_row now res fc) rs). owns_row c r)"
  by (auto simp: bex_upd_where not_owned_finish)

lemma recorded_iff: "fst (snd (finish now c res fc wc d)) \<longleftrightarrow> (\<exists>r \<in> set (job_domains d). owns_row c r)"
  by (simp add: finish_eq Let_def)

text \<open>
  C2: A result is recorded exactly when the claim still owns its row, and at most once. A
  recorded result is the one stored on the row, with the tokens counted only for a real
  fetch. A claim that lost its row (reaped, or finished before) changes no queue row, no job,
  and of the shared cache only the lock it holds itself. A second \<open>finish\<close> under the same
  claim is not recorded.
\<close>

theorem finish_once:
  "(fst (snd (finish now c res fc wc d)) \<longleftrightarrow> (\<exists>r \<in> set (job_domains d). owns_row c r)) \<and>
   (fst (snd (finish now c res fc wc d)) \<longrightarrow>
      (\<exists>r \<in> set (job_domains (fst (finish now c res fc wc d))).
         jd_key r = (c_job_id c, c_domain c) \<and> jd_state r = Done \<and> jd_result r = Some (Doc res) \<and>
         jd_jina_tokens r = (if fc then 0 else dr_jina_tokens res))) \<and>
   (\<not> fst (snd (finish now c res fc wc d)) \<longrightarrow>
      finish now c res fc wc d = (unlock_domain c d, False, False)) \<and>
   \<not> fst (snd (finish now' c res' fc' wc' (fst (finish now c res fc wc d))))"
proof -
  have "\<exists>r \<in> set (upd_where (owns_row c) (finish_row now res fc) (job_domains d)).
      jd_key r = (c_job_id c, c_domain c) \<and> jd_state r = Done \<and> jd_result r = Some (Doc res) \<and>
      jd_jina_tokens r = (if fc then 0 else dr_jina_tokens res)"
    if "r \<in> set (job_domains d)" "owns_row c r" for r
    using that by (auto simp: bex_upd_where finish_row_def owns_row_def jd_key_def intro!: bexI [of _ r])
  then show ?thesis
    by (auto simp: recorded_iff finish_rows not_owned_after simp del: if_split)
      (auto simp: finish_eq)
qed

theorem finish_once_witness:
  "fst (snd (finish 30 s_claim s_result False True s_db)) \<and>
   (\<exists>r \<in> set (job_domains (fst (finish 30 s_claim s_result False True s_db))).
      jd_key r = (1, ''a.com'') \<and> jd_jina_tokens r = 900) \<and>
   \<not> fst (snd (finish 31 s_claim s_result False True
        (fst (finish 30 s_claim s_result False True s_db))))"
proof -
  have "fst (snd (finish 30 s_claim s_result False True s_db))" by code_simp
  with finish_once [of 30 s_claim s_result False True s_db 31 s_result False True]
  show ?thesis by (auto simp: sample_defs)
qed

lemma unfinished_after_finish:
  "(\<exists>q \<in> set (upd_where (owns_row c) (finish_row now res fc) rs). unfinished j q) \<longleftrightarrow>
     (\<exists>q \<in> set rs. unfinished j q \<and> \<not> owns_row c q)"
  by (auto simp: bex_upd_where unfinished_iff finish_row_def)

lemma owns_row_key: "owns_row c r \<Longrightarrow> jd_key r = (c_job_id c, c_domain c)"
  by (simp add: owns_row_def jd_key_def)

lemma owns_row_unique:
  "\<lbrakk> db_inv d; r \<in> set (job_domains d); q \<in> set (job_domains d); owns_row c r; owns_row c q \<rbrakk>
     \<Longrightarrow> q = r"
  by (auto simp: inv_defs owns_row_key intro: distinct_key_eq)

lemma length_job_rows:
  assumes "map jd_key (job_domains e) = map jd_key (job_domains d)"
  shows "length (job_rows j e) = length (job_rows j d)"
proof -
  have "length (job_rows j f) = length (filter (\<lambda>k. fst k = j) (map jd_key (job_domains f)))" for f
    by (simp add: job_rows_def jd_key_def filter_map o_def)
  then show ?thesis by (simp only: assms)
qed

text \<open>What the transaction of a claim that owns its row does to the jobs.\<close>

lemma finish_jobs:
  assumes "\<exists>r \<in> set (job_domains d). owns_row c r"
  obtains e where "finish now c res fc wc d = (fst (complete_if_finished now (c_job_id c) e), True,
      snd (complete_if_finished now (c_job_id c) e))"
    and "job_domains e = upd_where (owns_row c) (finish_row now res fc) (job_domains d)"
    and "jobs e = jobs d"
proof
  let ?d1 = "d\<lparr>job_domains := upd_where (owns_row c) (finish_row now res fc) (job_domains d)\<rparr>"
  let ?e = "unlock_domain c (if \<not> fc \<and> wc then write_cache_of now c res ?d1 else ?d1)"
  show "finish now c res fc wc d = (fst (complete_if_finished now (c_job_id c) ?e), True,
      snd (complete_if_finished now (c_job_id c) ?e))"
    using assms by (simp add: finish_eq Let_def)
qed simp_all

text \<open>
  C24: The last finisher completes the job. When a claim records the last unfinished row of a
  queued or running job, \<open>finish\<close> reports \<open>job_done\<close> and the job is done with as many domains
  counted as it has rows; while another row is unfinished it reports nothing and leaves the
  jobs alone.
\<close>

theorem finish_completes_job:
  assumes inv: "db_inv d" and own: "r \<in> set (job_domains d)" "owns_row c r"
    and job: "x \<in> set (jobs d)" "j_id x = c_job_id c" "j_status x \<in> {JQueued, JRunning}"
  shows "(snd (snd (finish now c res fc wc d)) \<longleftrightarrow>
      (\<forall>q \<in> set (job_domains d). unfinished (c_job_id c) q \<longrightarrow> q = r)) \<and>
    (snd (snd (finish now c res fc wc d)) \<longrightarrow>
      (\<exists>y \<in> set (jobs (fst (finish now c res fc wc d))). j_id y = c_job_id c \<and>
         j_status y = JDone \<and> j_finished_at y = Some now \<and>
         j_done_count y = length (job_rows (c_job_id c) d))) \<and>
    (\<not> snd (snd (finish now c res fc wc d)) \<longrightarrow> jobs (fst (finish now c res fc wc d)) = jobs d)"
proof -
  from own have "\<exists>r \<in> set (job_domains d). owns_row c r" by blast
  then obtain e where fin: "finish now c res fc wc d =
      (fst (complete_if_finished now (c_job_id c) e), True,
       snd (complete_if_finished now (c_job_id c) e))"
    and rows: "job_domains e = upd_where (owns_row c) (finish_row now res fc) (job_domains d)"
    and js: "jobs e = jobs d"
    by (rule finish_jobs)
  have len: "length (job_rows (c_job_id c) e) = length (job_rows (c_job_id c) d)"
    by (rule length_job_rows) (simp add: rows finish_st.keys)
  have "owns_row c q \<longleftrightarrow> q = r" if "q \<in> set (job_domains d)" for q
    using owns_row_unique [OF inv] own that by blast
  then have comp: "completes e x \<longleftrightarrow>
      (\<forall>q \<in> set (job_domains d). unfinished (c_job_id c) q \<longrightarrow> q = r)"
    using job by (auto simp: completes_def rows unfinished_after_finish)
  have "y = x" if "y \<in> set (jobs d)" "j_id y = c_job_id c" for y
    using inv job that by (auto simp: inv_defs intro: distinct_key_eq)
  then have "(\<exists>y \<in> set (jobs d). j_id y = c_job_id c \<and> completes e y) = completes e x"
    using job(1,2) by blast
  then have fin_dn: "snd (complete_if_finished now (c_job_id c) e) = completes e x"
    by (simp add: complete_if_finished_def Let_def js)
  have "\<exists>y \<in> set (jobs (fst (complete_if_finished now (c_job_id c) e))). j_id y = c_job_id c \<and>
      j_status y = JDone \<and> j_finished_at y = Some now \<and> j_done_count y = length (job_rows (c_job_id c) d)"
    if "completes e x"
    using that job len
    by (auto simp: complete_if_finished_def Let_def js bex_upd_where complete_job_def intro!: bexI [of _ x])
  moreover have "jobs (fst (complete_if_finished now (c_job_id c) e)) = jobs d" if "\<not> completes e x"
    using that fin_dn by (auto simp: complete_if_finished_def Let_def js intro!: upd_where_none)
  ultimately show ?thesis using fin fin_dn comp by simp
qed

theorem finish_completes_job_witness:
  "snd (snd (finish 30 s_claim s_result False True s_last)) \<and>
   (\<exists>y \<in> set (jobs (fst (finish 30 s_claim s_result False True s_last))).
      j_id y = 1 \<and> j_status y = JDone \<and> j_done_count y = 2)"
proof -
  have "s_run \<in> set (job_domains s_last)" "owns_row s_claim s_run"
    "s_job 1 0 JRunning (Some 7) \<in> set (jobs s_last)"
    "j_id (s_job 1 0 JRunning (Some 7)) = c_job_id s_claim"
    "j_status (s_job 1 0 JRunning (Some 7)) \<in> {JQueued, JRunning}"
    by code_simp+
  note fc = finish_completes_job [OF s_last_inv this, of 30 s_result False True]
  have "snd (snd (finish 30 s_claim s_result False True s_last))" by code_simp
  moreover have "length (job_rows (c_job_id s_claim) s_last) = 2" "c_job_id s_claim = 1" by code_simp+
  ultimately show ?thesis using fc by auto
qed

section \<open>Retrying\<close>

lemma retried_row:
  assumes "r \<in> set (job_domains (fst (requeue_failed t j d)))"
    and "jd_key r \<in> jd_key ` set (filter (retryable_row j) (job_domains d))"
    and "distinct (map jd_key (job_domains d))"
  shows "jd_requeued_at r = Some t"
proof -
  from assms(1) obtain q where q: "q \<in> set (job_domains d)"
      "r = (if retryable_row j q then retry_row t q else q)"
    by (auto simp: requeue_failed_def Let_def set_upd_where split: if_splits)
  then have "jd_key r = jd_key q" by (simp add: retry_st.row_key)
  with assms(2,3) q(1) have "retryable_row j q" by (auto dest: distinct_key_eq)
  with q show ?thesis by (simp add: retry_row_def)
qed

text \<open>
  A retried row never gets its own failure back from the cache. A row that
  \<open>requeue_failed\<close> sent back at time \<open>t\<close> is claimed with \<open>not_before = t\<close>, so whatever the
  cache then answers the worker for that row was finished at \<open>t\<close> or later, or is not a
  \<open>fetch_failed\<close>.
\<close>

theorem retry_ignores_old_failure:
  assumes "distinct (map jd_key (job_domains d))"
    and "claim locked now w hex (fst (requeue_failed t j d)) = (d', Some c)"
    and "(c_job_id c, c_domain c) \<in> jd_key ` set (filter (retryable_row j) (job_domains d))"
    and "cached_result cfg clock x (c_domain c) (c_not_before c) e = Some res"
    and "find (\<lambda>y. d_domain y = c_domain c) (domains e) = Some y" and "d_finished_at y = Some f"
  shows "c_not_before c = Some t \<and> (t \<le> f \<or> d_status y \<noteq> Some Fetch_Failed)"
proof -
  from assms(2) obtain p where p:
    "order_first jd_seq (open_rows locked now (c_job_id c) (fst (requeue_failed t j d))) = Some p"
    "jd_key p = (c_job_id c, c_domain c)" "c_not_before c = jd_requeued_at p"
    by (rule claim_SomeD) blast
  then have "p \<in> set (job_domains (fst (requeue_failed t j d)))"
    using order_first_Some(1) [OF p(1)] by (simp add: open_rows_iff)
  with retried_row assms(1,3) p(2) have "jd_requeued_at p = Some t" by metis
  with p(3) assms(4,5,6) show ?thesis
    by (auto simp: cached_result_def cache_usable_def Let_def split: option.splits if_splits)
qed

theorem retry_ignores_old_failure_witness:
  "\<exists>d' c. claim (\<lambda>k. k \<noteq> (1, ''c.com'')) 50 ''w'' (\<lambda>_. ''h'') (fst (requeue_failed 40 1 s_last)) =
      (d', Some c) \<and> c_domain c = ''c.com'' \<and> c_not_before c = Some 40"
proof -
  let ?l = "\<lambda>k. k \<noteq> (1, ''c.com'')"
  let ?c = "\<lparr>c_job_id = 1, c_domain = ''c.com'', c_attempts = 1, c_token = ''w|h'', c_not_before = Some 40\<rparr>"
  let ?y = "write_cache_row 45 s_result (new_domain_row 0 ''c.com'')"
  let ?e = "s_last\<lparr>domains := [?y]\<rparr>"
  have "snd (claim ?l 50 ''w'' (\<lambda>_. ''h'') (fst (requeue_failed 40 1 s_last))) = Some ?c"
    by code_simp
  then obtain d' where d': "claim ?l 50 ''w'' (\<lambda>_. ''h'') (fst (requeue_failed 40 1 s_last)) = (d', Some ?c)"
    by (metis prod.collapse)
  have "distinct (map jd_key (job_domains s_last))"
    "(c_job_id ?c, c_domain ?c) \<in> jd_key ` set (filter (retryable_row 1) (job_domains s_last))"
    "cached_result settings_default 60 (s_job 1 0 JRunning (Some 7)) (c_domain ?c) (c_not_before ?c) ?e = Some s_result"
    "find (\<lambda>y. d_domain y = c_domain ?c) (domains ?e) = Some ?y" "d_finished_at ?y = Some 45"
    by code_simp+
  from retry_ignores_old_failure [OF this(1) d' this(2-5)] d' show ?thesis by auto
qed

section \<open>Leases\<close>

text \<open>
  C27: A claim that keeps beating keeps its row and its lock. If its token is in a heartbeat
  at \<open>t\<close>, then up to \<open>LEASE_S\<close> later a pass of the reaper leaves its row running under its
  token, so that its result will be recorded, and no other claim can lock a domain it holds.
\<close>

theorem lease_protects:
  assumes "r \<in> set (job_domains d)" and "owns_row c r" and "c_token c \<in> set tokens"
    and "now \<le> t + LEASE_S"
    and "y \<in> set (domains d)" "d_domain y = c_domain c'" "d_lock_owner y = Some (c_token c)"
    and "distinct (map d_domain (domains d))"
  shows "fst (snd (finish now' c res fc wc (fst (reap now (heartbeat t tokens d))))) \<and>
    \<not> snd (lock_domain now c' (fst (reap now (heartbeat t tokens d))))"
proof
  let ?b = "r\<lparr>jd_heartbeat_at := Some t\<rparr>"
  have "?b \<in> set (job_domains (heartbeat t tokens d))"
    using assms(1,2,3) by (auto simp: heartbeat_def set_upd_where held_by_def owns_row_def
        intro!: image_eqI [of _ _ r])
  moreover have "\<not> stale now ?b" using assms(4) by (simp add: stale_def LEASE_S_def)
  ultimately have "?b \<in> set (job_domains (fst (reap now (heartbeat t tokens d))))"
    by (auto simp: reap_def set_upd_where intro!: image_eqI [of _ _ ?b])
  moreover have "owns_row c ?b" using assms(2) by (simp add: owns_row_def)
  ultimately show "fst (snd (finish now' c res fc wc (fst (reap now (heartbeat t tokens d)))))"
    by (auto simp: recorded_iff)
  let ?ds = "upd_where (\<lambda>x. held_by tokens (d_lock_owner x))
    (\<lambda>x. x\<lparr>d_lock_until := Some (t + LEASE_S)\<rparr>) (domains d)"
  have ds: "domains (fst (reap now (heartbeat t tokens d))) = ?ds"
    using assms(3) by (auto simp: reap_def heartbeat_def)
  have "insert_domain now (c_domain c') ?ds = ?ds"
    using assms(5,6) by (auto simp: insert_domain_def bex_upd_where intro!: bexI [of _ y])
  moreover have "x = y" if "x \<in> set (domains d)" "d_domain x = c_domain c'" for x
    using that assms(5,6,8) by (auto intro: distinct_key_eq)
  ultimately show "\<not> snd (lock_domain now c' (fst (reap now (heartbeat t tokens d))))"
    using assms(3,4,7)
    by (auto simp: lock_domain_def Let_def ds bex_upd_where lock_free_def held_by_def)
qed

theorem lease_protects_witness:
  "fst (snd (finish 90 s_claim s_result False True (fst (reap 85 (heartbeat 10 [''w|1''] s_db))))) \<and>
   \<not> snd (lock_domain 85 (s_claim\<lparr>c_job_id := 2, c_token := ''v|2''\<rparr>)
       (fst (reap 85 (heartbeat 10 [''w|1''] s_db))))"
proof -
  have "s_run \<in> set (job_domains s_db)" "owns_row s_claim s_run" "c_token s_claim \<in> set [''w|1'']"
    "(85::rat) \<le> 10 + LEASE_S"
    "take_lock 5 ''w|1'' (new_domain_row 0 ''a.com'') \<in> set (domains s_db)"
    "d_domain (take_lock 5 ''w|1'' (new_domain_row 0 ''a.com'')) =
       c_domain (s_claim\<lparr>c_job_id := 2, c_token := ''v|2''\<rparr>)"
    "d_lock_owner (take_lock 5 ''w|1'' (new_domain_row 0 ''a.com'')) = Some (c_token s_claim)"
    "distinct (map d_domain (domains s_db))"
    by code_simp+
  from lease_protects [OF this] show ?thesis by simp
qed

text \<open>
  A crashed worker's row is served again. A row of a queued or running job whose last
  heartbeat is more than \<open>LEASE_S\<close> old is handed back by the reaper, due at once and without
  an owner, and from then on a claim finds work.
\<close>

theorem reaped_row_is_served:
  assumes "r \<in> set (job_domains d)" and "jd_state r = Running"
    and "jd_heartbeat_at r = Some h" and "h + LEASE_S < now"
    and "x \<in> set (jobs d)" and "j_id x = jd_job_id r" and "j_status x \<in> {JQueued, JRunning}"
  shows "(\<exists>q \<in> set (job_domains (fst (reap now d))). jd_key q = jd_key r \<and>
      claimable now (j_id x) q \<and> jd_claimed_by q = None \<and> jd_attempts q = jd_attempts r) \<and>
    snd (claim (\<lambda>_. False) now w hex (fst (reap now d))) \<noteq> None"
proof -
  have "stale now r" using assms(2-4) by (simp add: stale_def LEASE_S_def)
  with assms(1,6) have row: "\<exists>q \<in> set (job_domains (fst (reap now d))). jd_key q = jd_key r \<and>
      claimable now (j_id x) q \<and> jd_claimed_by q = None \<and> jd_attempts q = jd_attempts r"
    by (auto simp: reap_def bex_upd_where reap_row_def claimable_def jd_key_def intro!: bexI [of _ r])
  with assms(7) have "eligible (fst (reap now d)) now x" by (auto simp: eligible_def)
  with assms(5) row show ?thesis by (auto simp: claim_None_iff)
qed

theorem reaped_row_is_served_witness:
  "snd (claim (\<lambda>_. False) 100 ''v'' (\<lambda>_. ''h'') (fst (reap 100 s_last))) \<noteq> None"
proof -
  have "s_run \<in> set (job_domains s_last)" "jd_state s_run = Running" "jd_heartbeat_at s_run = Some 5"
    "5 + LEASE_S < 100" "s_job 1 0 JRunning (Some 7) \<in> set (jobs s_last)"
    "j_id (s_job 1 0 JRunning (Some 7)) = jd_job_id s_run"
    "j_status (s_job 1 0 JRunning (Some 7)) \<in> {JQueued, JRunning}"
    by code_simp+
  from reaped_row_is_served [OF this, of "''v''" "\<lambda>_. ''h''"] show ?thesis by simp
qed

section \<open>Shutdown\<close>

definition plain_id :: "string \<Rightarrow> bool" where
  "plain_id w \<longleftrightarrow> CHR ''%'' \<notin> set w \<and> CHR ''_'' \<notin> set w \<and> CHR 0x5C \<notin> set w \<and> CHR ''|'' \<notin> set w"

lemma like_percent: "like ''%'' t"
  by (induction t) auto

lemma like_plain_prefix:
  assumes "CHR ''%'' \<notin> set p" "CHR ''_'' \<notin> set p" "CHR 0x5C \<notin> set p"
  shows "like (p @ ''%'') t \<longleftrightarrow> (\<exists>u. t = p @ u)"
  using assms
proof (induction p arbitrary: t)
  case Nil
  then show ?case using like_percent [of t] by simp
next
  case (Cons a p)
  then show ?case by (cases t) auto
qed

lemma like_token:
  assumes "plain_id w"
  shows "like (w @ ''|%'') t \<longleftrightarrow> (\<exists>h. t = new_token w h)"
  using like_plain_prefix [of "w @ ''|''" t] assms by (simp add: plain_id_def new_token_def)

lemma token_worker_eq:
  assumes "plain_id w" "plain_id w'" "new_token w h = new_token w' h'"
  shows "w = w'"
proof -
  have part: "takeWhile (\<lambda>c. c \<noteq> CHR ''|'') (new_token v g) = v" if "plain_id v" for v g
    using that unfolding plain_id_def new_token_def by (induction v) auto
  from part [OF assms(1), of h] part [OF assms(2), of h'] assms(3) show ?thesis by simp
qed

text \<open>
  A shutdown gives back this worker's rows and locks, and nobody else's. For worker ids
  without wildcard characters, a running row is released exactly when its token is one of the
  worker's own; rows and locks held under another worker's token are left alone.
\<close>

theorem release_worker_exact:
  assumes "plain_id w"
  shows "job_domains (release_worker now w d) =
      upd_where (\<lambda>r. jd_state r = Running \<and> (\<exists>h. jd_claimed_by r = Some (new_token w h)))
        (release_row now) (job_domains d) \<and>
    (\<forall>w' h. plain_id w' \<longrightarrow> w' \<noteq> w \<longrightarrow>
      (\<forall>r \<in> set (job_domains d). jd_claimed_by r = Some (new_token w' h) \<longrightarrow>
         r \<in> set (job_domains (release_worker now w d))) \<and>
      (\<forall>y \<in> set (domains d). d_lock_owner y = Some (new_token w' h) \<longrightarrow>
         y \<in> set (domains (release_worker now w d)))) \<and>
    (\<forall>y \<in> set (domains (release_worker now w d)). \<forall>h. d_lock_owner y \<noteq> Some (new_token w h))"
proof -
  have tok: "claimed_like (w @ ''|%'') ow \<longleftrightarrow> (\<exists>h. ow = Some (new_token w h))" for ow
    using assms by (cases ow) (simp_all add: claimed_like_def like_token)
  have other: "\<not> claimed_like (w @ ''|%'') (Some (new_token w' h))"
    if "plain_id w'" "w' \<noteq> w" for w' h
    using that token_worker_eq [OF that(1) assms] by (auto simp: tok)
  show ?thesis
  proof (intro conjI allI impI ballI)
    show "job_domains (release_worker now w d) =
      upd_where (\<lambda>r. jd_state r = Running \<and> (\<exists>h. jd_claimed_by r = Some (new_token w h)))
        (release_row now) (job_domains d)"
      by (simp add: release_worker_def Let_def tok)
  next
    fix y h
    assume "y \<in> set (domains (release_worker now w d))"
    then show "d_lock_owner y \<noteq> Some (new_token w h)"
      by (auto simp: release_worker_def Let_def tok set_upd_where drop_lock_def split: if_splits)
  qed (use other in \<open>auto simp: release_worker_def Let_def intro: keep_upd_where\<close>)
qed

theorem release_worker_exact_witness:
  "plain_id ''w'' \<and> s_run \<in> set (job_domains (release_worker 50 ''v'' s_db))"
proof -
  have p: "plain_id ''v''" "plain_id ''w''" "s_run \<in> set (job_domains s_db)"
    "jd_claimed_by s_run = Some (new_token ''w'' ''1'')"
    by code_simp+
  with release_worker_exact [OF p(1), of 50 s_db] show ?thesis by fastforce
qed

end
