(* ===== verification/Job_Store.thy ===== *)
theory Job_Store
  imports Queue_Inv
begin

text \<open>
  The persistence half of \<open>src/app/jobs.py\<close>: creating a job with its rows and queue entries,
  the counters of a job, and the streaming of its rows through the bounded cache of parsed
  results. The uuid of a new job and the two clocks (the transaction's \<open>now\<close> and Python's
  \<open>clock\<close>) are arguments.
\<close>

section \<open>Prepared rows\<close>

record prepared_item =
  pi_row_index :: nat
  pi_input_value :: string
  pi_domain :: "string option"
  pi_status :: "status option"
  pi_reason :: "string option"
  pi_domain_source :: string
  pi_raw_row :: "(string \<times> string) list"

fun unique_domains_from :: "string set \<Rightarrow> prepared_item list \<Rightarrow> string list" where
  "unique_domains_from seen [] = []"
| "unique_domains_from seen (it # its) =
     (case pi_domain it of
        None \<Rightarrow> unique_domains_from seen its
      | Some dm \<Rightarrow>
          if dm \<noteq> [] \<and> dm \<notin> seen then dm # unique_domains_from (insert dm seen) its
          else unique_domains_from seen its)"

definition unique_domains :: "prepared_item list \<Rightarrow> string list" where
  "unique_domains its = unique_domains_from {} its"

definition cache_cutoff :: "settings \<Rightarrow> time \<Rightarrow> time" where
  "cache_cutoff cfg clock = clock - of_int (cache_days cfg) * 86400"

text \<open>\<open>for i in range(0, len(seq), n): yield seq[i:i + n]\<close>\<close>

definition chunks :: "'a list \<Rightarrow> nat \<Rightarrow> 'a list list" where
  "chunks xs n = map (\<lambda>k. take n (drop (k * n) xs)) [0..<(length xs + n - 1) div n]"

section \<open>Creating a job\<close>

definition new_item :: "uuid \<Rightarrow> prepared_item \<Rightarrow> job_item" where
  "new_item j it = \<lparr>ji_job_id = j, ji_row_index = pi_row_index it,
     ji_input_value = pi_input_value it, ji_domain = pi_domain it, ji_status = pi_status it,
     ji_reason = pi_reason it, ji_domain_source = Some (pi_domain_source it),
     ji_raw_row = pi_raw_row it\<rparr>"

definition insert_items :: "uuid \<Rightarrow> prepared_item list list \<Rightarrow> job_item list \<Rightarrow> job_item list" where
  "insert_items j chs its = fold (\<lambda>ch acc. acc @ map (new_item j) ch) chs its"

definition insert_domains :: "time \<Rightarrow> string list list \<Rightarrow> domain_row list \<Rightarrow> domain_row list" where
  "insert_domains now chs ds = fold (\<lambda>ch acc. fold (insert_domain now) ch acc) chs ds"

fun insert_queue_rows ::
  "time \<Rightarrow> uuid \<Rightarrow> nat \<Rightarrow> string list list \<Rightarrow> job_domain list \<Rightarrow> job_domain list" where
  "insert_queue_rows now j sq [] rs = rs"
| "insert_queue_rows now j sq (ch # chs) rs =
     insert_queue_rows now j (sq + length ch) chs
       (rs @ map (\<lambda>(i, dm). new_job_domain now j dm (sq + i)) (enumerate 0 ch))"

definition cached_domains :: "time \<Rightarrow> string list \<Rightarrow> db \<Rightarrow> string list" where
  "cached_domains cutoff dms d =
     map d_domain (filter (\<lambda>x. d_domain x \<in> set dms \<and>
       (case d_finished_at x of None \<Rightarrow> False | Some f \<Rightarrow> f \<ge> cutoff) \<and>
       (case d_status x of None \<Rightarrow> False | Some st \<Rightarrow> st \<noteq> Fetch_Failed)) (domains d))"

record job_request =
  rq_source_columns :: "string list"
  rq_filename :: "string option"
  rq_website_column :: "string option"
  rq_webhook_url :: "string option"
  rq_fresh :: bool
  rq_owner_id :: "uuid option"
  rq_idempotency_key :: "string option"
  rq_idempotency_fingerprint :: "string option"

definition new_job :: "time \<Rightarrow> uuid \<Rightarrow> nat \<Rightarrow> job_request \<Rightarrow> job" where
  "new_job now j n rq = \<lparr>
     j_id = j, j_created_at = now, j_finished_at = None, j_status = JQueued, j_total = n,
     j_done_count = 0, j_failed_count = 0, j_webhook_url = rq_webhook_url rq,
     j_filename = rq_filename rq, j_columns = Some (rq_source_columns rq),
     j_website_column = rq_website_column rq, j_pause_reason = None, j_paused_at = None,
     j_started_at = None, j_paused_seconds = 0,
     j_idempotency_key = rq_idempotency_key rq,
     j_idempotency_fingerprint = rq_idempotency_fingerprint rq,
     j_owner_id = rq_owner_id rq, j_fresh = rq_fresh rq\<rparr>"

definition create_job ::
  "settings \<Rightarrow> time \<Rightarrow> time \<Rightarrow> uuid \<Rightarrow> prepared_item list \<Rightarrow> job_request \<Rightarrow> db \<Rightarrow>
     db \<times> job \<times> string list \<times> string list" where
  "create_job cfg now clock j its rq d =
     (let jb = new_job now j (length its) rq;
          d1 = d\<lparr>job_items := insert_items j (chunks its 2000) (job_items d)\<rparr>;
          dms = unique_domains its;
          cached = (if dms \<noteq> [] \<and> \<not> rq_fresh rq
                    then cached_domains (cache_cutoff cfg clock) dms d1 else []);
          (d2, jb') =
            (if dms \<noteq> []
             then (d1\<lparr>domains := insert_domains now (chunks dms 1000) (domains d1),
                     job_domains :=
                       insert_queue_rows now j 0 (chunks dms 1000) (job_domains d1)\<rparr>, jb)
             else (d1, jb\<lparr>j_status := JDone, j_finished_at := Some clock\<rparr>))
      in (d2\<lparr>jobs := jobs d2 @ [jb']\<rparr>, jb',
          filter (\<lambda>x. x \<notin> set cached) dms, cached))"

section \<open>Counters\<close>

record job_tally =
  n_total :: nat
  n_invalid_rows :: nat
  n_empty_rows :: nat
  n_by_status :: "(status \<times> nat) list"
  n_needs_review :: nat
  n_typesafe_calls :: nat
  n_tokens_per_domain :: int
  n_phones :: nat
  n_contact_forms :: nat
  n_linkedin :: nat
  n_unique_domains :: nat
  n_done :: nat
  n_running :: nat
  n_retrying :: nat
  n_failed :: nat
  n_found :: nat
  n_cached :: nat
  n_jina_tokens :: int
  n_hit_rate_so_far :: rat

text \<open>Python's \<open>round\<close> to an integer: to the nearest, a half to the even neighbour.\<close>

definition py_round :: "rat \<Rightarrow> int" where
  "py_round x =
     (let f = \<lfloor>x\<rfloor>; r = x - of_int f
      in if r < 1 / 2 then f else if r > 1 / 2 then f + 1
         else if even f then f else f + 1)"

definition job_counts :: "uuid \<Rightarrow> db \<Rightarrow> job_tally" where
  "job_counts j d =
     (let its = filter (\<lambda>it. ji_job_id it = j) (job_items d);
          rs = job_rows j d;
          done = count_where (\<lambda>r. jd_state r = Done) rs;
          found = count_where (\<lambda>r. jd_state r = Done \<and> jd_status r = Some Found) rs;
          fetched = count_where (\<lambda>r. jd_state r = Done \<and> \<not> jd_from_cache r \<and> jd_jina_tokens r > 0) rs;
          tokens = (\<Sum>r\<leftarrow>rs. jd_jina_tokens r);
          sts = List.map_filter (\<lambda>r. if jd_state r = Done then jd_status r else None) rs
      in \<lparr>n_total = length its,
          n_invalid_rows = count_where (\<lambda>it. ji_status it = Some Invalid_Input) its,
          n_empty_rows = count_where (\<lambda>it. ji_reason it = Some ''empty'') its,
          n_by_status = map (\<lambda>st. (st, count_list sts st)) (remdups sts),
          n_needs_review = count_where jd_needs_review rs,
          n_typesafe_calls = count_where jd_typesafe_called rs,
          n_tokens_per_domain =
            (if fetched > 0 then py_round (of_int tokens / of_nat fetched) else 0),
          n_phones = count_where jd_has_phone rs,
          n_contact_forms = count_where jd_has_form rs,
          n_linkedin = count_where jd_has_linkedin rs,
          n_unique_domains = length rs,
          n_done = done,
          n_running = count_where (\<lambda>r. jd_state r = Running) rs,
          n_retrying = count_where (\<lambda>r. jd_state r = Queued \<and> jd_attempts r > 0) rs,
          n_failed = count_where (\<lambda>r. jd_state r = Done \<and> jd_status r = Some Fetch_Failed) rs,
          n_found = found,
          n_cached = count_where jd_from_cache rs,
          n_jina_tokens = tokens,
          n_hit_rate_so_far = (if done > 0 then of_nat found / of_nat done else 0)\<rparr>)"

section \<open>Streaming the rows of a job\<close>

definition PARSED_CACHE :: nat where "PARSED_CACHE = 2000"

type_synonym parsed_cache = "(string \<times> domain_result option) list"

type_synonym stream_row =
  "(string \<times> string) list \<times> domain_result option \<times> string option \<times> bool"

text \<open>The outer join of an item with its queue row.\<close>

definition joined_row :: "db \<Rightarrow> job_item \<Rightarrow> job_domain option" where
  "joined_row d it =
     (case ji_domain it of
        None \<Rightarrow> None
      | Some dm \<Rightarrow> find (\<lambda>r. jd_key r = (ji_job_id it, dm)) (job_domains d))"

text \<open>\<open>move_to_end\<close>, and an insertion that evicts the oldest entry over the bound.\<close>

definition cache_touch :: "string \<Rightarrow> parsed_cache \<Rightarrow> parsed_cache" where
  "cache_touch dm pc =
     (case map_of pc dm of
        None \<Rightarrow> pc | Some v \<Rightarrow> filter (\<lambda>e. fst e \<noteq> dm) pc @ [(dm, v)])"

definition cache_insert :: "string \<Rightarrow> domain_result option \<Rightarrow> parsed_cache \<Rightarrow> parsed_cache" where
  "cache_insert dm v pc =
     (let pc' = pc @ [(dm, v)] in if length pc' > PARSED_CACHE then tl pc' else pc')"

definition invalid_result :: "job_item \<Rightarrow> domain_result" where
  "invalid_result it =
     (DomainResult (or_empty (str_or (ji_domain it)
        (str_or (Some (take 255 (ji_input_value it))) (Some ''-'')))) Invalid_Input)
       \<lparr>dr_error_reason := ji_reason it\<rparr>"

definition stream_step :: "db \<Rightarrow> parsed_cache \<Rightarrow> job_item \<Rightarrow> parsed_cache \<times> stream_row" where
  "stream_step d pc it =
     (let row = joined_row d it;
          (pc', parsed) =
            (case (ji_domain it, row) of
               (Some dm, Some r) \<Rightarrow>
                 (case (jd_state r, jd_result r) of
                    (Done, Some raw) \<Rightarrow>
                      if doc_empty raw then (pc, None)
                      else
                        (case map_of pc dm of
                           Some v \<Rightarrow> (cache_touch dm pc, v)
                         | None \<Rightarrow> (cache_insert dm (model_validate raw) pc, model_validate raw))
                  | _ \<Rightarrow> (pc, None))
             | _ \<Rightarrow> (pc, None));
          res = (if parsed = None \<and> ji_status it = Some Invalid_Input
                 then Some (invalid_result it) else parsed);
          retrying = (res = None \<and>
            (case row of None \<Rightarrow> False | Some r \<Rightarrow> jd_state r = Queued \<and> jd_attempts r > 0))
      in (pc', (ji_raw_row it, res, ji_domain it, retrying)))"

fun stream_from :: "db \<Rightarrow> parsed_cache \<Rightarrow> job_item list \<Rightarrow> stream_row list" where
  "stream_from d pc [] = []"
| "stream_from d pc (it # its) =
     (let (pc', out) = stream_step d pc it in out # stream_from d pc' its)"

definition stream_rows :: "uuid \<Rightarrow> db \<Rightarrow> stream_row list" where
  "stream_rows j d =
     stream_from d [] (sort_key ji_row_index (filter (\<lambda>it. ji_job_id it = j) (job_items d)))"

end
