(* ===== verification/Job_Store_Props.thy ===== *)
theory Job_Store_Props
  imports Job_Store Sample
begin

text \<open>
  What creating, counting and streaming a job guarantee: the chunked inserts amount to one
  insert in input order and keep the queue's invariant, the counters add up, and the bounded
  cache of parsed results is invisible in the rows that are streamed.
\<close>

section \<open>Chunks\<close>

lemma concat_windows:
  "concat (map (\<lambda>k. take n (drop (k * n) xs)) [0..<m]) = take (m * n) xs"
proof (induction m)
  case (Suc m)
  have "take (Suc m * n) xs = take (m * n) xs @ take n (drop (m * n) xs)"
    by (subst take_add [symmetric]) (simp add: add.commute)
  with Suc show ?case by simp
qed simp

lemma concat_chunks:
  assumes "0 < n"
  shows "concat (chunks xs n) = xs"
proof -
  let ?l = "length xs + n - 1"
  have "?l = ?l div n * n + ?l mod n" "?l mod n < n" using assms by simp_all
  then have "length xs \<le> ?l div n * n" by linarith
  then show ?thesis by (simp add: chunks_def concat_windows)
qed

lemma insert_items_chunks:
  "insert_items j chs its = its @ map (new_item j) (concat chs)"
  by (induction chs arbitrary: its) (simp_all add: insert_items_def)

lemma insert_domains_chunks:
  "insert_domains now chs ds = fold (insert_domain now) (concat chs) ds"
  by (induction chs arbitrary: ds) (simp_all add: insert_domains_def)

lemma enumerate_shift:
  "map (\<lambda>(i, x). f (s + i) x) (enumerate n xs) = map (\<lambda>(i, x). f i x) (enumerate (s + n) xs)"
  by (induction xs arbitrary: n) simp_all

lemma insert_queue_rows_chunks:
  "insert_queue_rows now j sq chs rs =
     rs @ map (\<lambda>(i, dm). new_job_domain now j dm i) (enumerate sq (concat chs))"
proof (induction chs arbitrary: sq rs)
  case (Cons ch chs)
  have "map (\<lambda>(i, dm). new_job_domain now j dm (sq + i)) (enumerate 0 ch) =
      map (\<lambda>(i, dm). new_job_domain now j dm i) (enumerate sq ch)"
    using enumerate_shift [of "\<lambda>i dm. new_job_domain now j dm i" sq 0 ch] by simp
  with Cons show ?case by (simp add: enumerate_append_eq)
qed simp

section \<open>Unique domains\<close>

lemma unique_domains_from:
  "distinct (unique_domains_from seen its) \<and>
   set (unique_domains_from seen its) = {dm. dm \<noteq> [] \<and> (\<exists>it \<in> set its. pi_domain it = Some dm)} - seen"
  by (induction seen its rule: unique_domains_from.induct) (auto split: option.splits)

lemma distinct_unique_domains [simp]: "distinct (unique_domains its)"
  by (simp add: unique_domains_def unique_domains_from)

lemma set_unique_domains:
  "set (unique_domains its) = {dm. dm \<noteq> [] \<and> (\<exists>it \<in> set its. pi_domain it = Some dm)}"
  by (simp add: unique_domains_def unique_domains_from)

text \<open>The domains come in the order in which they first appear.\<close>

lemma unique_domains_from_append:
  "unique_domains_from seen (its @ its') =
     unique_domains_from seen its @ unique_domains_from (seen \<union> set (unique_domains_from seen its)) its'"
  by (induction seen its rule: unique_domains_from.induct) (auto split: option.splits simp: Un_commute)

lemma unique_domains_snoc:
  "unique_domains (its @ [it]) =
     (case pi_domain it of
        None \<Rightarrow> unique_domains its
      | Some dm \<Rightarrow> if dm = [] \<or> dm \<in> set (unique_domains its) then unique_domains its
                   else unique_domains its @ [dm])"
  by (simp add: unique_domains_def unique_domains_from_append split: option.splits)

section \<open>Creating a job\<close>

lemma fold_insert_domain:
  "locks_inv ds \<Longrightarrow> locks_inv (fold (insert_domain now) dms ds) \<and>
     d_domain ` set (fold (insert_domain now) dms ds) = d_domain ` set ds \<union> set dms"
proof (induction dms arbitrary: ds)
  case (Cons a dms)
  have "d_domain ` set (insert_domain now a ds) = insert a (d_domain ` set ds)"
    using insert_domain_keys [of now a ds] by simp
  with Cons insert_domain_locks [of ds now a] show ?case by auto
qed simp

lemma create_job_eq [code]:
  "create_job cfg now clock j its rq d =
     (let dms = unique_domains its;
          cached = (if dms \<noteq> [] \<and> \<not> rq_fresh rq then cached_domains (cache_cutoff cfg clock) dms d else []);
          jb = (if dms = [] then (new_job now j (length its) rq)\<lparr>j_status := JDone, j_finished_at := Some clock\<rparr>
                else new_job now j (length its) rq)
      in (d\<lparr>jobs := jobs d @ [jb],
            job_domains := job_domains d @ map (\<lambda>(i, dm). new_job_domain now j dm i) (enumerate 0 dms),
            job_items := job_items d @ map (new_item j) its,
            domains := fold (insert_domain now) dms (domains d)\<rparr>,
          jb, filter (\<lambda>x. x \<notin> set cached) dms, cached))"
  by (auto simp: create_job_def Let_def insert_items_chunks insert_domains_chunks
      insert_queue_rows_chunks concat_chunks cached_domains_def)

lemma new_rows_keys:
  "map jd_key (map (\<lambda>(i, dm). new_job_domain now j dm i) (enumerate n dms)) = map (Pair j) dms"
  by (induction dms arbitrary: n) (simp_all add: jd_key_def new_job_domain_def)

lemma new_rows_tokens:
  "tokens_of (rs @ map (\<lambda>(i, dm). new_job_domain now j dm i) xs) = tokens_of rs"
proof (induction rs)
  case Nil
  show ?case by (induction xs) (auto simp: new_job_domain_def)
qed (simp split: option.splits)

lemma refs_ok_new:
  "\<lbrakk> refs_ok ks js ds; set ds \<union> set dms \<subseteq> set ds' \<rbrakk>
     \<Longrightarrow> refs_ok (ks @ map (Pair j) dms) (js @ [j]) ds'"
  unfolding refs_ok_def by (simp add: image_Un image_image) blast

lemma create_job_inv [inv_intros]:
  assumes inv: "db_inv d" and fresh: "j \<notin> j_id ` set (jobs d)"
  shows "db_inv (fst (create_job cfg now clock j its rq d))"
proof -
  let ?dms = "unique_domains its"
  let ?new = "map (\<lambda>(i, dm). new_job_domain now j dm i) (enumerate 0 ?dms)"
  have keys: "map jd_key (job_domains d @ ?new) = map jd_key (job_domains d) @ map (Pair j) ?dms"
    by (simp only: map_append new_rows_keys)
  have none: "\<And>r. r \<in> set (job_domains d) \<Longrightarrow> jd_job_id r \<noteq> j"
    using inv fresh refs_invD(1) by (auto simp: db_inv_def)
  have "distinct (map jd_key (job_domains d @ ?new))"
    unfolding keys using inv none by (auto simp: inv_defs distinct_map inj_on_def jd_key_def)
  moreover have "\<forall>r \<in> set ?new. row_ok r" by (auto simp: row_ok_def new_job_domain_def)
  ultimately have rows: "rows_inv (job_domains d @ ?new)"
    using inv by (auto simp: db_inv_def rows_inv_def new_rows_tokens)
  have dn: "all_done (job_domains d @ ?new) k" if "all_done (job_domains d) k" "k \<noteq> j" for k
    using that by (auto simp: all_done_def new_job_domain_def)
  let ?jb = "if ?dms = [] then (new_job now j (length its) rq)\<lparr>j_status := JDone, j_finished_at := Some clock\<rparr>
    else new_job now j (length its) rq"
  have "job_ok (job_domains d @ ?new) ?jb"
    using none by (auto simp: job_ok_def new_job_def all_done_def)
  moreover have "j_id ?jb = j" by (simp add: new_job_def)
  ultimately have "jobs_inv (job_domains d @ ?new) (jobs d @ [?jb])"
    using inv fresh by (auto simp: inv_defs job_ok_def intro: dn)
  moreover have "refs_ok (map jd_key (job_domains d @ ?new)) (map j_id (jobs d @ [?jb]))
      (map d_domain (fold (insert_domain now) ?dms (domains d)))"
    unfolding map_append new_rows_keys list.map \<open>j_id ?jb = j\<close>
    using inv fold_insert_domain [of "domains d" now ?dms]
    by (intro refs_ok_new [where ds = "map d_domain (domains d)"]) (auto simp: db_inv_def refs_inv_def)
  moreover have "locks_inv (fold (insert_domain now) ?dms (domains d))"
    using inv fold_insert_domain [of "domains d" now ?dms] by (simp add: db_inv_def)
  ultimately show ?thesis
    using rows by (simp add: create_job_eq Let_def db_inv_def refs_inv_def)
qed

text \<open>
  C28: Creating a job queues each of its domains once, in input order. For a new job id the
  database invariant is kept, the queue rows of the job are its distinct domains numbered
  0, 1, 2, ... in the order in which they first appear (however the inserts are chunked),
  every one due at once, its items are the prepared rows in order, the domains to run and
  the cached ones split them, and the job is done on the spot exactly when it has none.
\<close>

theorem create_job_queues:
  assumes inv: "db_inv d" and fresh: "j \<notin> j_id ` set (jobs d)"
    and items: "\<forall>it \<in> set (job_items d). ji_job_id it \<noteq> j"
    and res: "create_job cfg now clock j its rq d = (d', jb, to_run, cached)"
  shows "db_inv d' \<and>
    job_rows j d' = map (\<lambda>(i, dm). new_job_domain now j dm i) (enumerate 0 (unique_domains its)) \<and>
    distinct (unique_domains its) \<and>
    set (unique_domains its) = {dm. dm \<noteq> [] \<and> (\<exists>it \<in> set its. pi_domain it = Some dm)} \<and>
    filter (\<lambda>it. ji_job_id it = j) (job_items d') = map (new_item j) its \<and>
    set to_run \<union> set cached = set (unique_domains its) \<and> set to_run \<inter> set cached = {} \<and>
    jb \<in> set (jobs d') \<and> j_id jb = j \<and> j_total jb = length its \<and>
    (j_status jb = JDone \<longleftrightarrow> unique_domains its = [])"
proof -
  have "\<forall>r \<in> set (job_domains d). jd_job_id r \<noteq> j"
    using inv fresh refs_invD(1) by (auto simp: db_inv_def)
  then have rows: "job_rows j d' = map (\<lambda>(i, dm). new_job_domain now j dm i) (enumerate 0 (unique_domains its))"
    using res by (auto simp: job_rows_def create_job_eq Let_def new_job_domain_def filter_empty_conv
        intro!: filter_True)
  have "filter (\<lambda>it. ji_job_id it = j) (job_items d') = map (new_item j) its"
    using res items by (auto simp: create_job_eq Let_def new_item_def filter_empty_conv filter_map o_def)
  moreover have "db_inv d'" using create_job_inv [OF inv fresh, of cfg now clock its rq] res by simp
  moreover have "set cached \<subseteq> set (unique_domains its)"
    using res by (auto simp: create_job_eq Let_def cached_domains_def split: if_splits)
  moreover have "to_run = filter (\<lambda>x. x \<notin> set cached) (unique_domains its)"
    using res by (auto simp: create_job_eq Let_def)
  moreover have "jb \<in> set (jobs d') \<and> j_id jb = j \<and> j_total jb = length its \<and>
      (j_status jb = JDone \<longleftrightarrow> unique_domains its = [])"
    using res by (auto simp: create_job_eq Let_def new_job_def split: if_splits)
  ultimately show ?thesis using rows set_unique_domains by auto
qed

definition s_item :: "nat \<Rightarrow> string \<Rightarrow> prepared_item" where
  "s_item i dm = \<lparr>pi_row_index = i, pi_input_value = dm, pi_domain = Some dm, pi_status = None,
     pi_reason = None, pi_domain_source = ''website'', pi_raw_row = [(''website'', dm)]\<rparr>"

definition s_request :: job_request where
  "s_request = \<lparr>rq_source_columns = [''website''], rq_filename = None, rq_website_column = None,
     rq_webhook_url = None, rq_fresh = False, rq_owner_id = None, rq_idempotency_key = None,
     rq_idempotency_fingerprint = None\<rparr>"

theorem create_job_queues_witness:
  "\<exists>d'. fst (create_job settings_default 60 60 3
       [s_item 0 ''x.com'', s_item 1 ''a.com'', s_item 2 ''x.com''] s_request s_db) = d' \<and> db_inv d' \<and>
     job_rows 3 d' = [new_job_domain 60 3 ''x.com'' 0, new_job_domain 60 3 ''a.com'' 1]"
proof -
  let ?its = "[s_item 0 ''x.com'', s_item 1 ''a.com'', s_item 2 ''x.com'']"
  have h: "3 \<notin> j_id ` set (jobs s_db)" "\<forall>it \<in> set (job_items s_db). ji_job_id it \<noteq> 3"
    by (auto simp: sample_defs)
  obtain d' jb to_run cached
    where c: "create_job settings_default 60 60 3 ?its s_request s_db = (d', jb, to_run, cached)"
    by (metis prod.exhaust)
  have "unique_domains ?its = [''x.com'', ''a.com'']" by code_simp
  with create_job_queues [OF s_db_inv h c] c show ?thesis by auto
qed

section \<open>Counters\<close>

lemma count_where_simps [simp]:
  "count_where P [] = 0"
  "count_where P (r # rs) = (if P r then Suc (count_where P rs) else count_where P rs)"
  by (simp_all add: count_where_def)

lemma count_states:
  "count_where (\<lambda>r. jd_state r = Done) rs + count_where (\<lambda>r. jd_state r = Running) rs +
     count_where (\<lambda>r. jd_state r = Queued) rs = length rs"
  by (induction rs) (auto intro: jd_state.exhaust)

lemma sum_count_list: "(\<Sum>x\<leftarrow>remdups xs. count_list xs x) = length xs"
  by (simp add: sum_list_distinct_conv_sum_set sum_count_set)

lemma count_map_filter:
  assumes "\<forall>r \<in> set rs. jd_state r = Done \<longrightarrow> jd_status r \<noteq> None"
  shows "length (List.map_filter (\<lambda>r. if jd_state r = Done then jd_status r else None) rs) =
    count_where (\<lambda>r. jd_state r = Done) rs"
  using assms by (induction rs) (auto simp: List.map_filter_simps)

lemma count_where_mono:
  "(\<And>r. P r \<Longrightarrow> Q r) \<Longrightarrow> count_where P rs \<le> count_where Q rs"
  by (induction rs) (auto simp: le_SucI)

text \<open>
  C29: The counters of a job add up. Done, running and queued domains make up the unique
  domains; in a database that satisfies the invariant the counts by status make up the done
  ones, found and failed domains are among the done ones, and the hit rate lies between 0
  and 1.
\<close>

theorem job_counts_add_up:
  assumes "db_inv d" and "t = job_counts j d"
  shows "n_done t + n_running t + count_where (\<lambda>r. jd_state r = Queued) (job_rows j d) = n_unique_domains t \<and>
    (\<Sum>p\<leftarrow>n_by_status t. snd p) = n_done t \<and> distinct (map fst (n_by_status t)) \<and>
    n_found t + n_failed t \<le> n_done t \<and>
    n_retrying t \<le> count_where (\<lambda>r. jd_state r = Queued) (job_rows j d) \<and>
    0 \<le> n_hit_rate_so_far t \<and> n_hit_rate_so_far t \<le> 1"
proof -
  let ?rs = "job_rows j d"
  let ?f = "\<lambda>r. jd_state r = Done \<and> jd_status r = Some Found"
  let ?g = "\<lambda>r. jd_state r = Done \<and> jd_status r = Some Fetch_Failed"
  let ?d = "\<lambda>r. jd_state r = Done"
  have st: "\<forall>r \<in> set ?rs. jd_state r = Done \<longrightarrow> jd_status r \<noteq> None"
    using assms(1) by (auto simp: job_rows_def inv_defs row_ok_def)
  have both: "count_where ?f rs + count_where ?g rs \<le> count_where ?d rs" for rs
    by (induction rs) auto
  have "count_where (\<lambda>r. jd_state r = Queued \<and> 0 < jd_attempts r) ?rs \<le>
      count_where (\<lambda>r. jd_state r = Queued) ?rs"
    by (rule count_where_mono) simp
  moreover have "count_where ?f ?rs \<le> count_where ?d ?rs" using both [of ?rs] by simp
  then have "(of_nat (count_where ?f ?rs) :: rat) / of_nat (count_where ?d ?rs) \<le> 1"
    by (auto simp: divide_le_eq_1)
  ultimately show ?thesis
    using both [of ?rs] count_states [of ?rs]
    by (simp add: assms(2) job_counts_def Let_def comp_def sum_count_list count_map_filter [OF st])
qed

theorem job_counts_add_up_witness:
  "n_done (job_counts 1 s_db) = 1 \<and> n_running (job_counts 1 s_db) = 1 \<and>
   (\<Sum>p\<leftarrow>n_by_status (job_counts 1 s_db). snd p) = 1"
proof -
  have "n_done (job_counts 1 s_db) = 1" "n_running (job_counts 1 s_db) = 1" by code_simp+
  with job_counts_add_up [OF s_db_inv refl, of 1] show ?thesis by simp
qed

section \<open>Streaming\<close>

text \<open>The row of an item, with no cache between the stored document and its parse.\<close>

definition parsed_result :: "db \<Rightarrow> job_item \<Rightarrow> domain_result option" where
  "parsed_result d it =
     (case joined_row d it of
        None \<Rightarrow> None
      | Some r \<Rightarrow>
          if jd_state r = Done then
            (case jd_result r of
               None \<Rightarrow> None | Some raw \<Rightarrow> if doc_empty raw then None else model_validate raw)
          else None)"

definition plain_row :: "db \<Rightarrow> job_item \<Rightarrow> stream_row" where
  "plain_row d it =
     (let res = (if parsed_result d it = None \<and> ji_status it = Some Invalid_Input
                 then Some (invalid_result it) else parsed_result d it)
      in (ji_raw_row it, res, ji_domain it,
          res = None \<and> (\<exists>r. joined_row d it = Some r \<and> jd_state r = Queued \<and> jd_attempts r > 0)))"

definition pc_ok :: "db \<Rightarrow> uuid \<Rightarrow> parsed_cache \<Rightarrow> bool" where
  "pc_ok d j pc \<longleftrightarrow> length pc \<le> PARSED_CACHE \<and>
     (\<forall>(dm, v) \<in> set pc. \<exists>r raw. find (\<lambda>r. jd_key r = (j, dm)) (job_domains d) = Some r \<and>
        jd_result r = Some raw \<and> v = model_validate raw)"

lemma cache_touch_ok: "pc_ok d j pc \<Longrightarrow> pc_ok d j (cache_touch dm pc)"
proof (cases "map_of pc dm")
  case (Some v)
  assume ok: "pc_ok d j pc"
  from Some have mem: "(dm, v) \<in> set pc" by (rule map_of_SomeD)
  then have "length (filter (\<lambda>e. fst e \<noteq> dm) pc) < length pc"
    by (intro length_filter_less) auto
  with ok Some mem show ?thesis by (auto simp: pc_ok_def cache_touch_def)
qed (simp add: cache_touch_def)

lemma cache_insert_ok:
  assumes "pc_ok d j pc" and "find (\<lambda>r. jd_key r = (j, dm)) (job_domains d) = Some r"
    and "jd_result r = Some raw"
  shows "pc_ok d j (cache_insert dm (model_validate raw) pc)"
  using assms by (cases pc) (auto simp: pc_ok_def cache_insert_def Let_def)

text \<open>One row of the stream: what it shows does not depend on the cache, which stays sound.\<close>

lemma stream_step_plain:
  assumes "pc_ok d j pc" and "ji_job_id it = j"
  shows "snd (stream_step d pc it) = plain_row d it \<and> pc_ok d j (fst (stream_step d pc it))"
proof (cases "joined_row d it")
  case None
  with assms show ?thesis
    by (auto simp: stream_step_def plain_row_def parsed_result_def split: option.splits)
next
  case (Some r)
  then obtain dm where dm: "ji_domain it = Some dm"
    and r: "find (\<lambda>r. jd_key r = (j, dm)) (job_domains d) = Some r"
    using assms(2) by (auto simp: joined_row_def split: option.splits)
  have hit: "v = model_validate raw" if "map_of pc dm = Some v" "jd_result r = Some raw" for v raw
    using assms(1) map_of_SomeD [OF that(1)] that(2) r by (auto simp: pc_ok_def)
  show ?thesis
    using assms Some dm hit cache_insert_ok [OF assms(1) r] cache_touch_ok [OF assms(1)]
    by (auto simp: stream_step_def plain_row_def parsed_result_def Let_def
        split: option.splits jd_state.splits if_splits)
qed

lemma stream_from_plain:
  assumes "pc_ok d j pc" and "\<forall>it \<in> set its. ji_job_id it = j"
  shows "stream_from d pc its = map (plain_row d) its \<and>
    length (fold (\<lambda>it pc. fst (stream_step d pc it)) its pc) \<le> PARSED_CACHE"
  using assms
proof (induction its arbitrary: pc)
  case (Cons it its)
  with stream_step_plain [of d j pc it] show ?case by (auto simp: split_def)
qed (simp add: pc_ok_def)

text \<open>
  The bounded cache of parsed results cannot be seen in a download. The streamed rows
  are, in row order, those one gets by parsing each item's stored document afresh, and at no
  point does the cache hold more than \<open>PARSED_CACHE\<close> documents.
\<close>

theorem stream_rows_plain:
  "stream_rows j d = map (plain_row d) (sort_key ji_row_index (filter (\<lambda>it. ji_job_id it = j) (job_items d))) \<and>
   length (fold (\<lambda>it pc. fst (stream_step d pc it))
     (take n (sort_key ji_row_index (filter (\<lambda>it. ji_job_id it = j) (job_items d)))) []) \<le> PARSED_CACHE"
proof -
  let ?its = "sort_key ji_row_index (filter (\<lambda>it. ji_job_id it = j) (job_items d))"
  have ok: "pc_ok d j []" by (simp add: pc_ok_def)
  have "\<forall>it \<in> set (take n ?its). ji_job_id it = j" by (auto dest: in_set_takeD)
  with stream_from_plain [OF ok] have "length (fold (\<lambda>it pc. fst (stream_step d pc it)) (take n ?its) []) \<le> PARSED_CACHE"
    by blast
  with stream_from_plain [OF ok, of ?its] show ?thesis by (simp add: stream_rows_def)
qed

end
