(* ===== verification/Py_Str.thy ===== *)
theory Py_Str
  imports Prelude
begin

text \<open>
  The methods of Python's \<open>str\<close> that the program calls. A string is a list of characters; a
  HOL character is a code point of the Latin-1 block, so the tables for case and white space
  below are exact for strings over that block, which is what the models are about. Text
  outside it (Cyrillic or CJK names, for example) is not represented.
\<close>

section \<open>Characters\<close>

definition ordc :: "char \<Rightarrow> nat" where
  "ordc c = of_char c"

definition is_space :: "char \<Rightarrow> bool" where
  "is_space c = (let n = ordc c in 9 \<le> n \<and> n \<le> 13 \<or> 28 \<le> n \<and> n \<le> 32 \<or> n = 133 \<or> n = 160)"

definition is_digit :: "char \<Rightarrow> bool" where
  "is_digit c = (let n = ordc c in 48 \<le> n \<and> n \<le> 57)"

definition is_ascii_letter :: "char \<Rightarrow> bool" where
  "is_ascii_letter c = (let n = ordc c in 65 \<le> n \<and> n \<le> 90 \<or> 97 \<le> n \<and> n \<le> 122)"

definition is_ascii :: "char \<Rightarrow> bool" where
  "is_ascii c = (ordc c < 128)"

text \<open>\<open>str.isalnum\<close> on one character: letters, decimal digits, superscripts and fractions.\<close>

definition is_alnum :: "char \<Rightarrow> bool" where
  "is_alnum c = (is_ascii_letter c \<or> is_digit c \<or>
     (let n = ordc c in n \<in> {170, 178, 179, 181, 185, 186, 188, 189, 190} \<or>
        192 \<le> n \<and> n \<noteq> 215 \<and> n \<noteq> 247))"

definition is_word :: "char \<Rightarrow> bool" where
  "is_word c = (is_alnum c \<or> c = CHR ''_'')"

definition lower_char :: "char \<Rightarrow> char" where
  "lower_char c =
     (let n = ordc c in
      if 65 \<le> n \<and> n \<le> 90 \<or> 192 \<le> n \<and> n \<le> 222 \<and> n \<noteq> 215 then char_of (n + 32) else c)"

section \<open>Strings\<close>

definition lower :: "string \<Rightarrow> string" where
  "lower s = map lower_char s"

definition lstrip_by :: "(char \<Rightarrow> bool) \<Rightarrow> string \<Rightarrow> string" where
  "lstrip_by P s = dropWhile P s"

definition rstrip_by :: "(char \<Rightarrow> bool) \<Rightarrow> string \<Rightarrow> string" where
  "rstrip_by P s = rev (dropWhile P (rev s))"

definition strip_by :: "(char \<Rightarrow> bool) \<Rightarrow> string \<Rightarrow> string" where
  "strip_by P s = rstrip_by P (lstrip_by P s)"

definition strip :: "string \<Rightarrow> string" where
  "strip s = strip_by is_space s"

definition startswith :: "string \<Rightarrow> string \<Rightarrow> bool" where
  "startswith p s = (take (length p) s = p)"

definition endswith :: "string \<Rightarrow> string \<Rightarrow> bool" where
  "endswith p s = (length p \<le> length s \<and> drop (length s - length p) s = p)"

fun contains :: "string \<Rightarrow> string \<Rightarrow> bool" where
  "contains p [] = (p = [])"
| "contains p (c # s) = (startswith p (c # s) \<or> contains p s)"

text \<open>\<open>s.partition(sep)\<close>: the text before the first separator, and what follows it if there is one.\<close>

fun partition_at :: "string \<Rightarrow> string \<Rightarrow> string \<times> string option" where
  "partition_at sep [] = ([], if sep = [] then Some [] else None)"
| "partition_at sep (c # s) =
     (if startswith sep (c # s) then ([], Some (drop (length sep) (c # s)))
      else let (a, b) = partition_at sep s in (c # a, b))"

definition rpartition_at :: "string \<Rightarrow> string \<Rightarrow> (string \<times> string) option" where
  "rpartition_at sep s =
     (case partition_at (rev sep) (rev s) of
        (a, None) \<Rightarrow> None | (a, Some b) \<Rightarrow> Some (rev b, rev a))"

lemma partition_at_shorter:
  "\<lbrakk> partition_at sep s = (a, Some b); sep \<noteq> [] \<rbrakk> \<Longrightarrow> length b < length s"
proof (induction s arbitrary: a)
  case (Cons c s)
  then show ?case by (cases sep) (auto split: if_splits prod.splits)
qed simp

text \<open>\<open>s.split(sep)\<close> for a separator that is not empty (Python refuses an empty one).\<close>

function split_on :: "string \<Rightarrow> string \<Rightarrow> string list" where
  "split_on sep s =
     (if sep = [] then [s]
      else case partition_at sep s of
             (a, None) \<Rightarrow> [a] | (a, Some b) \<Rightarrow> a # split_on sep b)"
  by pat_completeness auto
termination
  by (relation "measure (\<lambda>(sep, s). length s)") (auto dest: partition_at_shorter [OF sym])

declare split_on.simps [simp del]

definition join :: "string \<Rightarrow> string list \<Rightarrow> string" where
  "join sep xs = (case xs of [] \<Rightarrow> [] | x # ys \<Rightarrow> x @ concat (map (\<lambda>y. sep @ y) ys))"

text \<open>\<open>s.split()\<close>: the runs of characters that are not white space.\<close>

function words_of :: "string \<Rightarrow> string list" where
  "words_of s =
     (let t = dropWhile is_space s
      in if t = [] then []
         else takeWhile (\<lambda>c. \<not> is_space c) t # words_of (dropWhile (\<lambda>c. \<not> is_space c) t))"
  by pat_completeness auto
termination
proof (relation "measure length")
  fix s t :: string
  assume t: "t = dropWhile is_space s" "t \<noteq> []"
  obtain c u where c: "t = c # u" using t(2) by (cases t) auto
  then have "\<not> is_space c" using t hd_dropWhile [of is_space s] by (metis list.sel(1))
  with c have "length (dropWhile (\<lambda>c. \<not> is_space c) t) < length t"
    by (simp add: le_imp_less_Suc length_dropWhile_le)
  also have "length t \<le> length s" using t by (simp add: length_dropWhile_le)
  finally show "(dropWhile (\<lambda>c. \<not> is_space c) t, s) \<in> measure length" by simp
qed simp

declare words_of.simps [simp del]

definition replace_char :: "char \<Rightarrow> string \<Rightarrow> string \<Rightarrow> string" where
  "replace_char c r s = concat (map (\<lambda>x. if x = c then r else [x]) s)"

section \<open>Laws\<close>

lemma ordc_less: "ordc c < 256"
  unfolding ordc_def by (cases c) (simp add: of_char_def horner_sum_simps)

lemma char_of_ordc [simp]: "char_of (ordc c) = c"
  by (simp add: ordc_def)

lemma ordc_char_of [simp]: "n < 256 \<Longrightarrow> ordc (char_of n) = n"
  by (simp add: ordc_def)

lemma lower_char_idem [simp]: "lower_char (lower_char c) = lower_char c"
  by (auto simp: lower_char_def Let_def)

lemma lower_idem [simp]: "lower (lower s) = lower s"
  by (simp add: lower_def)

lemma length_lower [simp]: "length (lower s) = length s"
  by (simp add: lower_def)

lemma lower_append [simp]: "lower (s @ t) = lower s @ lower t"
  by (simp add: lower_def)

lemma lower_eq_Nil [simp]: "lower s = [] \<longleftrightarrow> s = []"
  by (simp add: lower_def)

lemma startswith_iff: "startswith p s \<longleftrightarrow> (\<exists>t. s = p @ t)"
  unfolding startswith_def by (metis append_eq_conv_conj append_take_drop_id)

lemma endswith_iff: "endswith p s \<longleftrightarrow> (\<exists>t. s = t @ p)"
proof
  assume "endswith p s"
  then have "s = take (length s - length p) s @ p"
    unfolding endswith_def by (metis append_take_drop_id)
  then show "\<exists>t. s = t @ p" ..
qed (auto simp: endswith_def)

lemma contains_iff: "contains p s \<longleftrightarrow> (\<exists>a b. s = a @ p @ b)"
proof (induction s)
  case (Cons c s)
  have "(\<exists>a b. c # s = a @ p @ b) \<longleftrightarrow> (\<exists>b. c # s = p @ b) \<or> (\<exists>a b. s = a @ p @ b)"
  proof
    assume "\<exists>a b. c # s = a @ p @ b"
    then obtain a b where "c # s = a @ p @ b" by blast
    then show "(\<exists>b. c # s = p @ b) \<or> (\<exists>a b. s = a @ p @ b)" by (cases a) auto
  next
    assume "(\<exists>b. c # s = p @ b) \<or> (\<exists>a b. s = a @ p @ b)"
    then show "\<exists>a b. c # s = a @ p @ b"
    proof
      assume "\<exists>b. c # s = p @ b"
      then show ?thesis by (metis append_Nil)
    next
      assume "\<exists>a b. s = a @ p @ b"
      then show ?thesis by (metis append_Cons)
    qed
  qed
  with Cons show ?case by (simp add: startswith_iff)
qed auto

lemma partition_at_None: "partition_at sep s = (a, None) \<Longrightarrow> a = s"
  by (induction s arbitrary: a) (auto split: if_splits prod.splits)

lemma partition_at_Some: "partition_at sep s = (a, Some b) \<Longrightarrow> s = a @ sep @ b"
proof (induction s arbitrary: a)
  case (Cons c s)
  then show ?case by (auto simp: startswith_iff split: if_splits prod.splits)
qed (auto split: if_splits)

lemma partition_char:
  "partition_at [c] s = (takeWhile (\<lambda>x. x \<noteq> c) s, if c \<in> set s then Some (tl (dropWhile (\<lambda>x. x \<noteq> c) s)) else None)"
  by (induction s) (auto simp: startswith_def)

lemma rpartition_char: "c \<notin> set d \<Longrightarrow> rpartition_at [c] (l @ [c] @ d) = Some (l, d)"
proof -
  assume "c \<notin> set d"
  then have "takeWhile (\<lambda>x. x \<noteq> c) (rev d @ c # rev l) = rev d"
    and "dropWhile (\<lambda>x. x \<noteq> c) (rev d @ c # rev l) = c # rev l"
    by (auto simp: takeWhile_append2 dropWhile_append2 intro!: takeWhile_append2 [THEN trans] dropWhile_append2 [THEN trans])
  then show ?thesis by (simp add: rpartition_at_def partition_char)
qed

lemma join_Cons: "ys \<noteq> [] \<Longrightarrow> join sep (x # ys) = x @ sep @ join sep ys"
  by (cases ys) (simp_all add: join_def)

lemma split_on_nonempty [simp]: "split_on sep s \<noteq> []"
  by (subst split_on.simps) (auto split: prod.splits option.splits)

text \<open>Splitting and joining with the same separator gives the text back.\<close>

lemma join_split_on: "join sep (split_on sep s) = s"
proof (induction sep s rule: split_on.induct)
  case (1 sep s)
  show ?case
  proof (cases "sep = []")
    case True
    then show ?thesis by (simp add: split_on.simps join_def)
  next
    case False
    obtain a ob where p: "partition_at sep s = (a, ob)" by force
    show ?thesis
    proof (cases ob)
      case None
      with p False partition_at_None [of sep s a] show ?thesis by (simp add: split_on.simps [of sep s] join_def)
    next
      case (Some b)
      with p False have "split_on sep s = a # split_on sep b" by (subst split_on.simps) simp
      moreover have "join sep (split_on sep b) = b"
        using "1.IH" [OF False p [symmetric]] Some by simp
      ultimately show ?thesis
        using partition_at_Some [of sep s a b] p Some by (simp add: join_Cons)
    qed
  qed
qed

section \<open>Evaluation\<close>

text \<open>The tests above read off the bits of a character, so that they evaluate fast.\<close>

lemma is_digit_code [code]:
  "is_digit (Char b0 b1 b2 b3 b4 b5 b6 b7) \<longleftrightarrow> \<not> b7 \<and> \<not> b6 \<and> b5 \<and> b4 \<and> \<not> (b3 \<and> (b2 \<or> b1))"
  by (cases b7; cases b6; cases b5; cases b4; cases b3; cases b2; cases b1; cases b0)
    (simp_all add: is_digit_def ordc_def)

lemma is_ascii_letter_code [code]:
  "is_ascii_letter (Char b0 b1 b2 b3 b4 b5 b6 b7) \<longleftrightarrow>
     \<not> b7 \<and> b6 \<and> (b0 \<or> b1 \<or> b2 \<or> b3 \<or> b4) \<and> \<not> (b4 \<and> b3 \<and> (b2 \<or> b1 \<and> b0))"
  by (cases b7; cases b6; cases b5; cases b4; cases b3; cases b2; cases b1; cases b0)
    (simp_all add: is_ascii_letter_def ordc_def)

lemma is_space_code [code]:
  "is_space (Char b0 b1 b2 b3 b4 b5 b6 b7) \<longleftrightarrow>
     \<not> b6 \<and>
     (\<not> b7 \<and> \<not> b5 \<and> b3 \<and> (if b4 then b2 else (b0 \<or> b1 \<or> b2) \<and> \<not> (b2 \<and> b1)) \<or>
      b5 \<and> \<not> b4 \<and> \<not> b3 \<and> \<not> b2 \<and> \<not> b1 \<and> \<not> b0 \<or>
      b7 \<and> \<not> b5 \<and> \<not> b4 \<and> \<not> b3 \<and> b2 \<and> \<not> b1 \<and> b0)"
  by (cases b7; cases b6; cases b5; cases b4; cases b3; cases b2; cases b1; cases b0)
    (simp_all add: is_space_def ordc_def)

lemma lower_char_code [code]:
  "lower_char (Char b0 b1 b2 b3 b4 b5 b6 b7) =
     Char b0 b1 b2 b3 b4
       (b5 \<or> b6 \<and>
         (if b7 then \<not> (b4 \<and> b2 \<and> b1 \<and> b0)
          else (b0 \<or> b1 \<or> b2 \<or> b3 \<or> b4) \<and> \<not> (b4 \<and> b3 \<and> (b2 \<or> b1 \<and> b0)))) b6 b7"
  by (cases b7; cases b6; cases b5; cases b4; cases b3; cases b2; cases b1; cases b0)
    (simp_all add: lower_char_def ordc_def char_of_def bit_iff_odd)

end
