(* ===== verification/Regex.thy ===== *)
theory Regex
  imports Py_Str
begin

text \<open>
  A backtracking matcher with the semantics of Python's \<open>re\<close> on the patterns the program
  uses: the ways a pattern can match at a position, in the order in which the backtracking
  search tries them, so the first one is the match \<open>re\<close> reports. A state holds the text before
  the position (reversed), the text after it, and the groups captured so far. Looking behind is
  by one character; \<open>Mbol\<close> is \<open>^\<close> in multi-line mode.
\<close>

datatype rx =
  Eps
| Chr "char \<Rightarrow> bool"
| Seq rx rx
| Alt rx rx
| Rep nat "nat option" bool rx
| Bol
| Eol
| Wordb
| Grp nat rx
| Look bool rx
| Behind bool "char \<Rightarrow> bool"
| Mbol

type_synonym rx_state = "string \<times> string \<times> (nat \<times> string) list"

text \<open>\<open>{m,n}\<close>: the compulsory rounds, then the optional ones, each of which must use up text.\<close>

primrec rep_must :: "nat \<Rightarrow> (rx_state \<Rightarrow> rx_state list) \<Rightarrow> rx_state \<Rightarrow> rx_state list" where
  "rep_must 0 f st = [st]"
| "rep_must (Suc k) f st = concat (map (rep_must k f) (f st))"

primrec rep_may :: "nat \<Rightarrow> bool \<Rightarrow> (rx_state \<Rightarrow> rx_state list) \<Rightarrow> rx_state \<Rightarrow> rx_state list" where
  "rep_may 0 greedy f st = [st]"
| "rep_may (Suc k) greedy f st =
     (let more = concat (map (rep_may k greedy f)
                   (filter (\<lambda>st'. length (fst (snd st')) < length (fst (snd st))) (f st)))
      in if greedy then more @ [st] else st # more)"

primrec run :: "rx \<Rightarrow> rx_state \<Rightarrow> rx_state list" where
  "run Eps = (\<lambda>st. [st])"
| "run (Chr P) = (\<lambda>(l, r, g). case r of [] \<Rightarrow> [] | c # r' \<Rightarrow> if P c then [(c # l, r', g)] else [])"
| "run (Seq a b) = (\<lambda>st. concat (map (run b) (run a st)))"
| "run (Alt a b) = (\<lambda>st. run a st @ run b st)"
| "run (Rep m x greedy a) = (\<lambda>st. concat (map
     (\<lambda>st'. rep_may (case x of None \<Rightarrow> length (fst (snd st')) | Some n \<Rightarrow> n - m) greedy (run a) st')
     (rep_must m (run a) st)))"
| "run Bol = (\<lambda>(l, r, g). if l = [] then [(l, r, g)] else [])"
| "run Eol = (\<lambda>(l, r, g). if r = [] \<or> r = [CHR 0x0A] then [(l, r, g)] else [])"
| "run Wordb = (\<lambda>(l, r, g).
     if (l \<noteq> [] \<and> is_word (hd l)) \<noteq> (r \<noteq> [] \<and> is_word (hd r)) then [(l, r, g)] else [])"
| "run (Grp k a) = (\<lambda>(l, r, g). map (\<lambda>(l', r', g').
     (l', r', (k, rev (take (length l' - length l) l')) # g')) (run a (l, r, g)))"
| "run (Look pos a) = (\<lambda>st. if (run a st \<noteq> []) = pos then [st] else [])"
| "run (Behind pos P) = (\<lambda>(l, r, g). if (l \<noteq> [] \<and> P (hd l)) = pos then [(l, r, g)] else [])"
| "run Mbol = (\<lambda>(l, r, g). if l = [] \<or> hd l = CHR 0x0A then [(l, r, g)] else [])"

record rx_match =
  m_start :: nat
  m_text :: string
  m_groups :: "(nat \<times> string) list"

definition match_at :: "rx \<Rightarrow> string \<Rightarrow> string \<Rightarrow> (rx_match \<times> string \<times> string) option" where
  "match_at a l r =
     (case run a (l, r, []) of
        [] \<Rightarrow> None
      | (l', r', g) # _ \<Rightarrow>
          Some (\<lparr>m_start = length l, m_text = rev (take (length l' - length l) l'), m_groups = g\<rparr>, l', r'))"

definition rx_match :: "rx \<Rightarrow> string \<Rightarrow> rx_match option" where
  "rx_match a s = map_option fst (match_at a [] s)"

fun search_from :: "rx \<Rightarrow> string \<Rightarrow> string \<Rightarrow> (rx_match \<times> string \<times> string) option" where
  "search_from a l [] = match_at a l []"
| "search_from a l (c # r) =
     (case match_at a l (c # r) of None \<Rightarrow> search_from a (c # l) r | Some m \<Rightarrow> Some m)"

definition rx_search :: "rx \<Rightarrow> string \<Rightarrow> rx_match option" where
  "rx_search a s = map_option fst (search_from a [] s)"

text \<open>The matches of \<open>finditer\<close>, from left to right; an empty one moves on by a character.\<close>

fun find_from :: "nat \<Rightarrow> rx \<Rightarrow> string \<Rightarrow> string \<Rightarrow> rx_match list" where
  "find_from 0 a l r = []"
| "find_from (Suc n) a l r =
     (case search_from a l r of
        None \<Rightarrow> []
      | Some (m, l', r') \<Rightarrow>
          if m_text m \<noteq> [] then m # find_from n a l' r'
          else m # (case r' of [] \<Rightarrow> [] | c # r'' \<Rightarrow> find_from n a (c # l') r''))"

definition rx_finditer :: "rx \<Rightarrow> string \<Rightarrow> rx_match list" where
  "rx_finditer a s = find_from (Suc (length s)) a [] s"

definition group :: "nat \<Rightarrow> rx_match \<Rightarrow> string option" where
  "group k m = map_of (m_groups m) k"

text \<open>\<open>a.sub(f, s)\<close> and \<open>a.split(s)\<close> for a pattern without groups.\<close>

fun splice :: "(rx_match \<Rightarrow> string) \<Rightarrow> nat \<Rightarrow> rx_match list \<Rightarrow> string \<Rightarrow> string" where
  "splice f i [] r = r"
| "splice f i (m # ms) r =
     take (m_start m - i) r @ f m @
     splice f (m_start m + length (m_text m)) ms (drop (m_start m - i + length (m_text m)) r)"

definition rx_sub :: "rx \<Rightarrow> (rx_match \<Rightarrow> string) \<Rightarrow> string \<Rightarrow> string" where
  "rx_sub a f s = splice f 0 (rx_finditer a s) s"

fun pieces :: "nat \<Rightarrow> rx_match list \<Rightarrow> string \<Rightarrow> string list" where
  "pieces i [] r = [r]"
| "pieces i (m # ms) r =
     take (m_start m - i) r #
     pieces (m_start m + length (m_text m)) ms (drop (m_start m - i + length (m_text m)) r)"

definition rx_split :: "rx \<Rightarrow> string \<Rightarrow> string list" where
  "rx_split a s = pieces 0 (rx_finditer a s) s"

section \<open>Building patterns\<close>

definition lit :: "string \<Rightarrow> rx" where
  "lit s = foldr (\<lambda>c r. Seq (Chr (\<lambda>x. x = c)) r) s Eps"

definition ilit :: "string \<Rightarrow> rx" where
  "ilit s = foldr (\<lambda>c r. Seq (Chr (\<lambda>x. lower_char x = lower_char c)) r) s Eps"

definition seqs :: "rx list \<Rightarrow> rx" where
  "seqs xs = foldr Seq xs Eps"

fun alts :: "rx list \<Rightarrow> rx" where
  "alts [] = Chr (\<lambda>_. False)"
| "alts [x] = x"
| "alts (x # xs) = Alt x (alts xs)"

abbreviation star :: "rx \<Rightarrow> rx" where "star a \<equiv> Rep 0 None True a"
abbreviation plus :: "rx \<Rightarrow> rx" where "plus a \<equiv> Rep 1 None True a"
abbreviation opt :: "rx \<Rightarrow> rx" where "opt a \<equiv> Rep 0 (Some 1) True a"
abbreviation rep :: "nat \<Rightarrow> nat \<Rightarrow> rx \<Rightarrow> rx" where "rep m n a \<equiv> Rep m (Some n) True a"

section \<open>Soundness of the matcher\<close>

text \<open>A way to match moves the position forward over the text and changes nothing else.\<close>

definition ahead :: "rx_state \<Rightarrow> rx_state \<Rightarrow> bool" where
  "ahead st st' \<longleftrightarrow>
     (\<exists>u. fst (snd st) = u @ fst (snd st') \<and> fst st' = rev u @ fst st)"

lemma ahead_refl [simp]: "ahead st st"
  by (simp add: ahead_def)

lemma ahead_trans: "ahead a b \<Longrightarrow> ahead b c \<Longrightarrow> ahead a c"
  by (auto simp: ahead_def)

lemma rep_must_ahead:
  assumes f: "\<And>st st'. st' \<in> set (f st) \<Longrightarrow> ahead st st'"
  shows "st' \<in> set (rep_must k f st) \<Longrightarrow> ahead st st'"
  by (induction k arbitrary: st) (auto dest!: f intro: ahead_trans)

lemma rep_may_ahead:
  assumes f: "\<And>st st'. st' \<in> set (f st) \<Longrightarrow> ahead st st'"
  shows "st' \<in> set (rep_may k greedy f st) \<Longrightarrow> ahead st st'"
  by (induction k arbitrary: st) (auto simp: Let_def dest!: f intro: ahead_trans split: if_splits)

lemma run_ahead: "st' \<in> set (run a st) \<Longrightarrow> ahead st st'"
proof (induction a arbitrary: st st')
  case (Seq a b)
  then obtain st1 where "st1 \<in> set (run a st)" and "st' \<in> set (run b st1)" by auto
  with Seq.IH show ?case by (blast intro: ahead_trans)
next
  case (Rep m x greedy a)
  then obtain st1 n where "st1 \<in> set (rep_must m (run a) st)"
    and "st' \<in> set (rep_may n greedy (run a) st1)" by auto
  with Rep.IH show ?case by (blast intro: ahead_trans rep_must_ahead rep_may_ahead)
next
  case (Grp k a)
  then obtain l' r' g' where "(l', r', g') \<in> set (run a st)" and "fst st' = l'" "fst (snd st') = r'"
    by (cases st) auto
  with Grp.IH [of "(l', r', g')" st] show ?case by (simp add: ahead_def)
qed (auto simp: ahead_def split: if_splits list.splits)

lemma match_at_parts:
  assumes "match_at a l r = Some (m, l', r')"
  shows "r = m_text m @ r' \<and> l' = rev (m_text m) @ l \<and> m_start m = length l"
proof -
  from assms obtain g rest where "run a (l, r, []) = (l', r', g) # rest"
    and m: "m_text m = rev (take (length l' - length l) l')" "m_start m = length l"
    by (auto simp: match_at_def split: list.splits)
  then have "(l', r', g) \<in> set (run a (l, r, []))" by simp
  from run_ahead [OF this] m show ?thesis by (auto simp: ahead_def)
qed

lemma search_from_parts:
  assumes "search_from a l r = Some (m, l', r')"
  shows "\<exists>u. r = u @ m_text m @ r' \<and> l' = rev (m_text m) @ rev u @ l \<and> m_start m = length l + length u"
  using assms
proof (induction a l r rule: search_from.induct)
  case (1 a l)
  then show ?case using match_at_parts by fastforce
next
  case (2 a l c r)
  show ?case
  proof (cases "match_at a l (c # r)")
    case None
    with 2 obtain u where "r = u @ m_text m @ r'" "l' = rev (m_text m) @ rev u @ c # l"
      "m_start m = length (c # l) + length u" by auto
    then show ?thesis by (intro exI [of _ "c # u"]) simp
  next
    case (Some x)
    with 2 have "match_at a l (c # r) = Some (m, l', r')" by simp
    from match_at_parts [OF this] show ?thesis by (intro exI [of _ "[]"]) simp
  qed
qed

text \<open>The text a search reports stands at the place it reports.\<close>

lemma rx_search_sound:
  assumes "rx_search a s = Some m"
  shows "take (length (m_text m)) (drop (m_start m) s) = m_text m"
proof -
  from assms obtain l' r' where "search_from a [] s = Some (m, l', r')"
    by (auto simp: rx_search_def)
  from search_from_parts [OF this] show ?thesis by auto
qed

text \<open>\<open>a.findall(s)\<close> of a pattern without groups, and of its first group; \<open>a.fullmatch(s)\<close>.\<close>

definition rx_findall :: "rx \<Rightarrow> string \<Rightarrow> string list" where
  "rx_findall a s = map m_text (rx_finditer a s)"

definition rx_findall1 :: "rx \<Rightarrow> string \<Rightarrow> string list" where
  "rx_findall1 a s = map (\<lambda>m. or_empty (group 1 m)) (rx_finditer a s)"

definition rx_fullmatch :: "rx \<Rightarrow> string \<Rightarrow> bool" where
  "rx_fullmatch a s = list_ex (\<lambda>(l, r, g). r = []) (run a ([], s, []))"

definition chars_in :: "string \<Rightarrow> rx" where
  "chars_in cs = Chr (\<lambda>c. c \<in> set cs)"

definition ichars :: "(char \<Rightarrow> bool) \<Rightarrow> rx" where
  "ichars P = Chr (\<lambda>c. P (lower_char c))"

section \<open>The texts of a pattern\<close>

text \<open>
  The texts a pattern can stand for, whatever surrounds them: every way to match crosses such
  a text. Facts about what a pattern accepts follow from this reading of it.
\<close>

primrec spells :: "rx \<Rightarrow> string \<Rightarrow> bool" where
  "spells Eps w \<longleftrightarrow> w = []"
| "spells (Chr P) w \<longleftrightarrow> (\<exists>c. w = [c] \<and> P c)"
| "spells (Seq a b) w \<longleftrightarrow> (\<exists>u v. w = u @ v \<and> spells a u \<and> spells b v)"
| "spells (Alt a b) w \<longleftrightarrow> spells a w \<or> spells b w"
| "spells (Rep m x greedy a) w \<longleftrightarrow>
     (\<exists>us. w = concat us \<and> (\<forall>u \<in> set us. spells a u) \<and> m \<le> length us \<and>
        (case x of None \<Rightarrow> True | Some n \<Rightarrow> length us \<le> max m n))"
| "spells Bol w \<longleftrightarrow> w = []"
| "spells Eol w \<longleftrightarrow> w = []"
| "spells Wordb w \<longleftrightarrow> w = []"
| "spells (Grp k a) w \<longleftrightarrow> spells a w"
| "spells (Look pos a) w \<longleftrightarrow> w = []"
| "spells (Behind pos P) w \<longleftrightarrow> w = []"
| "spells Mbol w \<longleftrightarrow> w = []"

definition crosses :: "(string \<Rightarrow> bool) \<Rightarrow> rx_state \<Rightarrow> rx_state \<Rightarrow> bool" where
  "crosses L st st' \<longleftrightarrow>
     (\<exists>u. fst (snd st) = u @ fst (snd st') \<and> fst st' = rev u @ fst st \<and> L u)"

definition rounds :: "(string \<Rightarrow> bool) \<Rightarrow> nat \<Rightarrow> nat option \<Rightarrow> string \<Rightarrow> bool" where
  "rounds L m x w \<longleftrightarrow>
     (\<exists>us. w = concat us \<and> (\<forall>u \<in> set us. L u) \<and> m \<le> length us \<and>
        (case x of None \<Rightarrow> True | Some n \<Rightarrow> length us \<le> n))"

lemma crosses_trans:
  assumes "crosses L a b" and "crosses M b c"
    and "\<And>u v. L u \<Longrightarrow> M v \<Longrightarrow> N (u @ v)"
  shows "crosses N a c"
proof -
  from assms(1) obtain u where u: "fst (snd a) = u @ fst (snd b)" "fst b = rev u @ fst a" "L u"
    by (auto simp: crosses_def)
  from assms(2) obtain v where v: "fst (snd b) = v @ fst (snd c)" "fst c = rev v @ fst b" "M v"
    by (auto simp: crosses_def)
  from u v assms(3) [OF u(3) v(3)] show ?thesis
    unfolding crosses_def by (intro exI [of _ "u @ v"]) simp
qed

lemma crosses_mono: "crosses L st st' \<Longrightarrow> (\<And>u. L u \<Longrightarrow> M u) \<Longrightarrow> crosses M st st'"
  unfolding crosses_def by blast

lemma rounds_append:
  "rounds L m (Some m) u \<Longrightarrow> rounds L 0 (Some k) v \<Longrightarrow> rounds L m (Some (m + k)) (u @ v)"
proof -
  assume "rounds L m (Some m) u" and "rounds L 0 (Some k) v"
  then obtain us vs where "u = concat us" "\<forall>w \<in> set us. L w" "length us = m"
    and "v = concat vs" "\<forall>w \<in> set vs. L w" "length vs \<le> k" by (auto simp: rounds_def)
  then show ?thesis unfolding rounds_def by (intro exI [of _ "us @ vs"]) auto
qed

lemma rounds_Suc: "L u \<Longrightarrow> rounds L m (Some n) v \<Longrightarrow> rounds L (Suc m) (Some (Suc n)) (u @ v)"
proof -
  assume "L u" and "rounds L m (Some n) v"
  then obtain vs where "v = concat vs" "\<forall>w \<in> set vs. L w" "m \<le> length vs" "length vs \<le> n"
    by (auto simp: rounds_def)
  with \<open>L u\<close> show ?thesis unfolding rounds_def by (intro exI [of _ "u # vs"]) auto
qed

lemma rounds_none [simp]: "rounds L 0 (Some k) []"
  unfolding rounds_def by (intro exI [of _ "[]"]) simp

lemma rounds_mono: "rounds L m (Some n) w \<Longrightarrow> m' \<le> m \<Longrightarrow> n \<le> n' \<Longrightarrow> rounds L m' (Some n') w"
  unfolding rounds_def by fastforce

lemma rep_must_crosses:
  assumes f: "\<And>st st'. st' \<in> set (f st) \<Longrightarrow> crosses L st st'"
  shows "st' \<in> set (rep_must k f st) \<Longrightarrow> crosses (rounds L k (Some k)) st st'"
proof (induction k arbitrary: st)
  case 0
  then show ?case by (simp add: crosses_def)
next
  case (Suc k)
  then obtain st1 where "st1 \<in> set (f st)" and "st' \<in> set (rep_must k f st1)" by auto
  then show ?case by (blast intro: crosses_trans f Suc.IH rounds_Suc)
qed

lemma rep_may_crosses:
  assumes f: "\<And>st st'. st' \<in> set (f st) \<Longrightarrow> crosses L st st'"
  shows "st' \<in> set (rep_may k greedy f st) \<Longrightarrow> crosses (rounds L 0 (Some k)) st st'"
proof (induction k arbitrary: st)
  case 0
  then show ?case by (simp add: crosses_def)
next
  case (Suc k)
  have stay: "crosses (rounds L 0 (Some (Suc k))) st st"
    by (simp add: crosses_def)
  have "crosses (rounds L 0 (Some (Suc k))) st st'"
    if "st1 \<in> set (f st)" and "st' \<in> set (rep_may k greedy f st1)" for st1
    using f [OF that(1)] Suc.IH [OF that(2)]
    by (rule crosses_trans) (blast intro: rounds_mono rounds_Suc)
  with Suc.prems stay show ?case by (auto simp: Let_def split: if_splits)
qed

lemma run_crosses: "st' \<in> set (run a st) \<Longrightarrow> crosses (spells a) st st'"
proof (induction a arbitrary: st st')
  case (Seq a b)
  then obtain st1 where "st1 \<in> set (run a st)" and "st' \<in> set (run b st1)" by auto
  then have "crosses (spells a) st st1" and "crosses (spells b) st1 st'" by (blast intro: Seq.IH)+
  then show ?case by (rule crosses_trans) auto
next
  case (Alt a b)
  from Alt.prems have "st' \<in> set (run a st) \<or> st' \<in> set (run b st)" by simp
  then have "crosses (spells a) st st' \<or> crosses (spells b) st st'" using Alt.IH by blast
  then show ?case by (auto intro: crosses_mono)
next
  case (Rep m x greedy a)
  then obtain st1 n where must: "st1 \<in> set (rep_must m (run a) st)"
    and may: "st' \<in> set (rep_may n greedy (run a) st1)"
    and n: "\<And>k. x = Some k \<Longrightarrow> n = k - m" by auto
  have "crosses (rounds (spells a) m (Some (m + n))) st st'"
    using rep_must_crosses [OF Rep.IH must] rep_may_crosses [OF Rep.IH may]
    by (rule crosses_trans) (auto intro: rounds_append)
  then show ?case
  proof (rule crosses_mono)
    fix w assume "rounds (spells a) m (Some (m + n)) w"
    then obtain us where "w = concat us" "\<forall>u \<in> set us. spells a u" "m \<le> length us" "length us \<le> m + n"
      by (auto simp: rounds_def)
    with n show "spells (Rep m x greedy a) w"
      by (auto split: option.split intro!: exI [of _ us])
  qed
next
  case (Grp k a)
  then obtain l' r' g' where "(l', r', g') \<in> set (run a st)" and "fst st' = l'" "fst (snd st') = r'"
    by (cases st) auto
  with Grp.IH [of "(l', r', g')" st] show ?case by (simp add: crosses_def)
qed (auto simp: crosses_def split: if_splits list.splits)

lemma fullmatch_spells: "rx_fullmatch a s \<Longrightarrow> spells a s"
  by (auto simp: rx_fullmatch_def list_ex_iff crosses_def dest!: run_crosses)

end
