(* ===== verification/Errors.thy ===== *)
theory Errors
  imports Regex
begin

text \<open>
  The error shape of \<open>src/app/errors.py\<close>: the table of codes, the exception the handlers raise
  and the request id every response carries. An exception of the model keeps the code, the
  HTTP status and the \<open>Retry-After\<close> value; the texts for people are left out. Looking up an
  unknown code raises \<open>KeyError\<close> in the source, which is a value of its own here.
\<close>

definition ERROR_CODES :: "(string \<times> int) list" where
  "ERROR_CODES =
     [(''invalid_json'', 400), (''acting_user_required'', 400), (''invalid_acting_user'', 400),
      (''missing_api_key'', 401), (''invalid_api_key'', 401), (''acting_user_not_allowed'', 403),
      (''job_not_found'', 404), (''not_found'', 404), (''method_not_allowed'', 405),
      (''job_not_paused'', 409), (''job_not_retryable'', 409), (''job_already_finished'', 409),
      (''file_too_large'', 413), (''too_many_rows'', 413), (''too_many_columns'', 413),
      (''unsupported_file_type'', 415), (''validation_error'', 422), (''empty_file'', 422),
      (''no_rows'', 422), (''no_website_column'', 422), (''unknown_column'', 422),
      (''invalid_webhook_url'', 422), (''invalid_file'', 422), (''rate_limited'', 429),
      (''job_limit_reached'', 429), (''invalid_request'', 400), (''forbidden'', 403),
      (''acting_user_revoked'', 403), (''conflict'', 409), (''idempotency_conflict'', 409),
      (''internal_error'', 500), (''provider_quota_exhausted'', 503),
      (''service_unavailable'', 503), (''busy'', 503), (''invalid_provider_key'', 422),
      (''key_rate_limited'', 429), (''key_store_unavailable'', 503)]"

definition GENERIC_BY_STATUS :: "(int \<times> string) list" where
  "GENERIC_BY_STATUS =
     [(400, ''invalid_request''), (401, ''invalid_api_key''), (403, ''forbidden''),
      (404, ''not_found''), (405, ''method_not_allowed''), (409, ''conflict''),
      (413, ''file_too_large''), (415, ''unsupported_file_type''), (422, ''validation_error''),
      (429, ''rate_limited''), (500, ''internal_error''), (503, ''service_unavailable'')]"

record api_error =
  ae_code :: string
  ae_status :: int
  ae_retry_after :: "int option"

datatype exn = Api api_error | Key_Error string | Value_Error | Attribute_Error

text \<open>\<open>status = status or ERROR_CODES[code][0]\<close>\<close>

definition ApiError :: "string \<Rightarrow> int option \<Rightarrow> int option \<Rightarrow> exn" where
  "ApiError code retry_after status =
     (case status of
        Some n \<Rightarrow> if n \<noteq> 0 then Api \<lparr>ae_code = code, ae_status = n, ae_retry_after = retry_after\<rparr>
                  else (case map_of ERROR_CODES code of
                          None \<Rightarrow> Key_Error code
                        | Some k \<Rightarrow> Api \<lparr>ae_code = code, ae_status = k, ae_retry_after = retry_after\<rparr>)
      | None \<Rightarrow> (case map_of ERROR_CODES code of
                    None \<Rightarrow> Key_Error code
                  | Some k \<Rightarrow> Api \<lparr>ae_code = code, ae_status = k, ae_retry_after = retry_after\<rparr>))"

abbreviation api :: "string \<Rightarrow> exn" where
  "api code \<equiv> ApiError code None None"

text \<open>An exception a client sees with a code of the table and the status listed for it.\<close>

definition listed :: "exn \<Rightarrow> bool" where
  "listed e = (case e of
     Api a \<Rightarrow> map_of ERROR_CODES (ae_code a) = Some (ae_status a)
   | _ \<Rightarrow> False)"

text \<open>The code \<open>_http_error\<close> gives an exception the framework raised with a status.\<close>

definition http_error_code :: "int \<Rightarrow> string" where
  "http_error_code status =
     (case map_of GENERIC_BY_STATUS status of None \<Rightarrow> ''error'' | Some c \<Rightarrow> c)"

section \<open>Request ids\<close>

definition REQUEST_ID_OK :: rx where
  "REQUEST_ID_OK = seqs [Bol,
     rep 1 64 (Chr (\<lambda>c. is_ascii_letter c \<or> is_digit c \<or> c \<in> set ''_.:-'')), Eol]"

definition request_id :: "string \<Rightarrow> string \<Rightarrow> string" where
  "request_id fresh incoming =
     (if rx_match REQUEST_ID_OK incoming \<noteq> None then incoming else ''req_'' @ take 16 fresh)"

text \<open>\<open>send_with_id\<close> on the headers of the start of a response.\<close>

definition send_with_id :: "string \<Rightarrow> (string \<times> string) list \<Rightarrow> (string \<times> string) list" where
  "send_with_id rid headers =
     filter (\<lambda>h. fst h \<noteq> ''x-request-id'') headers @ [(''x-request-id'', rid)]"

lemma send_with_id_once:
  "map_of (send_with_id rid hs) ''x-request-id'' = Some rid \<and>
   filter (\<lambda>h. fst h = ''x-request-id'') (send_with_id rid hs) = [(''x-request-id'', rid)]"
proof -
  have "''x-request-id'' \<notin> fst ` set (filter (\<lambda>h. fst h \<noteq> ''x-request-id'') hs)" by auto
  then have "map_of (filter (\<lambda>h. fst h \<noteq> ''x-request-id'') hs) ''x-request-id'' = None"
    by (simp only: map_of_eq_None_iff) simp
  then show ?thesis by (simp add: send_with_id_def map_add_def)
qed

lemma api_listed: "map_of ERROR_CODES c \<noteq> None \<Longrightarrow> listed (ApiError c ra None)"
  by (auto simp: listed_def ApiError_def)

end
