(* ===== verification/Auth.thy ===== *)
theory Auth
  imports Models Errors
begin

text \<open>
  Who is calling: \<open>src/app/auth.py\<close>. The hash of a key is a parameter \<open>H\<close> of the functions that
  use it; the uuid and the secret of a new keyless user are arguments, as is whether Redis
  answers. The request counters of Redis are a function from the person and the minute.
\<close>

record principal =
  p_user_id :: "uuid option"
  p_name :: string
  p_is_admin :: bool
  p_via :: "string option"

definition ADMIN :: principal where
  "ADMIN = \<lparr>p_user_id = None, p_name = ''admin'', p_is_admin = True, p_via = None\<rparr>"

definition KEY_PREFIX :: string where "KEY_PREFIX = ''ee_''"
definition MIN_ADMIN_KEY_LEN :: nat where "MIN_ADMIN_KEY_LEN = 32"

text \<open>\<open>^[^@\s]{1,64}@[^@\s]{1,189}\.[A-Za-z]{2,24}$\<close>\<close>

definition EMAIL :: rx where
  "EMAIL = (let part = Chr (\<lambda>c. c \<noteq> CHR ''@'' \<and> \<not> is_space c)
     in seqs [Bol, rep 1 64 part, lit ''@'', rep 1 189 part, lit ''.'', rep 2 24 (Chr is_ascii_letter), Eol])"

text \<open>\<open>^(/jobs(/[^/]+(/recent)?)?|/providers/status)$\<close>\<close>

definition UNLIMITED :: rx where
  "UNLIMITED = seqs [Bol,
     Alt (Seq (lit ''/jobs'') (opt (seqs [lit ''/'', plus (Chr (\<lambda>c. c \<noteq> CHR ''/'')), opt (lit ''/recent'')])))
         (lit ''/providers/status''), Eol]"

record request =
  r_method :: string
  r_path :: string
  r_api_key :: "string option"
  r_acting_user :: "string option"
  r_acting_role :: "string option"

definition admin_key_usable :: "settings \<Rightarrow> bool" where
  "admin_key_usable cfg = (api_key cfg \<noteq> ''change-me'' \<and> length (api_key cfg) \<ge> MIN_ADMIN_KEY_LEN)"

section \<open>Acting for a person\<close>

definition person :: "string \<Rightarrow> user list \<Rightarrow> user option" where
  "person email us =
     order_first (\<lambda>u. (u_name u \<noteq> email, u_revoked_at u \<noteq> None, u_created_at u))
       (filter (\<lambda>u. lower (u_name u) = email) us)"

definition keyless_user :: "time \<Rightarrow> uuid \<Rightarrow> string \<Rightarrow> string \<Rightarrow> user" where
  "keyless_user now i email h = \<lparr>u_id = i, u_name = email, u_key_hash = h, u_is_admin = False,
     u_is_service = False, u_created_at = now, u_revoked_at = None\<rparr>"

text \<open>\<open>ON CONFLICT DO NOTHING\<close> against every unique index of the table.\<close>

definition insert_user :: "user \<Rightarrow> user list \<Rightarrow> user list" where
  "insert_user u us =
     (if \<exists>x \<in> set us. u_id x = u_id u \<or> u_name x = u_name u \<or> u_key_hash x = u_key_hash u \<or>
           lower (u_name x) = lower (u_name u)
      then us else us @ [u])"

definition acting_principal ::
  "(string \<Rightarrow> string) \<Rightarrow> time \<Rightarrow> uuid \<Rightarrow> string \<Rightarrow> string \<Rightarrow> string option \<Rightarrow> string option \<Rightarrow> user list \<Rightarrow>
     user list \<times> (exn + principal)" where
  "acting_principal H now new_id secret service_name email role us =
     (if \<not> truthy email then (us, Inl (api ''acting_user_required''))
      else
        let em = lower (strip (or_empty email)) in
        if rx_match EMAIL em = None then (us, Inl (api ''invalid_acting_user''))
        else
          let us' = (if person em us = None
                     then insert_user (keyless_user now new_id em (H (''acting:'' @ secret))) us
                     else us)
          in (us', case person em us' of
                None \<Rightarrow> Inl Attribute_Error
              | Some p \<Rightarrow>
                  if u_revoked_at p \<noteq> None then Inl (api ''acting_user_revoked'')
                  else Inr \<lparr>p_user_id = Some (u_id p), p_name = em,
                            p_is_admin = (lower (or_empty role) = ''admin''),
                            p_via = Some service_name\<rparr>))"

section \<open>The rate limit\<close>

type_synonym counters = "uuid option \<times> int \<Rightarrow> nat"

definition rate_limit ::
  "settings \<Rightarrow> bool \<Rightarrow> time \<Rightarrow> request \<Rightarrow> principal \<Rightarrow> counters \<Rightarrow> counters \<times> exn option" where
  "rate_limit cfg up now req who cs =
     (let limit = rate_limit_per_minute cfg in
      if limit = 0 \<or> p_is_admin who \<and> p_via who = None then (cs, None)
      else if r_method req = ''GET'' \<and> rx_match UNLIMITED (r_path req) \<noteq> None then (cs, None)
      else if \<not> up then (cs, None)
      else
        let key = (p_user_id who, \<lfloor>now / 60\<rfloor>);
            count = Suc (cs key)
        in (cs(key := count),
            if int count > limit
            then Some (ApiError ''rate_limited'' (Some (60 - \<lfloor>now - 60 * of_int \<lfloor>now / 60\<rfloor>\<rfloor>)) None)
            else None))"

section \<open>Who is calling\<close>

record auth_state =
  users :: "user list"
  counts :: counters

definition require_api_key ::
  "settings \<Rightarrow> (string \<Rightarrow> string) \<Rightarrow> bool \<Rightarrow> time \<Rightarrow> uuid \<Rightarrow> string \<Rightarrow> request \<Rightarrow> auth_state \<Rightarrow>
     auth_state \<times> (exn + principal)" where
  "require_api_key cfg H up now new_id secret req s =
     (let key = or_empty (r_api_key req);
          acting = truthy (r_acting_user req) \<or> truthy (r_acting_role req)
      in
      if key = [] then (s, Inl (api ''missing_api_key''))
      else if admin_key_usable cfg \<and> key = api_key cfg then
        (s, if acting then Inl (api ''acting_user_not_allowed'') else Inr ADMIN)
      else if \<not> list_all is_ascii key \<or> \<not> startswith KEY_PREFIX key then (s, Inl (api ''invalid_api_key''))
      else
        case find (\<lambda>u. u_key_hash u = H key \<and> u_revoked_at u = None) (users s) of
          None \<Rightarrow> (s, Inl (api ''invalid_api_key''))
        | Some u \<Rightarrow>
            let (us, res) =
              (if \<not> u_is_service u then
                 (users s, if acting then Inl (api ''acting_user_not_allowed'')
                           else Inr \<lparr>p_user_id = Some (u_id u), p_name = u_name u,
                                     p_is_admin = u_is_admin u, p_via = None\<rparr>)
               else acting_principal H now new_id secret (u_name u) (r_acting_user req)
                      (r_acting_role req) (users s))
            in case res of
                 Inl e \<Rightarrow> (s\<lparr>users := us\<rparr>, Inl e)
               | Inr who \<Rightarrow>
                   let (cs, refused) = rate_limit cfg up now req who (counts s)
                   in (s\<lparr>users := us, counts := cs\<rparr>,
                       case refused of Some e \<Rightarrow> Inl e | None \<Rightarrow> Inr who))"

end
