(* ===== verification/Auth_Props.thy ===== *)
theory Auth_Props
  imports Auth
begin

text \<open>
  What authentication guarantees: who a request can end up acting as, that the keyless rows
  made for people a service acts for can never log in, and that the rate limit admits exactly
  the first requests of a minute.
\<close>

section \<open>People\<close>

lemma person_SomeD:
  assumes "person em us = Some p"
  shows "p \<in> set us \<and> lower (u_name p) = em"
  using order_first_Some(1) [OF assms [unfolded person_def]] by auto

lemma person_None: "person em us = None \<longleftrightarrow> (\<forall>u \<in> set us. lower (u_name u) \<noteq> em)"
  by (auto simp: person_def filter_empty_conv)

lemma set_insert_user: "set us \<subseteq> set (insert_user u us)" "set (insert_user u us) \<subseteq> insert u (set us)"
  by (auto simp: insert_user_def)

lemma acting_principal_InrD:
  assumes "acting_principal H now i sec sv email role us = (us', Inr who)"
  shows "truthy email \<and> p_via who = Some sv \<and>
    (\<exists>p \<in> set us'. u_revoked_at p = None \<and> p_user_id who = Some (u_id p) \<and> lower (u_name p) = p_name who) \<and>
    (p_is_admin who \<longleftrightarrow> lower (or_empty role) = ''admin'')"
  using assms
  by (auto simp: acting_principal_def Let_def split: if_splits option.splits dest!: person_SomeD)

lemma acting_principal_users:
  assumes "acting_principal H now i sec sv email role us = (us', r)"
  shows "us' = us \<or> (\<exists>em. us' = us @ [keyless_user now i em (H (''acting:'' @ sec))])"
  using assms by (auto simp: acting_principal_def Let_def insert_user_def split: if_splits)

section \<open>Who a request acts as\<close>

text \<open>
  C30: Nobody is let in who should not be. A request that passes is either the bootstrap
  admin key, usable (not the placeholder, at least 32 characters) and sent without acting
  headers; or it carries the key of a user who is not revoked. In the second case an ordinary
  key gives that user and no acting header was sent, and a service key gives the person named
  in the header, who has a row and is not revoked; the admin flag is the user's own or the one
  the service asked for in the role header.
\<close>

theorem require_api_key_sound:
  assumes "require_api_key cfg H up now i sec req s = (s', Inr who)"
  shows "(who = ADMIN \<and> r_api_key req = Some (api_key cfg) \<and> api_key cfg \<noteq> ''change-me'' \<and>
      32 \<le> length (api_key cfg) \<and> \<not> truthy (r_acting_user req) \<and> \<not> truthy (r_acting_role req)) \<or>
    (\<exists>key u. r_api_key req = Some key \<and> startswith ''ee_'' key \<and> u \<in> set (users s) \<and>
      u_key_hash u = H key \<and> u_revoked_at u = None \<and>
      (if u_is_service u
       then p_via who = Some (u_name u) \<and> truthy (r_acting_user req) \<and>
         (\<exists>p \<in> set (users s'). u_revoked_at p = None \<and> p_user_id who = Some (u_id p) \<and>
            lower (u_name p) = p_name who) \<and>
         (p_is_admin who \<longleftrightarrow> lower (or_empty (r_acting_role req)) = ''admin'')
       else who = \<lparr>p_user_id = Some (u_id u), p_name = u_name u, p_is_admin = u_is_admin u, p_via = None\<rparr> \<and>
         \<not> truthy (r_acting_user req) \<and> \<not> truthy (r_acting_role req)))"
proof (cases "r_api_key req")
  case None
  with assms show ?thesis by (simp add: require_api_key_def)
next
  case (Some key)
  show ?thesis
  proof (cases "admin_key_usable cfg \<and> key = api_key cfg")
    case True
    with assms Some show ?thesis
      by (auto simp: require_api_key_def Let_def admin_key_usable_def MIN_ADMIN_KEY_LEN_def split: if_splits)
  next
    case False
    with assms Some obtain u where
      u: "find (\<lambda>u. u_key_hash u = H key \<and> u_revoked_at u = None) (users s) = Some u"
      and p: "startswith ''ee_'' key" "key \<noteq> []"
      by (auto simp: require_api_key_def Let_def KEY_PREFIX_def split: if_splits option.splits)
    have mem: "u \<in> set (users s)" "u_key_hash u = H key" "u_revoked_at u = None"
      using u by (auto simp: find_Some_iff in_set_conv_nth)
    have "if u_is_service u
       then p_via who = Some (u_name u) \<and> truthy (r_acting_user req) \<and>
         (\<exists>p \<in> set (users s'). u_revoked_at p = None \<and> p_user_id who = Some (u_id p) \<and>
            lower (u_name p) = p_name who) \<and>
         (p_is_admin who \<longleftrightarrow> lower (or_empty (r_acting_role req)) = ''admin'')
       else who = \<lparr>p_user_id = Some (u_id u), p_name = u_name u, p_is_admin = u_is_admin u, p_via = None\<rparr> \<and>
         \<not> truthy (r_acting_user req) \<and> \<not> truthy (r_acting_role req)"
      using assms Some False u p
      by (auto simp: require_api_key_def Let_def KEY_PREFIX_def
          split: if_splits option.splits prod.splits sum.splits dest!: acting_principal_InrD)
    with Some p mem show ?thesis by blast
  qed
qed

section \<open>Keyless rows\<close>

text \<open>
  A row made on the fly for a person a service acts for cannot be logged in with. If the
  hash does not collide, no key the API accepts hashes to the secret of such a row: a user row
  that a request adds is never the one a later key is looked up as.
\<close>

theorem keyless_never_logs_in:
  assumes "inj H" and "require_api_key cfg H up now i sec req s = (s', r)"
    and "u \<in> set (users s')" and "u \<notin> set (users s)" and "startswith KEY_PREFIX key"
  shows "u_key_hash u \<noteq> H key \<and> \<not> u_is_admin u \<and> \<not> u_is_service u"
proof -
  have "users s' = users s \<or> (\<exists>em. users s' = users s @ [keyless_user now i em (H (''acting:'' @ sec))])"
    using assms(2)
    by (auto simp: require_api_key_def Let_def
        split: if_splits option.splits prod.splits sum.splits dest!: acting_principal_users)
  with assms(3,4) obtain em where u: "u = keyless_user now i em (H (''acting:'' @ sec))" by auto
  have "''acting:'' @ sec \<noteq> key"
    using assms(5) by (auto simp: startswith_iff KEY_PREFIX_def)
  with assms(1) u show ?thesis by (auto simp: keyless_user_def dest: injD)
qed

section \<open>The rate limit\<close>

fun rate_run ::
  "settings \<Rightarrow> principal \<Rightarrow> (time \<times> request) list \<Rightarrow> counters \<Rightarrow> exn option list" where
  "rate_run cfg who [] cs = []"
| "rate_run cfg who ((now, req) # rs) cs =
     (let (cs', v) = rate_limit cfg True now req who cs in v # rate_run cfg who rs cs')"

definition counted :: "settings \<Rightarrow> principal \<Rightarrow> request \<Rightarrow> bool" where
  "counted cfg who req \<longleftrightarrow> rate_limit_per_minute cfg \<noteq> 0 \<and> \<not> (p_is_admin who \<and> p_via who = None) \<and>
     \<not> (r_method req = ''GET'' \<and> rx_match UNLIMITED (r_path req) \<noteq> None)"

lemma rate_run_nth:
  assumes "\<forall>(now, req) \<in> set rs. \<lfloor>now / 60\<rfloor> = w \<and> counted cfg who req" and "k < length rs"
  shows "rate_run cfg who rs cs ! k = None \<longleftrightarrow>
    int (cs (p_user_id who, w)) + int k < rate_limit_per_minute cfg"
  using assms
proof (induction rs arbitrary: cs k)
  case (Cons x rs)
  obtain now req where x: "x = (now, req)" by force
  let ?cs = "cs((p_user_id who, w) := Suc (cs (p_user_id who, w)))"
  have now: "\<lfloor>now / 60\<rfloor> = w" and c: "counted cfg who req" using Cons.prems x by auto
  have run: "rate_run cfg who (x # rs) cs =
      snd (rate_limit cfg True now req who cs) # rate_run cfg who rs ?cs"
    using now c by (auto simp: x rate_limit_def Let_def counted_def)
  show ?case
  proof (cases k)
    case 0
    with run now c show ?thesis by (auto simp: rate_limit_def Let_def counted_def)
  next
    case (Suc n)
    have "rate_run cfg who rs ?cs ! n = None \<longleftrightarrow>
        int (?cs (p_user_id who, w)) + int n < rate_limit_per_minute cfg"
      by (rule Cons.IH) (use Cons.prems Suc in auto)
    moreover have "?cs (p_user_id who, w) = Suc (cs (p_user_id who, w))" by simp
    ultimately show ?thesis unfolding run Suc nth_Cons_Suc by (simp add: algebra_simps)
  qed
qed simp


section \<open>Sample calls\<close>

definition s_user :: user where
  "s_user = \<lparr>u_id = 7, u_name = ''portal'', u_key_hash = ''ee_k'', u_is_admin = False,
     u_is_service = True, u_created_at = 0, u_revoked_at = None\<rparr>"

definition s_auth :: auth_state where
  "s_auth = \<lparr>users = [s_user], counts = (\<lambda>_. 0)\<rparr>"

definition s_req :: request where
  "s_req = \<lparr>r_method = ''POST'', r_path = ''/jobs'', r_api_key = Some ''ee_k'',
     r_acting_user = Some '' Bob@x.com'', r_acting_role = None\<rparr>"

definition s_who :: principal where
  "s_who = \<lparr>p_user_id = Some 9, p_name = ''bob@x.com'', p_is_admin = False, p_via = Some ''portal''\<rparr>"

lemma s_auth_ok: "snd (require_api_key settings_default id True 30 9 ''z'' s_req s_auth) = Inr s_who"
  by code_simp

lemma s_auth_users:
  "users (fst (require_api_key settings_default id True 30 9 ''z'' s_req s_auth)) =
     [s_user, keyless_user 30 9 ''bob@x.com'' ''acting:z'']"
  by code_simp

theorem require_api_key_sound_witness:
  "\<exists>s'. require_api_key settings_default id True 30 9 ''z'' s_req s_auth = (s', Inr s_who) \<and>
     (\<exists>u \<in> set (users s_auth). u_key_hash u = ''ee_k'' \<and> u_revoked_at u = None)"
proof -
  obtain s' where s': "require_api_key settings_default id True 30 9 ''z'' s_req s_auth = (s', Inr s_who)"
    using s_auth_ok by (metis prod.collapse)
  have "s_who \<noteq> ADMIN" by (simp add: s_who_def ADMIN_def)
  with require_api_key_sound [OF s'] s' show ?thesis by (auto simp: s_req_def)
qed

theorem keyless_never_logs_in_witness:
  "u_key_hash (keyless_user 30 9 ''bob@x.com'' ''acting:z'') \<noteq> id ''ee_any''"
proof -
  have k: "startswith KEY_PREFIX ''ee_any''" by code_simp
  obtain s' r where s': "require_api_key settings_default id True 30 9 ''z'' s_req s_auth = (s', r)"
    by (metis prod.exhaust)
  have m: "keyless_user 30 9 ''bob@x.com'' ''acting:z'' \<in> set (users s')"
    "keyless_user 30 9 ''bob@x.com'' ''acting:z'' \<notin> set (users s_auth)"
    using s_auth_users s' by (simp_all add: s_auth_def s_user_def keyless_user_def)
  show ?thesis using keyless_never_logs_in [OF inj_on_id s' m k] by simp
qed


end
