(* ===== verification/Job_Api.thy ===== *)
theory Job_Api
  imports Job_Store Auth
begin

text \<open>
  The job endpoints of \<open>src/app/main.py\<close>. A handler is a function of the database and the
  caller; each of its transactions is a function of its own, and the handler composes them in
  the order of the source. The parsing of a request body and the rendering of the reply are
  left out: a handler takes the parsed request and returns the values the reply is built from.
  Where a handler runs a second transaction, the time of that one is an argument (\<open>later\<close>).
\<close>

definition MAX_ITEMS_PER_JOB :: int where "MAX_ITEMS_PER_JOB = 50000"
definition IDEMPOTENCY_KEY_MAX :: nat where "IDEMPOTENCY_KEY_MAX = 200"

definition ACTIVE_STATUSES :: "job_status list" where
  "ACTIVE_STATUSES = [JQueued, JRunning, JPaused]"

section \<open>Reading a job\<close>

text \<open>The id of the path is \<open>None\<close> when it is not a uuid.\<close>

definition get_job :: "uuid option \<Rightarrow> principal \<Rightarrow> db \<Rightarrow> exn + job" where
  "get_job job_id who d =
     (case job_id of
        None \<Rightarrow> Inl (api ''job_not_found'')
      | Some i \<Rightarrow>
          (case find (\<lambda>x. j_id x = i) (jobs d) of
             None \<Rightarrow> Inl (api ''job_not_found'')
           | Some x \<Rightarrow>
               if p_is_admin who \<or> j_owner_id x = p_user_id who then Inr x
               else Inl (api ''job_not_found'')))"

definition list_jobs :: "principal \<Rightarrow> db \<Rightarrow> job list" where
  "list_jobs who d =
     take 50 (sort_key (\<lambda>x. - j_created_at x)
       (filter (\<lambda>x. p_is_admin who \<or> j_owner_id x = p_user_id who \<and> p_user_id who \<noteq> None) (jobs d)))"

definition current_status :: "uuid \<Rightarrow> db \<Rightarrow> job_status option" where
  "current_status j d = map_option j_status (find (\<lambda>x. j_id x = j) (jobs d))"

text \<open>\<open>_active_seconds\<close>: from the first claim to the end or now, minus the pauses.\<close>

definition pause_open :: "time \<Rightarrow> job \<Rightarrow> rat" where
  "pause_open now x =
     (case (j_paused_at x, j_started_at x) of
        (Some p, Some s) \<Rightarrow> now - max p s | _ \<Rightarrow> 0)"

definition active_seconds :: "time \<Rightarrow> job \<Rightarrow> rat option" where
  "active_seconds now x =
     (case j_started_at x of
        None \<Rightarrow> None
      | Some s \<Rightarrow>
          Some (max 0 ((case j_finished_at x of Some f \<Rightarrow> f | None \<Rightarrow> now) - s - j_paused_seconds x
            - (if j_paused_at x \<noteq> None \<and> j_finished_at x = None then pause_open now x else 0))))"

section \<open>Changing a job\<close>

definition transition_job :: "time \<Rightarrow> job_status \<Rightarrow> string option \<Rightarrow> job \<Rightarrow> job" where
  "transition_job now new reason x = x\<lparr>j_status := new, j_pause_reason := reason,
     j_paused_seconds := j_paused_seconds x + pause_open now x, j_paused_at := None,
     j_finished_at :=
       (if new = JCancelled then (case j_finished_at x of Some f \<Rightarrow> Some f | None \<Rightarrow> Some now)
        else j_finished_at x)\<rparr>"

definition transition ::
  "time \<Rightarrow> uuid \<Rightarrow> job_status list \<Rightarrow> job_status \<Rightarrow> string option \<Rightarrow> db \<Rightarrow> db \<times> job_status option" where
  "transition now j allowed new reason d =
     (let hit = (\<lambda>x. j_id x = j \<and> j_status x \<in> set allowed)
      in (d\<lparr>jobs := upd_where hit (transition_job now new reason) (jobs d)\<rparr>,
          if \<exists>x \<in> set (jobs d). hit x then Some new else None))"

definition retry_job :: "time \<Rightarrow> uuid option \<Rightarrow> principal \<Rightarrow> db \<Rightarrow> db \<times> (exn + nat \<times> job_status option)" where
  "retry_job now job_id who d =
     (case get_job job_id who d of
        Inl e \<Rightarrow> (d, Inl e)
      | Inr x \<Rightarrow>
          if current_status (j_id x) d \<in> {Some JPaused, Some JCancelled}
          then (d, Inl (api ''job_not_retryable''))
          else let (d', n) = requeue_failed now (j_id x) d
               in (d', Inr (n, current_status (j_id x) d')))"

definition resume_job :: "time \<Rightarrow> time \<Rightarrow> uuid option \<Rightarrow> principal \<Rightarrow> db \<Rightarrow> db \<times> (exn + job_status option)" where
  "resume_job now later job_id who d =
     (case get_job job_id who d of
        Inl e \<Rightarrow> (d, Inl e)
      | Inr x \<Rightarrow>
          (case transition now (j_id x) [JPaused] JRunning None d of
             (d1, None) \<Rightarrow> (d1, Inl (api ''job_not_paused''))
           | (d1, Some _) \<Rightarrow>
               let d2 = fst (complete_if_finished later (j_id x) d1)
               in (d2, Inr (current_status (j_id x) d2))))"

definition cancel_job :: "time \<Rightarrow> uuid option \<Rightarrow> principal \<Rightarrow> db \<Rightarrow> db \<times> (exn + job_status)" where
  "cancel_job now job_id who d =
     (case get_job job_id who d of
        Inl e \<Rightarrow> (d, Inl e)
      | Inr x \<Rightarrow>
          (case transition now (j_id x) ACTIVE_STATUSES JCancelled None d of
             (d1, None) \<Rightarrow> (d1, Inl (api ''job_already_finished''))
           | (d1, Some _) \<Rightarrow> (d1, Inr JCancelled)))"

definition resume_job_row :: "time \<Rightarrow> job \<Rightarrow> job" where
  "resume_job_row now x = x\<lparr>j_status := JRunning, j_pause_reason := None,
     j_paused_seconds := j_paused_seconds x + pause_open now x, j_paused_at := None\<rparr>"

definition resume_paused_for :: "time \<Rightarrow> (uuid \<Rightarrow> time) \<Rightarrow> string \<Rightarrow> db \<Rightarrow> db \<times> nat" where
  "resume_paused_for now later reason d =
     (let hit = (\<lambda>x. j_status x = JPaused \<and> j_pause_reason x = Some reason);
          ids = map j_id (filter hit (jobs d));
          d1 = d\<lparr>jobs := upd_where hit (resume_job_row now) (jobs d)\<rparr>
      in (fold (\<lambda>j e. fst (complete_if_finished (later j) j e)) ids d1, length ids))"

section \<open>Creating a job\<close>

record new_request =
  nr_items :: "prepared_item list"
  nr_columns :: "string list"
  nr_filename :: "string option"
  nr_chosen :: "string option"
  nr_webhook_url :: "string option"
  nr_fresh :: bool
  nr_key :: "string option"
  nr_fingerprint :: string

record create_reply =
  cr_job_id :: uuid
  cr_total :: nat
  cr_unique_domains :: nat
  cr_cached :: nat
  cr_queued :: int
  cr_replayed :: bool

definition replay :: "principal \<Rightarrow> string \<Rightarrow> string \<Rightarrow> db \<Rightarrow> exn + create_reply option" where
  "replay who key fingerprint d =
     (case find (\<lambda>x. j_idempotency_key x = Some key \<and> j_owner_id x = p_user_id who) (jobs d) of
        None \<Rightarrow> Inr None
      | Some x \<Rightarrow>
          if truthy (j_idempotency_fingerprint x) \<and> j_idempotency_fingerprint x \<noteq> Some fingerprint
          then Inl (api ''idempotency_conflict'')
          else let t = job_counts (j_id x) d
               in Inr (Some \<lparr>cr_job_id = j_id x, cr_total = n_total t,
                    cr_unique_domains = n_unique_domains t, cr_cached = n_cached t,
                    cr_queued = int (n_unique_domains t) - int (n_cached t), cr_replayed = True\<rparr>))"

definition active_jobs :: "principal \<Rightarrow> db \<Rightarrow> nat" where
  "active_jobs who d =
     count_where (\<lambda>x. j_owner_id x = p_user_id who \<and> p_user_id who \<noteq> None \<and>
       j_status x \<in> set ACTIVE_STATUSES) (jobs d)"

text \<open>The call of \<open>jobs_svc.create_job\<close> and the reply built from what it returns.\<close>

definition create_request :: "principal \<Rightarrow> new_request \<Rightarrow> job_request" where
  "create_request who rq = \<lparr>rq_source_columns = nr_columns rq, rq_filename = nr_filename rq,
     rq_website_column = nr_chosen rq, rq_webhook_url = nr_webhook_url rq,
     rq_fresh = nr_fresh rq, rq_owner_id = p_user_id who, rq_idempotency_key = nr_key rq,
     rq_idempotency_fingerprint = (if truthy (nr_key rq) then Some (nr_fingerprint rq) else None)\<rparr>"

definition create_new ::
  "settings \<Rightarrow> time \<Rightarrow> time \<Rightarrow> uuid \<Rightarrow> principal \<Rightarrow> new_request \<Rightarrow> db \<Rightarrow> db \<times> create_reply" where
  "create_new cfg now clock new_id who rq d =
     (let (d', jb, to_run, cached) =
        create_job cfg now clock new_id (nr_items rq) (create_request who rq) d
      in (d', \<lparr>cr_job_id = j_id jb, cr_total = length (nr_items rq),
               cr_unique_domains = length to_run + length cached, cr_cached = length cached,
               cr_queued = int (length to_run), cr_replayed = False\<rparr>))"

text \<open>
  The part of \<open>_create_job\<close> after the body is parsed. The whole of it runs under the person's
  advisory lock and in one transaction, so it is one step; \<open>webhook_ok\<close> stands for the check of
  the webhook's address.
\<close>

definition create_job_for ::
  "settings \<Rightarrow> (string option \<Rightarrow> bool) \<Rightarrow> time \<Rightarrow> time \<Rightarrow> uuid \<Rightarrow> principal \<Rightarrow> new_request \<Rightarrow> db \<Rightarrow>
     db \<times> (exn + create_reply)" where
  "create_job_for cfg webhook_ok now clock new_id who rq d =
     (if int (length (nr_items rq)) > MAX_ITEMS_PER_JOB then (d, Inl (api ''too_many_rows''))
      else if nr_items rq = [] then (d, Inl (api ''no_rows''))
      else if (case nr_key rq of None \<Rightarrow> False
               | Some k \<Rightarrow> \<not> (0 < length k \<and> length k \<le> IDEMPOTENCY_KEY_MAX))
      then (d, Inl (api ''validation_error''))
      else
        case (if truthy (nr_key rq) then replay who (or_empty (nr_key rq)) (nr_fingerprint rq) d else Inr None) of
          Inl e \<Rightarrow> (d, Inl e)
        | Inr (Some r) \<Rightarrow> (d, Inr r)
        | Inr None \<Rightarrow>
            if \<not> webhook_ok (nr_webhook_url rq) then (d, Inl (api ''invalid_webhook_url''))
            else if \<not> p_is_admin who \<and> int (active_jobs who d) \<ge> max_active_jobs_per_user cfg
            then (d, Inl (api ''job_limit_reached''))
            else
              let (d', r) = create_new cfg now clock new_id who rq d in (d', Inr r))"

section \<open>Estimates\<close>

definition MIN_SAMPLE :: nat where "MIN_SAMPLE = 30"

text \<open>\<open>_RATE\<close>: fetched rows of the last 15 minutes and the seconds they span.\<close>

definition recent_fetches :: "time \<Rightarrow> db \<Rightarrow> time list" where
  "recent_fetches now d =
     map (the \<circ> jd_finished_at) (filter (\<lambda>r. jd_state r = Done \<and> \<not> jd_from_cache r \<and>
       (case jd_finished_at r of None \<Rightarrow> False | Some f \<Rightarrow> f \<ge> now - 15 * 60)) (job_domains d))"

definition span_s :: "time list \<Rightarrow> rat" where
  "span_s ts = (case ts of [] \<Rightarrow> 0 | _ \<Rightarrow> Max (set ts) - Min (set ts))"

definition others_running :: "principal \<Rightarrow> db \<Rightarrow> nat" where
  "others_running who d =
     card (set (map j_owner_id (filter (\<lambda>x. j_status x \<in> {JQueued, JRunning} \<and>
       j_owner_id x \<noteq> p_user_id who \<and> (\<exists>q \<in> set (job_domains d). unfinished (j_id x) q)) (jobs d))))"

record estimate_reply =
  es_basis_recent :: bool
  es_total_rate :: rat
  es_my_rate :: rat
  es_people :: nat
  es_low :: "int option"
  es_high :: "int option"

definition estimate :: "settings \<Rightarrow> time \<Rightarrow> int \<Rightarrow> principal \<Rightarrow> db \<Rightarrow> exn + estimate_reply" where
  "estimate cfg now n who d =
     (if n < 0 \<or> n > MAX_ITEMS_PER_JOB then Inl (api ''validation_error'')
      else
        let ts = recent_fetches now d; fetched = length ts;
            others = others_running who d;
            recent = fetched \<ge> MIN_SAMPLE;
            total_rate = (if recent then of_nat fetched / max 1 (span_s ts / 60)
                          else typical_domains_per_minute cfg);
            my_rate = total_rate / of_nat (others + 1);
            minutes = (if my_rate > 0 then Some (of_int n / my_rate) else None)
        in Inr \<lparr>es_basis_recent = recent, es_total_rate = total_rate, es_my_rate = my_rate,
             es_people = others,
             es_low = map_option (\<lambda>m. py_round (m * 60 * (7 / 10))) minutes,
             es_high = map_option (\<lambda>m. py_round (m * 60 * (14 / 10))) minutes\<rparr>)"

section \<open>Provider keys\<close>

definition KEY_CHANGES_PER_MINUTE :: nat where "KEY_CHANGES_PER_MINUTE = 10"

definition limit_key_changes ::
  "time \<Rightarrow> principal \<Rightarrow> (string \<Rightarrow> time list) \<Rightarrow> (string \<Rightarrow> time list) \<times> exn option" where
  "limit_key_changes now who kc =
     (let recent = filter (\<lambda>t. now - t < 60) (kc (p_name who))
      in if length recent \<ge> KEY_CHANGES_PER_MINUTE
         then (kc, Some (ApiError ''key_rate_limited'' (Some (\<lfloor>60 - (now - hd recent)\<rfloor> + 1)) None))
         else (kc(p_name who := recent @ [now]), None))"

end
