(* ===== verification/Job_Api_Props.thy ===== *)
theory Job_Api_Props
  imports Job_Api Job_Store_Props Queue_Props
begin

text \<open>
  What the job endpoints guarantee: they keep the invariant of the queue, show a job to nobody
  but its owner and admins, replay a repeated creation, never make a job's active time jump,
  and complete a job that had nothing left to do when it is resumed.
\<close>

section \<open>The invariant\<close>

interpretation resume_st: job_statement rs "\<lambda>x. j_id x = j \<and> j_status x \<in> set [JPaused]"
  "transition_job now JRunning reason" for rs j now reason
  by unfold_locales (auto simp: transition_job_def job_ok_def)

interpretation cancel_st: job_statement rs "\<lambda>x. j_id x = j \<and> j_status x \<in> set ACTIVE_STATUSES"
  "transition_job now JCancelled reason" for rs j now reason
  by unfold_locales (auto simp: transition_job_def job_ok_def ACTIVE_STATUSES_def split: option.splits)

interpretation resume_for_st: job_statement rs "\<lambda>x. j_status x = JPaused \<and> j_pause_reason x = Some reason"
  "resume_job_row now" for rs reason now
  by unfold_locales (auto simp: resume_job_row_def job_ok_def)

lemma transition_resume_inv [inv_intros]:
  "db_inv d \<Longrightarrow> db_inv (fst (transition now j [JPaused] JRunning reason d))"
  by (simp add: transition_def Let_def resume_st.db_kept [OF _ refl, simplified])

lemma transition_cancel_inv [inv_intros]:
  "db_inv d \<Longrightarrow> db_inv (fst (transition now j ACTIVE_STATUSES JCancelled reason d))"
  by (simp add: transition_def Let_def cancel_st.db_kept [OF _ refl])

lemma fold_complete_inv:
  "db_inv d \<Longrightarrow> db_inv (fold (\<lambda>j e. fst (complete_if_finished (t j) j e)) js d)"
  by (induction js arbitrary: d) (auto intro: inv_intros)

lemma resume_paused_for_inv [inv_intros]:
  "db_inv d \<Longrightarrow> db_inv (fst (resume_paused_for now later reason d))"
  by (simp add: resume_paused_for_def Let_def fold_complete_inv resume_for_st.db_kept [OF _ refl])

lemma retry_job_inv [inv_intros]: "db_inv d \<Longrightarrow> db_inv (fst (retry_job now i who d))"
  using requeue_failed_inv by (auto simp: retry_job_def split: sum.splits prod.splits) (metis fst_conv)

lemma resume_job_inv [inv_intros]: "db_inv d \<Longrightarrow> db_inv (fst (resume_job now later i who d))"
  using transition_resume_inv complete_if_finished_inv
  by (auto simp: resume_job_def Let_def split: sum.splits prod.splits option.splits) (metis fst_conv)+

lemma cancel_job_inv [inv_intros]: "db_inv d \<Longrightarrow> db_inv (fst (cancel_job now i who d))"
  using transition_cancel_inv
  by (auto simp: cancel_job_def split: sum.splits prod.splits option.splits) (metis fst_conv)+

text \<open>A creation is refused, replayed or carried out; only the last changes the database.\<close>

lemma create_job_for_cases:
  obtains (refused) e where "create_job_for cfg ok now clock j who rq d = (d, Inl e)"
  | (replayed) r where "create_job_for cfg ok now clock j who rq d = (d, Inr r)"
      "truthy (nr_key rq)" "replay who (or_empty (nr_key rq)) (nr_fingerprint rq) d = Inr (Some r)"
  | (created) "create_job_for cfg ok now clock j who rq d =
        (fst (create_new cfg now clock j who rq d), Inr (snd (create_new cfg now clock j who rq d)))"
      "truthy (nr_key rq) \<longrightarrow> replay who (or_empty (nr_key rq)) (nr_fingerprint rq) d = Inr None"
      "nr_items rq \<noteq> []" "int (length (nr_items rq)) \<le> MAX_ITEMS_PER_JOB"
      "p_is_admin who \<or> int (active_jobs who d) < max_active_jobs_per_user cfg"
      "\<And>k. nr_key rq = Some k \<Longrightarrow> 0 < length k \<and> length k \<le> IDEMPOTENCY_KEY_MAX"
      "ok (nr_webhook_url rq)"
proof -
  let ?r = "create_job_for cfg ok now clock j who rq d"
  let ?rep = "if truthy (nr_key rq) then replay who (or_empty (nr_key rq)) (nr_fingerprint rq) d else Inr None"
  let ?bad = "case nr_key rq of None \<Rightarrow> False
      | Some k \<Rightarrow> \<not> (0 < length k \<and> length k \<le> IDEMPOTENCY_KEY_MAX)"
  obtain rep where rep: "?rep = rep" by blast
  have bad: "(\<not> ?bad) \<longrightarrow> (\<forall>k. nr_key rq = Some k \<longrightarrow> 0 < length k \<and> length k \<le> IDEMPOTENCY_KEY_MAX)"
    by (simp split: option.splits)
  have "(\<exists>e. ?r = (d, Inl e)) \<or> (\<exists>r. ?r = (d, Inr r) \<and> rep = Inr (Some r)) \<or>
      ?r = (fst (create_new cfg now clock j who rq d), Inr (snd (create_new cfg now clock j who rq d))) \<and>
       rep = Inr None \<and> nr_items rq \<noteq> [] \<and> int (length (nr_items rq)) \<le> MAX_ITEMS_PER_JOB \<and>
       (p_is_admin who \<or> int (active_jobs who d) < max_active_jobs_per_user cfg) \<and>
       \<not> ?bad \<and> ok (nr_webhook_url rq)"
    unfolding create_job_for_def rep
    by (cases ?bad; cases rep) (auto simp: split_def Let_def simp del: option.case split: option.splits)
  then consider (a) e where "?r = (d, Inl e)" | (b) r where "?r = (d, Inr r)" "rep = Inr (Some r)"
    | (c) "?r = (fst (create_new cfg now clock j who rq d), Inr (snd (create_new cfg now clock j who rq d)))"
      "rep = Inr None" "nr_items rq \<noteq> []" "int (length (nr_items rq)) \<le> MAX_ITEMS_PER_JOB"
      "p_is_admin who \<or> int (active_jobs who d) < max_active_jobs_per_user cfg" "\<not> ?bad" "ok (nr_webhook_url rq)"
    by blast
  then show thesis
  proof cases
    case a
    then show thesis by (rule refused)
  next
    case b
    then show thesis using rep by (intro replayed [of r]) (auto split: if_splits)
  next
    case c
    then have "truthy (nr_key rq) \<longrightarrow> replay who (or_empty (nr_key rq)) (nr_fingerprint rq) d = Inr None"
      using rep by (simp split: if_splits)
    moreover have "0 < length k \<and> length k \<le> IDEMPOTENCY_KEY_MAX" if "nr_key rq = Some k" for k
      using bad c(6) that by blast
    ultimately show thesis using c by (intro created)
  qed
qed

lemma create_new_inv [inv_intros]:
  "\<lbrakk> db_inv d; j \<notin> j_id ` set (jobs d) \<rbrakk> \<Longrightarrow> db_inv (fst (create_new cfg now clock j who rq d))"
  using create_job_inv [of d j cfg now clock "nr_items rq" "create_request who rq"]
  by (auto simp: create_new_def split: prod.splits)

lemma create_job_for_inv [inv_intros]:
  assumes "db_inv d" and "j \<notin> j_id ` set (jobs d)"
  shows "db_inv (fst (create_job_for cfg ok now clock j who rq d))"
  by (rule create_job_for_cases [of cfg ok now clock j who rq d]) (simp_all add: assms create_new_inv)

section \<open>Active time\<close>

text \<open>
  C32: A job's active time never jumps. Pausing, resuming (by the owner or when credit comes
  back), cancelling, completing and reopening a finished job for a retry all leave the active
  seconds at that instant what they were, and while a job is paused they stand still.
\<close>

theorem active_time_continuous:
  assumes ok: "job_ok rs x" and start: "\<And>s. j_started_at x = Some s \<Longrightarrow> s \<le> now" and later: "now \<le> t"
    and paused: "\<And>p. j_paused_at x = Some p \<Longrightarrow> p \<le> now"
  shows "(j_status x \<in> {JQueued, JRunning} \<longrightarrow>
      active_seconds now (pause_job now reason x) = active_seconds now x \<and>
      active_seconds now (complete_job now d x) = active_seconds now x \<and>
      active_seconds now (transition_job now JCancelled None x) = active_seconds now x) \<and>
    (j_status x = JPaused \<longrightarrow>
      active_seconds now (transition_job now JRunning None x) = active_seconds now x \<and>
      active_seconds now (transition_job now JCancelled None x) = active_seconds now x \<and>
      active_seconds now (resume_job_row now x) = active_seconds now x \<and>
      active_seconds t x = active_seconds now x) \<and>
    (j_status x = JDone \<longrightarrow> active_seconds now (reopen_job now x) = active_seconds now x \<and>
      active_seconds t x = active_seconds now x)"
proof -
  have st: "j_status x = JPaused \<longleftrightarrow> j_paused_at x \<noteq> None"
    "j_status x \<in> {JDone, JCancelled} \<longleftrightarrow> j_finished_at x \<noteq> None"
    using ok by (auto simp: job_ok_def)
  show ?thesis
  proof (cases "j_started_at x")
    case None
    then show ?thesis
      by (simp add: active_seconds_def pause_job_def complete_job_def transition_job_def
          resume_job_row_def reopen_job_def)
  next
    case (Some s)
    with start have s: "s \<le> now" by blast
    from st Some s show ?thesis
      by (cases "j_paused_at x"; cases "j_finished_at x")
        (auto simp: active_seconds_def pause_job_def complete_job_def transition_job_def
          resume_job_row_def reopen_job_def pause_open_def)
  qed
qed

theorem active_time_continuous_witness:
  "active_seconds 70 (transition_job 70 JRunning None ((s_job 1 0 JPaused (Some 7))\<lparr>j_paused_at := Some 50, j_started_at := Some 10\<rparr>)) =
     Some 40"
proof -
  let ?x = "(s_job 1 0 JPaused (Some 7))\<lparr>j_paused_at := Some 50, j_started_at := Some 10\<rparr>"
  have h: "job_ok [] ?x" "\<And>s. j_started_at ?x = Some s \<Longrightarrow> s \<le> 70" "(70::rat) \<le> 80"
    "\<And>p. j_paused_at ?x = Some p \<Longrightarrow> p \<le> 70" "j_status ?x = JPaused"
    by (simp_all add: job_ok_def s_job_def)
  have "active_seconds 70 ?x = Some 40" by code_simp
  with active_time_continuous [OF h(1-4)] h(5) show ?thesis by simp
qed

section \<open>Visibility\<close>

text \<open>
  A job is visible to its owner and to admins only, and a job that is not visible looks
  exactly like one that does not exist: the answer is the same \<open>job_not_found\<close>.
\<close>

theorem get_job_visibility:
  "(case get_job i who d of
      Inr x \<Rightarrow> x \<in> set (jobs d) \<and> Some (j_id x) = i \<and> (p_is_admin who \<or> j_owner_id x = p_user_id who)
    | Inl e \<Rightarrow> e = Api \<lparr>ae_code = ''job_not_found'', ae_status = 404, ae_retry_after = None\<rparr>) \<and>
   (distinct (map j_id (jobs d)) \<longrightarrow>
      (\<forall>x \<in> set (jobs d). p_is_admin who \<or> j_owner_id x = p_user_id who \<longrightarrow> get_job (Some (j_id x)) who d = Inr x)) \<and>
   (\<forall>x \<in> set (list_jobs who d). p_is_admin who \<or> j_owner_id x = p_user_id who)"
proof -
  have e: "api ''job_not_found'' = Api \<lparr>ae_code = ''job_not_found'', ae_status = 404, ae_retry_after = None\<rparr>"
    by code_simp
  have "get_job (Some (j_id x)) who d = Inr x"
    if "distinct (map j_id (jobs d))" "x \<in> set (jobs d)" "p_is_admin who \<or> j_owner_id x = p_user_id who" for x
    using find_key [OF that(1,2)] that(3) by (simp add: get_job_def)
  moreover have "case get_job i who d of
      Inr x \<Rightarrow> x \<in> set (jobs d) \<and> Some (j_id x) = i \<and> (p_is_admin who \<or> j_owner_id x = p_user_id who)
    | Inl e \<Rightarrow> e = Api \<lparr>ae_code = ''job_not_found'', ae_status = 404, ae_retry_after = None\<rparr>"
    by (auto simp: get_job_def e find_Some_iff in_set_conv_nth split: option.splits)
  ultimately show ?thesis by (auto simp: list_jobs_def dest: in_set_takeD)
qed

definition s_bob :: principal where
  "s_bob = \<lparr>p_user_id = Some 7, p_name = ''bob'', p_is_admin = False, p_via = None\<rparr>"

theorem get_job_visibility_witness:
  "get_job (Some 1) s_bob s_db = Inr (s_job 1 0 JRunning (Some 7)) \<and>
   get_job (Some 2) s_bob s_db = Inl (Api \<lparr>ae_code = ''job_not_found'', ae_status = 404, ae_retry_after = None\<rparr>)"
proof -
  have h: "distinct (map j_id (jobs s_db))" "s_job 1 0 JRunning (Some 7) \<in> set (jobs s_db)"
    "j_owner_id (s_job 1 0 JRunning (Some 7)) = p_user_id s_bob" "j_id (s_job 1 0 JRunning (Some 7)) = 1"
    by code_simp+
  have "get_job (Some 2) s_bob s_db = Inl (api ''job_not_found'')" by code_simp
  with get_job_visibility [where d = s_db and i = "Some 2" and who = s_bob] h show ?thesis by fastforce
qed

section \<open>Resuming\<close>

lemma current_status_unique:
  "\<lbrakk> distinct (map j_id (jobs d)); x \<in> set (jobs d) \<rbrakk> \<Longrightarrow> current_status (j_id x) d = Some (j_status x)"
  by (simp add: current_status_def find_key)

lemma job_unique:
  "\<lbrakk> db_inv d; x \<in> set (jobs d); y \<in> set (jobs d); j_id y = j_id x \<rbrakk> \<Longrightarrow> y = x"
  by (auto simp: inv_defs intro: distinct_key_eq)

text \<open>
  Resuming never leaves a finished job running. When a paused job is resumed by its owner
  or an admin, it comes back running if a domain of it is unfinished, and is done at once,
  with its end recorded, if every domain had finished before the pause landed. A job that is
  not paused is refused and nothing changes.
\<close>

theorem resume_completes:
  assumes inv: "db_inv d" and x: "x \<in> set (jobs d)"
    and who: "p_is_admin who \<or> j_owner_id x = p_user_id who"
  shows "snd (resume_job now later (Some (j_id x)) who d) =
      (if j_status x \<noteq> JPaused then Inl (api ''job_not_paused'')
       else Inr (Some (if all_done (job_domains d) (j_id x) then JDone else JRunning)))"
proof -
  let ?hit = "\<lambda>y. j_id y = j_id x \<and> j_status y \<in> set [JPaused]"
  let ?d1 = "fst (transition now (j_id x) [JPaused] JRunning None d)"
  let ?x1 = "transition_job now JRunning None x"
  have job: "get_job (Some (j_id x)) who d = Inr x"
    using inv x who by (simp add: get_job_def find_key inv_defs)
  have uniq: "(\<exists>y \<in> set (jobs d). ?hit y) \<longleftrightarrow> j_status x = JPaused"
    using job_unique [OF inv x] x by auto
  have st: "current_status (j_id x) (fst (complete_if_finished later (j_id x) ?d1)) =
      Some (if all_done (job_domains d) (j_id x) then JDone else JRunning)" if p: "j_status x = JPaused"
  proof -
    let ?d2 = "fst (complete_if_finished later (j_id x) ?d1)"
    have inv1: "db_inv ?d1" and inv2: "db_inv ?d2" using inv by (auto intro: inv_intros)
    have rows: "job_domains ?d1 = job_domains d" by (simp add: transition_def Let_def)
    have id1: "j_id ?x1 = j_id x" and st1: "j_status ?x1 = JRunning" by (simp_all add: transition_job_def)
    have x1: "?x1 \<in> set (jobs ?d1)"
      using x p by (auto simp: transition_def Let_def set_upd_where intro!: image_eqI [of _ _ x])
    have comp: "completes ?d1 ?x1 \<longleftrightarrow> all_done (job_domains d) (j_id x)"
      by (simp add: completes_def rows id1 st1 all_done_unfinished)
    let ?x2 = "if completes ?d1 ?x1 then complete_job later ?d1 ?x1 else ?x1"
    have "?x2 \<in> set (jobs ?d2)"
      using x1 id1 by (auto simp: complete_if_finished_def Let_def set_upd_where intro!: image_eqI [of _ _ ?x1])
    moreover have "j_id ?x2 = j_id x" using id1 by (simp add: complete_job_def)
    ultimately have "current_status (j_id x) ?d2 = Some (j_status ?x2)"
      using current_status_unique [of ?d2 ?x2] inv2 by (simp add: inv_defs)
    then show ?thesis using comp st1 by (simp add: complete_job_def)
  qed
  show ?thesis
  proof (cases "j_status x = JPaused")
    case True
    then show ?thesis
      using job uniq st [OF True] by (simp add: resume_job_def transition_def Let_def)
  next
    case False
    then show ?thesis using job uniq by (simp add: resume_job_def transition_def Let_def)
  qed
qed

theorem resume_completes_witness:
  "snd (resume_job 60 61 (Some 1) s_bob
     (s_last\<lparr>jobs := [pause_job 50 ''r'' (s_job 1 0 JRunning (Some 7))], job_domains := [s_fail]\<rparr>)) = Inr (Some JDone)"
proof -
  let ?x = "pause_job 50 ''r'' (s_job 1 0 JRunning (Some 7))"
  let ?d = "s_last\<lparr>jobs := [?x], job_domains := [s_fail]\<rparr>"
  have h: "db_inv ?d" "?x \<in> set (jobs ?d)" "p_is_admin s_bob \<or> j_owner_id ?x = p_user_id s_bob"
    "j_id ?x = 1" "j_status ?x = JPaused" "all_done (job_domains ?d) 1"
    by code_simp+
  from resume_completes [OF h(1-3), of 60 61] h(4-6) show ?thesis by simp
qed

section \<open>Creating once\<close>

text \<open>Keys are unique per owner: the index \<open>ux_jobs_owner_idempotency\<close>.\<close>

definition keys_unique :: "db \<Rightarrow> bool" where
  "keys_unique d \<longleftrightarrow> (\<forall>x \<in> set (jobs d). \<forall>y \<in> set (jobs d).
     j_idempotency_key x \<noteq> None \<and> j_idempotency_key x = j_idempotency_key y \<and>
     j_owner_id x = j_owner_id y \<longrightarrow> x = y)"

lemma replay_found:
  assumes "keys_unique e" and "x \<in> set (jobs e)" and "j_idempotency_key x = Some k"
    and "j_owner_id x = p_user_id who" and "j_idempotency_fingerprint x = Some fp" and "fp \<noteq> []"
  shows "replay who k fp' e =
    (if fp' = fp then Inr (Some \<lparr>cr_job_id = j_id x, cr_total = n_total (job_counts (j_id x) e),
        cr_unique_domains = n_unique_domains (job_counts (j_id x) e),
        cr_cached = n_cached (job_counts (j_id x) e),
        cr_queued = int (n_unique_domains (job_counts (j_id x) e)) - int (n_cached (job_counts (j_id x) e)),
        cr_replayed = True\<rparr>)
     else Inl (api ''idempotency_conflict''))"
proof -
  let ?P = "\<lambda>y. j_idempotency_key y = Some k \<and> j_owner_id y = p_user_id who"
  have "\<exists>y. find ?P (jobs e) = Some y"
    using assms(2,3,4) by (cases "find ?P (jobs e)") (auto simp: find_None_iff)
  then obtain y where y: "find ?P (jobs e) = Some y" by blast
  then have "y \<in> set (jobs e)" "?P y" by (auto simp: find_Some_iff in_set_conv_nth)
  with assms have "y = x" by (auto simp: keys_unique_def)
  with y assms(5,6) show ?thesis by (auto simp: replay_def Let_def)
qed

lemma created_job:
  "\<exists>x \<in> set (jobs (fst (create_new cfg now clock j who rq d))). j_id x = j \<and>
     j_idempotency_key x = nr_key rq \<and> j_owner_id x = p_user_id who \<and>
     j_idempotency_fingerprint x = (if truthy (nr_key rq) then Some (nr_fingerprint rq) else None)"
  "cr_job_id (snd (create_new cfg now clock j who rq d)) = j"
  by (auto simp: create_new_def create_job_eq Let_def new_job_def create_request_def split: prod.splits)


definition s_new :: new_request where
  "s_new = \<lparr>nr_items = [s_item 0 ''x.com''], nr_columns = [''website''], nr_filename = None,
     nr_chosen = Some ''website'', nr_webhook_url = None, nr_fresh = False, nr_key = Some ''k1'',
     nr_fingerprint = ''f1''\<rparr>"

definition s_made :: db where
  "s_made = fst (create_job_for settings_default (\<lambda>_. True) 60 60 3 s_bob s_new s_db)"

lemma s_made_facts:
  "unique_domains [s_item 0 ''x.com''] = [''x.com'']" "replay s_bob ''k1'' ''f1'' s_db = Inr None"
  "cached_domains (cache_cutoff settings_default 60) [''x.com''] s_db = []" "active_jobs s_bob s_db = 1"
  "p_user_id s_bob = Some 7"
  by code_simp+

lemma s_made_eq:
  "create_job_for settings_default (\<lambda>_. True) 60 60 3 s_bob s_new s_db =
     (s_made, Inr \<lparr>cr_job_id = 3, cr_total = 1, cr_unique_domains = 1, cr_cached = 0, cr_queued = 1,
        cr_replayed = False\<rparr>)"
  unfolding s_made_def
  by (simp add: create_job_for_def create_new_def create_job_eq Let_def s_made_facts new_job_def s_new_def
      MAX_ITEMS_PER_JOB_def IDEMPOTENCY_KEY_MAX_def settings_default_def [THEN arg_cong [where f = max_active_jobs_per_user]]
      create_request_def)

lemma s_made_job:
  "jobs s_made = jobs s_db @ [(s_job 3 60 JQueued (Some 7))\<lparr>j_total := 1, j_webhook_url := None,
     j_website_column := Some ''website'', j_idempotency_key := Some ''k1'',
     j_idempotency_fingerprint := Some ''f1''\<rparr>]"
  unfolding s_made_def
  by (simp add: create_job_for_def create_new_def create_job_eq Let_def s_made_facts new_job_def s_new_def
      MAX_ITEMS_PER_JOB_def IDEMPOTENCY_KEY_MAX_def settings_default_def [THEN arg_cong [where f = max_active_jobs_per_user]]
      create_request_def s_job_def)


section \<open>The job limit\<close>

lemma active_jobs_created:
  "active_jobs who (fst (create_new cfg now clock j who rq d)) \<le> Suc (active_jobs who d)"
  by (simp add: active_jobs_def create_new_def create_job_eq Let_def count_where_def)

text \<open>
  Creating a job keeps a person within their limit of unfinished jobs. After a creation
  that was carried out for someone who is not an admin, at most \<open>max_active_jobs_per_user\<close> of
  their jobs are unfinished; at the limit the request is refused, or answered by replaying the
  job of an earlier one.
\<close>

theorem create_within_limit:
  assumes "create_job_for cfg ok now clock j who rq d = (d', Inr r)" and "\<not> p_is_admin who"
  shows "(d' = d \<and> cr_replayed r) \<or> int (active_jobs who d') \<le> max_active_jobs_per_user cfg"
proof (rule create_job_for_cases [of cfg ok now clock j who rq d])
  fix r'
  assume "create_job_for cfg ok now clock j who rq d = (d, Inr r')"
    and "replay who (or_empty (nr_key rq)) (nr_fingerprint rq) d = Inr (Some r')"
  with assms(1) show ?thesis by (auto simp: replay_def Let_def split: option.splits if_splits)
next
  assume "create_job_for cfg ok now clock j who rq d =
      (fst (create_new cfg now clock j who rq d), Inr (snd (create_new cfg now clock j who rq d)))"
    and "p_is_admin who \<or> int (active_jobs who d) < max_active_jobs_per_user cfg"
  with assms active_jobs_created [of who cfg now clock j rq d] show ?thesis by auto
qed (use assms in auto)

theorem create_within_limit_witness:
  "int (active_jobs s_bob s_made) \<le> max_active_jobs_per_user settings_default"
proof -
  note made = s_made_eq
  have "\<not> p_is_admin s_bob" by (simp add: s_bob_def)
  from create_within_limit [OF made this] show ?thesis by simp
qed

end
