(* ===== verification/Queue_System.thy ===== *)
theory Queue_System
  imports Job_Api_Props
begin

text \<open>
  The program as a transition system: the database, the clock, and any number of workers, API
  processes, reapers and clients whose transactions interleave in any order. A step is one
  transaction of the queue or of the job endpoints; the claim it uses is arbitrary, so stale,
  duplicated and crashed handlers are all among the behaviours. Two ghosts observe the run: the
  tokens ever issued, and the tokens under which a result was recorded. The one assumption is
  that the random part of a token does not repeat (twelve hex digits of a uuid).
\<close>

record system =
  sy_db :: db
  sy_clock :: time
  sy_used :: "string set"
  sy_log :: "string list"

definition sys_start :: "system \<Rightarrow> bool" where
  "sys_start s \<longleftrightarrow> jobs (sy_db s) = [] \<and> job_domains (sy_db s) = [] \<and> job_items (sy_db s) = [] \<and>
     locks_inv (domains (sy_db s)) \<and> sy_used s = {} \<and> sy_log s = []"

inductive sys_step :: "system \<Rightarrow> system \<Rightarrow> bool" where
  tick: "0 \<le> dt \<Longrightarrow> sys_step s (s\<lparr>sy_clock := sy_clock s + dt\<rparr>)"
| claim: "(\<And>k. k < 5 \<Longrightarrow> new_token w (hex k) \<notin> sy_used s) \<Longrightarrow>
    sys_step s (s\<lparr>sy_db := fst (claim locked (sy_clock s) w hex (sy_db s)),
                  sy_used := sy_used s \<union> (\<lambda>k. new_token w (hex k)) ` {..<5}\<rparr>)"
| lock: "sys_step s (s\<lparr>sy_db := fst (lock_domain (sy_clock s) c (sy_db s))\<rparr>)"
| unlock: "sys_step s (s\<lparr>sy_db := unlock_domain c (sy_db s)\<rparr>)"
| requeue: "sys_step s (s\<lparr>sy_db := requeue (sy_clock s) c delay ca (sy_db s)\<rparr>)"
| finish: "sys_step s (s\<lparr>sy_db := fst (finish (sy_clock s) c res fc wc (sy_db s)),
    sy_log := (if fst (snd (finish (sy_clock s) c res fc wc (sy_db s)))
               then c_token c # sy_log s else sy_log s)\<rparr>)"
| heartbeat: "sys_step s (s\<lparr>sy_db := heartbeat (sy_clock s) tokens (sy_db s)\<rparr>)"
| reap: "sys_step s (s\<lparr>sy_db := fst (reap (sy_clock s) (sy_db s))\<rparr>)"
| sweep: "sys_step s (s\<lparr>sy_db := fst (complete_finished_jobs (sy_clock s) (sy_db s))\<rparr>)"
| shutdown: "sys_step s (s\<lparr>sy_db := release_worker (sy_clock s) w (sy_db s)\<rparr>)"
| pause: "sys_step s (s\<lparr>sy_db := pause_active_jobs (sy_clock s) reason (sy_db s)\<rparr>)"
| retry: "sys_step s (s\<lparr>sy_db := fst (requeue_failed (sy_clock s) j (sy_db s))\<rparr>)"
| complete: "sys_step s (s\<lparr>sy_db := fst (complete_if_finished (sy_clock s) j (sy_db s))\<rparr>)"
| resume: "sys_step s (s\<lparr>sy_db := fst (transition (sy_clock s) j [JPaused] JRunning None (sy_db s))\<rparr>)"
| resume_for: "sys_step s (s\<lparr>sy_db := (sy_db s)\<lparr>jobs :=
    upd_where (\<lambda>x. j_status x = JPaused \<and> j_pause_reason x = Some reason)
      (resume_job_row (sy_clock s)) (jobs (sy_db s))\<rparr>\<rparr>)"
| cancel: "sys_step s (s\<lparr>sy_db := fst (transition (sy_clock s) j ACTIVE_STATUSES JCancelled None (sy_db s))\<rparr>)"
| create: "j \<notin> j_id ` set (jobs (sy_db s)) \<Longrightarrow>
    sys_step s (s\<lparr>sy_db := fst (create_job_for cfg ok (sy_clock s) clock j who rq (sy_db s))\<rparr>)"

inductive_cases sys_stepE: "sys_step s t"

definition sys_inv :: "system \<Rightarrow> bool" where
  "sys_inv s \<longleftrightarrow> db_inv (sy_db s) \<and> set (tokens_of (job_domains (sy_db s))) \<subseteq> sy_used s \<and>
     set (sy_log s) \<subseteq> sy_used s \<and> set (sy_log s) \<inter> set (tokens_of (job_domains (sy_db s))) = {} \<and>
     distinct (sy_log s)"

section \<open>Tokens under each operation\<close>

abbreviation live :: "db \<Rightarrow> string set" where
  "live d \<equiv> set (tokens_of (job_domains d))"

lemma live_requeue: "live (requeue now c delay ca d) \<subseteq> live d"
  by (simp add: requeue_def requeue_st.tokens)

lemma live_heartbeat: "live (heartbeat now tokens d) \<subseteq> live d"
  using beat_st.tokens by (auto simp: heartbeat_def)

lemma live_reap: "live (fst (reap now d)) \<subseteq> live d"
  by (simp add: reap_def reap_st.tokens)

lemma live_release: "live (release_worker now w d) \<subseteq> live d"
  by (simp add: release_worker_def Let_def release_st.tokens)

lemma live_retry: "live (fst (requeue_failed now j d)) \<subseteq> live d"
  by (simp add: requeue_failed_def Let_def retry_st.tokens)

lemma live_transition [simp]: "live (fst (transition now j al new reason d)) = live d"
  by (simp add: transition_def Let_def)

lemma live_create: "live (fst (create_job_for cfg ok now clock j who rq d)) = live d"
  by (rule create_job_for_cases [of cfg ok now clock j who rq d])
    (simp_all add: create_new_def create_job_eq Let_def new_rows_tokens)

lemma live_claim:
  assumes "db_inv d" and "\<And>k. k < 5 \<Longrightarrow> new_token w (hex k) \<notin> live d"
  shows "live (fst (claim locked now w hex d)) \<subseteq> live d \<union> (\<lambda>k. new_token w (hex k)) ` {..<5}"
proof (cases "claim locked now w hex d")
  case (Pair d' oc)
  show ?thesis
  proof (cases oc)
    case None
    with Pair show ?thesis using claim_loop_unchanged by (metis claim_def fst_conv snd_conv sup_ge1)
  next
    case (Some c)
    from Pair Some have "claim_loop locked now w hex 0 (pick_jobs d now) d = (d', Some c)"
      by (simp add: claim_def)
    then obtain p k where k: "k < length (pick_jobs d now)" "c_token c = new_token w (hex k)"
      and d': "d' = mark_started now (c_job_id c) (d\<lparr>job_domains :=
         upd_where (\<lambda>r. jd_key r = jd_key p) (take_row now (c_token c)) (job_domains d)\<rparr>)"
      by (rule claim_loop_Some) simp
    from k have k5: "k < 5" by (simp add: pick_jobs_def)
    have "live d' \<subseteq> insert (c_token c) (live d)"
      using assms k(2) k5 take_row_tokens [of "job_domains d" "c_token c" "jd_key p" now]
      by (simp add: d' inv_defs)
    with k(2) k5 Pair show ?thesis by auto
  qed
qed

lemma live_finish: "live (fst (finish now c res fc wc d)) \<subseteq> live d"
  by (simp add: finish_rows finish_st.tokens)

lemma finish_token:
  assumes inv: "db_inv d" and rec: "fst (snd (finish now c res fc wc d))"
  shows "c_token c \<in> live d \<and> c_token c \<notin> live (fst (finish now c res fc wc d))"
proof -
  from rec obtain r where r: "r \<in> set (job_domains d)" "owns_row c r" by (auto simp: recorded_iff)
  have "q = r" if "q \<in> set (job_domains d)" "jd_claimed_by q = Some (c_token c)" for q
    using inv r that by (auto simp: inv_defs owns_row_def intro: token_unique)
  then show ?thesis
    using r by (auto simp: set_tokens_of finish_rows set_upd_where finish_row_def owns_row_def
        split: if_splits)
qed

section \<open>The invariant of the system\<close>

lemma sys_inv_start: "sys_start s \<Longrightarrow> sys_inv s"
  by (auto simp: sys_start_def sys_inv_def inv_defs refs_ok_def)

text \<open>A step that issues no token and records nothing keeps the system invariant with the database's.\<close>

lemma sys_inv_quiet:
  "\<lbrakk> sys_inv s; db_inv d; live d \<subseteq> live (sy_db s) \<rbrakk> \<Longrightarrow> sys_inv (s\<lparr>sy_db := d\<rparr>)"
  by (auto simp: sys_inv_def)

lemma sys_inv_claim:
  assumes "sys_inv s" and "\<And>k. k < 5 \<Longrightarrow> new_token w (hex k) \<notin> sy_used s"
  shows "sys_inv (s\<lparr>sy_db := fst (claim locked now w hex (sy_db s)),
    sy_used := sy_used s \<union> (\<lambda>k. new_token w (hex k)) ` {..<5}\<rparr>)"
proof -
  have fresh: "\<And>k. k < 5 \<Longrightarrow> new_token w (hex k) \<notin> live (sy_db s)" and inv: "db_inv (sy_db s)"
    using assms by (auto simp: sys_inv_def)
  from inv fresh have "live (fst (claim locked now w hex (sy_db s))) \<subseteq>
      live (sy_db s) \<union> (\<lambda>k. new_token w (hex k)) ` {..<5}"
    by (rule live_claim)
  moreover from inv fresh have "db_inv (fst (claim locked now w hex (sy_db s)))"
    by (rule claim_inv)
  moreover have "sy_used s \<inter> (\<lambda>k. new_token w (hex k)) ` {..<5} = {}" using assms(2) by auto
  ultimately show ?thesis using assms(1) unfolding sys_inv_def by simp blast
qed

lemma sys_inv_finish:
  assumes "sys_inv s"
  shows "sys_inv (s\<lparr>sy_db := fst (finish now c res fc wc (sy_db s)),
    sy_log := (if fst (snd (finish now c res fc wc (sy_db s))) then c_token c # sy_log s else sy_log s)\<rparr>)"
proof -
  have "live (fst (finish now c res fc wc (sy_db s))) \<subseteq> live (sy_db s)" by (rule live_finish)
  moreover have "c_token c \<in> live (sy_db s) \<and> c_token c \<notin> live (fst (finish now c res fc wc (sy_db s)))"
    if "fst (snd (finish now c res fc wc (sy_db s)))"
    using finish_token that assms by (auto simp: sys_inv_def)
  moreover have "db_inv (fst (finish now c res fc wc (sy_db s)))"
    using assms by (auto simp: sys_inv_def intro: inv_intros)
  ultimately show ?thesis using assms by (auto simp: sys_inv_def)
qed

lemma sys_inv_tick [simp]: "sys_inv (s\<lparr>sy_clock := t\<rparr>) = sys_inv s"
  by (simp add: sys_inv_def)

lemma sys_inv_db: "sys_inv s \<Longrightarrow> db_inv (sy_db s)"
  by (simp add: sys_inv_def)

lemmas live_facts = live_requeue live_heartbeat live_reap live_release live_retry live_create

lemma sys_inv_step: "\<lbrakk> sys_step s t; sys_inv s \<rbrakk> \<Longrightarrow> sys_inv t"
proof (induction rule: sys_step.induct)
  case (claim w hex s locked)
  then show ?case by (intro sys_inv_claim) auto
next
  case (resume_for s reason)
  then show ?case
    using resume_for_st.db_kept [OF sys_inv_db refl] by (intro sys_inv_quiet) auto
next
  case (finish s c res fc wc)
  then show ?case by (rule sys_inv_finish)
qed (simp_all add: sys_inv_quiet sys_inv_db inv_intros live_facts)

interpretation qs: invariant_system sys_start sys_step sys_inv
  by unfold_locales (auto intro: sys_inv_start sys_inv_step)

section \<open>A run\<close>

definition run0 :: system where
  "run0 = \<lparr>sy_db = \<lparr>jobs = [], job_domains = [], job_items = [], domains = []\<rparr>, sy_clock = 0,
     sy_used = {}, sy_log = []\<rparr>"

definition run1 :: system where
  "run1 = run0\<lparr>sy_db := fst (create_job_for settings_default (\<lambda>_. True) (sy_clock run0) 0 1 s_bob s_new (sy_db run0))\<rparr>"

definition run2 :: system where
  "run2 = run1\<lparr>sy_db := fst (claim (\<lambda>_. False) (sy_clock run1) ''w'' (\<lambda>_. ''h'') (sy_db run1)),
     sy_used := sy_used run1 \<union> (\<lambda>k. new_token ''w'' ''h'') ` {..<5::nat}\<rparr>"

definition run_claim :: claimed where
  "run_claim = \<lparr>c_job_id = 1, c_domain = ''x.com'', c_attempts = 1, c_token = ''w|h'', c_not_before = None\<rparr>"

definition run3 :: system where
  "run3 = run2\<lparr>sy_db := fst (finish (sy_clock run2) run_claim s_result False True (sy_db run2)),
     sy_log := (if fst (snd (finish (sy_clock run2) run_claim s_result False True (sy_db run2)))
                then c_token run_claim # sy_log run2 else sy_log run2)\<rparr>"

lemma run2_reachable: "reachable sys_start sys_step run2"
proof -
  have "sys_start run0" by (simp add: sys_start_def run0_def locks_inv_def)
  then have r0: "reachable sys_start sys_step run0" by (rule reachable.init)
  have "sys_step run0 run1" unfolding run1_def by (rule sys_step.create) (simp add: run0_def)
  with r0 have r1: "reachable sys_start sys_step run1" by (rule reachable.step)
  have "sys_step run1 run2" unfolding run2_def by (rule sys_step.claim [where hex = "\<lambda>_. ''h''"]) (simp add: run1_def run0_def)
  with r1 show ?thesis by (rule reachable.step)
qed

lemma run3_reachable: "reachable sys_start sys_step run3"
proof -
  have "sys_step run2 run3" unfolding run3_def by (rule sys_step.finish)
  with run2_reachable show ?thesis by (rule reachable.step)
qed

lemma run3_log: "sy_log run3 = [''w|h'']"
  by code_simp

lemma run3_job: "map j_status (jobs (sy_db run3)) = [JDone]"
  by code_simp

section \<open>What every run keeps\<close>

text \<open>
  C3: Every reachable database is well formed, however the transactions of workers, reapers
  and API calls interleave: primary keys are unique, a row is running exactly when a claim
  holds it and then has a heartbeat and a counted attempt, no two rows are held under one
  token, a finished row has its result, a paused job has the time of its pause, a done or
  cancelled one its end, a done job has no unfinished row, and every queue row belongs to a
  job and a domain that exist.
\<close>

theorem reachable_db_inv: "reachable sys_start sys_step s \<Longrightarrow> db_inv (sy_db s)"
  using qs.inv_reachable by (auto simp: sys_inv_def)

theorem reachable_db_inv_witness: "db_inv (sy_db run3) \<and> map j_status (jobs (sy_db run3)) = [JDone]"
  using reachable_db_inv [OF run3_reachable] run3_job by simp



section \<open>The life of a job\<close>

definition may_follow :: "job_status \<Rightarrow> job_status \<Rightarrow> bool" where
  "may_follow a b \<longleftrightarrow> a = b \<or>
     (a, b) \<in> {(JQueued, JRunning), (JQueued, JPaused), (JQueued, JDone), (JQueued, JCancelled),
       (JRunning, JPaused), (JRunning, JDone), (JRunning, JCancelled),
       (JPaused, JRunning), (JPaused, JCancelled), (JDone, JRunning)}"

definition jobs_follow :: "job list \<Rightarrow> job list \<Rightarrow> bool" where
  "jobs_follow xs ys \<longleftrightarrow> (\<forall>x \<in> set xs. \<exists>y \<in> set ys. j_id y = j_id x \<and>
     may_follow (j_status x) (j_status y))"

lemma jobs_follow_refl [simp]: "jobs_follow xs xs"
  by (auto simp: jobs_follow_def may_follow_def)

lemma jobs_follow_append [simp]: "jobs_follow xs (xs @ ys)"
  by (auto simp: jobs_follow_def may_follow_def)

lemma jobs_follow_upd:
  assumes "\<And>x. j_id (f x) = j_id x" and "\<And>x. P x \<Longrightarrow> may_follow (j_status x) (j_status (f x))"
  shows "jobs_follow xs (upd_where P f xs)"
  unfolding jobs_follow_def bex_upd_where
  using assms by (auto simp: may_follow_def [of a a for a])

lemma follow_claim: "jobs_follow (jobs d) (jobs (fst (claim locked now w hex d)))"
proof (cases "claim locked now w hex d")
  case (Pair d' oc)
  show ?thesis
  proof (cases oc)
    case None
    then show ?thesis
      using Pair claim_loop_unchanged [of locked now w hex 0 "pick_jobs d now" d] by (simp add: claim_def)
  next
    case (Some c)
    with Pair have "claim locked now w hex d = (d', Some c)" by simp
    then obtain e where "d' = mark_started now (c_job_id c) e" "jobs e = jobs d"
      by (rule claim_SomeD) simp
    then show ?thesis
      using Pair by (auto simp: mark_started_def start_job_def may_follow_def intro!: jobs_follow_upd)
  qed
qed

lemma follow_complete: "jobs_follow (jobs d) (jobs (fst (complete_if_finished now j d)))"
  by (auto simp: complete_if_finished_def Let_def complete_job_def completes_def may_follow_def
      intro!: jobs_follow_upd)

lemma follow_finish: "jobs_follow (jobs d) (jobs (fst (finish now c res fc wc d)))"
proof (cases "\<exists>r \<in> set (job_domains d). owns_row c r")
  case True
  then obtain e where "finish now c res fc wc d = (fst (complete_if_finished now (c_job_id c) e), True,
      snd (complete_if_finished now (c_job_id c) e))" and "jobs e = jobs d"
    by (rule finish_jobs)
  then show ?thesis using follow_complete [of e now "c_job_id c"] by simp
qed (simp add: finish_eq)

lemma follow_create: "jobs_follow (jobs d) (jobs (fst (create_job_for cfg ok now clock j who rq d)))"
  by (rule create_job_for_cases [of cfg ok now clock j who rq d])
    (simp_all add: create_new_def create_job_eq Let_def)

lemma step_follow: "sys_step s t \<Longrightarrow> jobs_follow (jobs (sy_db s)) (jobs (sy_db t))"
  by (induction rule: sys_step.induct)
    (auto simp: follow_claim follow_complete follow_finish follow_create complete_finished_jobs_def
      complete_job_def completes_def pause_active_jobs_def pause_job_def requeue_failed_def Let_def
      reopen_job_def transition_def transition_job_def resume_job_row_def ACTIVE_STATUSES_def
      may_follow_def intro!: jobs_follow_upd)

text \<open>
  C26: A job moves along the documented states only. No step removes a job, and each changes its
  status at most along queued, running, paused, done or cancelled as drawn by \<open>may_follow\<close>: in
  particular a cancelled job stays cancelled in every continuation of a run, and only a retry
  brings a done job back, to running.
\<close>

theorem job_states:
  assumes "sys_step s t" and "x \<in> set (jobs (sy_db s))"
  shows "(\<exists>y \<in> set (jobs (sy_db t)). j_id y = j_id x \<and> may_follow (j_status x) (j_status y)) \<and>
    (j_status x = JCancelled \<longrightarrow> sys_step\<^sup>*\<^sup>* t u \<longrightarrow>
       (\<exists>y \<in> set (jobs (sy_db u)). j_id y = j_id x \<and> j_status y = JCancelled))"
proof -
  have follow: "\<exists>y \<in> set (jobs (sy_db b)). j_id y = j_id z \<and> may_follow (j_status z) (j_status y)"
    if "sys_step a b" "z \<in> set (jobs (sy_db a))" for a b z
    using step_follow [OF that(1)] that(2) by (auto simp: jobs_follow_def)
  have "\<exists>y \<in> set (jobs (sy_db u)). j_id y = j_id x \<and> j_status y = JCancelled"
    if "j_status x = JCancelled" "sys_step\<^sup>*\<^sup>* t u"
    using that(2)
  proof (induction rule: rtranclp_induct)
    case base
    with follow [OF assms] that(1) show ?case by (auto simp: may_follow_def)
  next
    case (step v w)
    then obtain y where "y \<in> set (jobs (sy_db v))" "j_id y = j_id x" "j_status y = JCancelled" by blast
    with follow [OF step(2), of y] show ?case by (auto simp: may_follow_def)
  qed
  with follow [OF assms] show ?thesis by blast
qed

theorem job_states_witness:
  "\<exists>y \<in> set (jobs (sy_db (run3\<lparr>sy_db := fst (transition 5 1 ACTIVE_STATUSES JCancelled None s_db)\<rparr>))).
     j_id y = 1 \<and> j_status y = JCancelled"
proof -
  let ?s = "run3\<lparr>sy_db := fst (transition 5 1 ACTIVE_STATUSES JCancelled None s_db)\<rparr>"
  let ?x = "transition_job 5 JCancelled None (s_job 1 0 JRunning (Some 7))"
  have x: "?x \<in> set (jobs (sy_db ?s))" "j_id ?x = 1" "j_status ?x = JCancelled"
    by (simp_all add: transition_def Let_def s_db_def s_job_def ACTIVE_STATUSES_def transition_job_def)
  have "sys_step ?s (?s\<lparr>sy_clock := sy_clock ?s + 0\<rparr>)" by (rule sys_step.tick) simp
  from job_states [OF this x(1), of "?s\<lparr>sy_clock := sy_clock ?s + 0\<rparr>"] x show ?thesis by auto
qed

end
