(* ===== verification/Board.thy ===== *)
theory Board
  imports Queue_System
begin

text \<open>
  What the queue promises its users, without tables, clocks, leases and locks: a board of
  cells, one for each domain of a job, and the moves a cell can make. The system of
  \<open>Queue_System\<close> refines it.
\<close>

section \<open>The specification\<close>

text \<open>\<open>Answered True\<close> is an answer that says the fetch failed.\<close>

datatype cell = Waiting | Held string | Answered bool

record board =
  bd_cells :: "uuid \<times> string \<Rightarrow> cell option"
  bd_issued :: "string set"
  bd_answers :: "string list"

definition board_start :: "board \<Rightarrow> bool" where
  "board_start b \<longleftrightarrow> bd_cells b = (\<lambda>_. None) \<and> bd_issued b = {} \<and> bd_answers b = []"

text \<open>Cells may move together, each by \<open>mv\<close>.\<close>

definition each_moves :: "(cell \<Rightarrow> cell \<Rightarrow> bool) \<Rightarrow> ('k \<Rightarrow> cell option) \<Rightarrow> ('k \<Rightarrow> cell option) \<Rightarrow> bool" where
  "each_moves mv m m' \<longleftrightarrow>
     (\<forall>k. m' k = m k \<or> (\<exists>c c'. m k = Some c \<and> m' k = Some c' \<and> mv c c'))"

inductive board_step :: "board \<Rightarrow> board \<Rightarrow> bool" where
  idle: "board_step b b"
| add: "(\<And>k. m k = bd_cells b k \<or> bd_cells b k = None \<and> m k = Some Waiting) \<Longrightarrow>
    board_step b (b\<lparr>bd_cells := m\<rparr>)"
| none_free: "T \<inter> bd_issued b = {} \<Longrightarrow> board_step b (b\<lparr>bd_issued := bd_issued b \<union> T\<rparr>)"
| take: "\<lbrakk> bd_cells b k = Some Waiting; t \<in> T; T \<inter> bd_issued b = {} \<rbrakk> \<Longrightarrow>
    board_step b (b\<lparr>bd_cells := (bd_cells b)(k \<mapsto> Held t), bd_issued := bd_issued b \<union> T\<rparr>)"
| give_back: "each_moves (\<lambda>c c'. (\<exists>t. c = Held t) \<and> c' = Waiting) (bd_cells b) m \<Longrightarrow>
    board_step b (b\<lparr>bd_cells := m\<rparr>)"
| answer: "bd_cells b k = Some (Held t) \<Longrightarrow>
    board_step b (b\<lparr>bd_cells := (bd_cells b)(k \<mapsto> Answered f), bd_answers := t # bd_answers b\<rparr>)"
| reopen: "each_moves (\<lambda>c c'. c = Answered True \<and> c' = Waiting) (bd_cells b) m \<Longrightarrow>
    board_step b (b\<lparr>bd_cells := m\<rparr>)"

section \<open>The board of a database\<close>

definition cell_of :: "job_domain \<Rightarrow> cell" where
  "cell_of r = (case jd_state r of
     Queued \<Rightarrow> Waiting
   | Running \<Rightarrow> Held (or_empty (jd_claimed_by r))
   | Done \<Rightarrow> Answered (jd_status r = Some Fetch_Failed))"

definition cells :: "job_domain list \<Rightarrow> uuid \<times> string \<Rightarrow> cell option" where
  "cells rs k = map_option cell_of (find (\<lambda>r. jd_key r = k) rs)"

definition board_of :: "system \<Rightarrow> board" where
  "board_of s = \<lparr>bd_cells = cells (job_domains (sy_db s)), bd_issued = sy_used s, bd_answers = sy_log s\<rparr>"

lemma cells_of_row: "distinct (map jd_key rs) \<Longrightarrow> r \<in> set rs \<Longrightarrow> cells rs (jd_key r) = Some (cell_of r)"
  by (simp add: cells_def find_key)

lemma cells_upd:
  assumes "\<And>r. jd_key (f r) = jd_key r"
  shows "cells (upd_where P f rs) k = map_option (\<lambda>r. cell_of (if P r then f r else r)) (find (\<lambda>r. jd_key r = k) rs)"
  using assms by (induction rs) (simp_all add: cells_def)

lemma cells_at:
  "find (\<lambda>r. jd_key r = k) rs = None \<Longrightarrow> cells rs k = None"
  "find (\<lambda>r. jd_key r = k) rs = Some r \<Longrightarrow> cells rs k = Some (cell_of r)"
  by (simp_all add: cells_def)

text \<open>A statement on the rows moves each cell it touches.\<close>

lemma statement_moves:
  assumes "\<And>r. jd_key (f r) = jd_key r" and "\<And>r. r \<in> set rs \<Longrightarrow> P r \<Longrightarrow> cell_of (f r) = cell_of r \<or> mv (cell_of r) (cell_of (f r))"
  shows "each_moves mv (cells rs) (cells (upd_where P f rs))"
  unfolding each_moves_def
proof
  fix k
  show "cells (upd_where P f rs) k = cells rs k \<or>
    (\<exists>c c'. cells rs k = Some c \<and> cells (upd_where P f rs) k = Some c' \<and> mv c c')"
  proof (cases "find (\<lambda>r. jd_key r = k) rs")
    case (Some r)
    then have "r \<in> set rs" by (auto simp: find_Some_iff)
    with assms Some show ?thesis by (auto simp: cells_upd cells_at)
  qed (use assms(1) in \<open>simp add: cells_upd cells_at\<close>)
qed

lemma cells_take:
  "cells (upd_where (\<lambda>r. jd_key r = k) (take_row now token) rs) =
     (if k \<in> jd_key ` set rs then (cells rs)(k \<mapsto> Held token) else cells rs)"
proof
  fix k'
  have key: "jd_key (take_row now token r) = jd_key r" for r by (simp add: take_row_def jd_key_def)
  show "cells (upd_where (\<lambda>r. jd_key r = k) (take_row now token) rs) k' =
     (if k \<in> jd_key ` set rs then (cells rs)(k \<mapsto> Held token) else cells rs) k'"
    unfolding cells_upd [of "take_row now token", OF key]
    by (induction rs) (auto simp: cells_def cell_of_def take_row_def)
qed

lemma cells_finish:
  assumes "distinct (map jd_key rs)" and "r \<in> set rs" and "owns_row c r"
  shows "cells (upd_where (owns_row c) (finish_row now res fc) rs) =
    (cells rs)(jd_key r \<mapsto> Answered (dr_status res = Fetch_Failed))"
proof
  fix k
  have key: "jd_key (finish_row now res fc x) = jd_key x" for x by (simp add: finish_row_def jd_key_def)
  have own: "owns_row c x \<longleftrightarrow> x = r" if "x \<in> set rs" for x
  proof
    assume "owns_row c x"
    with assms(3) have "jd_key x = jd_key r" by (simp add: owns_row_def jd_key_def)
    with assms that show "x = r" by (metis distinct_key_eq)
  qed (use assms(3) in simp)
  note upd = cells_upd [of "finish_row now res fc", OF key, of "owns_row c" rs k]
  show "cells (upd_where (owns_row c) (finish_row now res fc) rs) k =
      ((cells rs)(jd_key r \<mapsto> Answered (dr_status res = Fetch_Failed))) k"
  proof (cases "find (\<lambda>x. jd_key x = k) rs")
    case None
    then have "k \<noteq> jd_key r" using assms(2) by (auto simp: find_None_iff)
    with None show ?thesis by (simp add: upd cells_at)
  next
    case (Some x)
    then have x: "x \<in> set rs" "jd_key x = k" by (auto simp: find_Some_iff)
    show ?thesis
    proof (cases "x = r")
      case True
      with Some x assms(3) show ?thesis by (simp add: upd cell_of_def finish_row_def)
    next
      case False
      with x assms have "k \<noteq> jd_key r" by (metis distinct_key_eq)
      with Some x False own show ?thesis by (simp add: upd cells_at)
    qed
  qed
qed

lemma cells_queued:
  "(\<And>r. r \<in> set rs \<Longrightarrow> jd_state r = Queued) \<Longrightarrow> cells rs k = (if k \<in> jd_key ` set rs then Some Waiting else None)"
  by (induction rs) (auto simp: cells_def cell_of_def)

lemma cells_append: "cells (rs @ rs') k = (case cells rs k of None \<Rightarrow> cells rs' k | Some c \<Rightarrow> Some c)"
  by (induction rs) (simp_all add: cells_def)

lemma cells_new:
  "cells (rs @ map (\<lambda>(i, dm). new_job_domain now j dm i) xs) k = cells rs k \<or>
   cells rs k = None \<and> cells (rs @ map (\<lambda>(i, dm). new_job_domain now j dm i) xs) k = Some Waiting"
proof -
  have "cells (map (\<lambda>(i, dm). new_job_domain now j dm i) xs) k \<in> {None, Some Waiting}"
    by (subst cells_queued) (auto simp: new_job_domain_def)
  then show ?thesis by (auto simp: cells_append split: option.splits)
qed

section \<open>Every step is a move of the board\<close>

abbreviation freed :: "cell \<Rightarrow> cell \<Rightarrow> bool" where
  "freed c c' \<equiv> (\<exists>t. c = Held t) \<and> c' = Waiting"

lemma each_moves_refl: "each_moves mv m m"
  by (simp add: each_moves_def)

lemma moves_requeue: "each_moves freed (cells (job_domains d)) (cells (job_domains (requeue now c delay ca d)))"
proof -
  have "each_moves freed (cells rs) (cells (upd_where (owns_row c) (requeue_row now delay n) rs))" for n rs
    by (rule statement_moves) (auto simp: jd_key_def owns_row_def cell_of_def requeue_row_def)
  then show ?thesis by (simp add: requeue_def)
qed

lemma moves_reap: "each_moves freed (cells (job_domains d)) (cells (job_domains (fst (reap now d))))"
proof -
  have "each_moves freed (cells rs) (cells (upd_where (stale now) (reap_row now) rs))" for rs
    by (rule statement_moves) (auto simp: jd_key_def stale_def cell_of_def reap_row_def)
  then show ?thesis by (simp add: reap_def)
qed

lemma moves_release: "each_moves freed (cells (job_domains d)) (cells (job_domains (release_worker now w d)))"
proof -
  have "each_moves freed (cells rs)
      (cells (upd_where (\<lambda>r. jd_state r = Running \<and> claimed_like pat (jd_claimed_by r)) (release_row now) rs))" for rs pat
    by (rule statement_moves) (auto simp: jd_key_def cell_of_def release_row_def)
  then show ?thesis by (simp add: release_worker_def Let_def)
qed

lemma moves_beat: "each_moves freed (cells (job_domains d)) (cells (job_domains (heartbeat now tokens d)))"
proof -
  have "each_moves freed (cells rs) (cells (upd_where (\<lambda>r. jd_state r = Running \<and> held_by tokens (jd_claimed_by r))
      (\<lambda>r. r\<lparr>jd_heartbeat_at := Some now\<rparr>) rs))" for rs
    by (rule statement_moves) (auto simp: jd_key_def cell_of_def)
  then show ?thesis by (simp add: heartbeat_def each_moves_refl)
qed

lemma moves_retry: "each_moves (\<lambda>c c'. c = Answered True \<and> c' = Waiting) (cells (job_domains d))
    (cells (job_domains (fst (requeue_failed now j d))))"
proof -
  have "each_moves (\<lambda>c c'. c = Answered True \<and> c' = Waiting) (cells rs)
      (cells (upd_where (retryable_row j) (retry_row now) rs))" for rs
    by (rule statement_moves) (auto simp: jd_key_def retryable_row_def cell_of_def retry_row_def)
  then show ?thesis by (simp add: requeue_failed_def Let_def)
qed

lemma rows_kept:
  "job_domains (fst (lock_domain now c d)) = job_domains d" "job_domains (unlock_domain c d) = job_domains d"
  "job_domains (fst (complete_finished_jobs now d)) = job_domains d"
  "job_domains (pause_active_jobs now reason d) = job_domains d"
  "job_domains (fst (complete_if_finished now j d)) = job_domains d"
  "job_domains (fst (transition now j al new why d)) = job_domains d"
  by (simp_all add: lock_domain_def unlock_domain_def complete_finished_jobs_def pause_active_jobs_def
      complete_if_finished_def transition_def Let_def)

lemma create_cells:
  "cells (job_domains (fst (create_job_for cfg ok now clock j who rq d))) k = cells (job_domains d) k \<or>
   cells (job_domains d) k = None \<and> cells (job_domains (fst (create_job_for cfg ok now clock j who rq d))) k = Some Waiting"
  by (rule create_job_for_cases [of cfg ok now clock j who rq d])
    (simp_all add: create_new_def create_job_eq Let_def cells_new)

lemma claim_step:
  assumes inv: "sys_inv s" and fresh: "\<And>k. k < 5 \<Longrightarrow> new_token w (hex k) \<notin> sy_used s"
  shows "board_step (board_of s) (board_of (s\<lparr>sy_db := fst (claim locked now w hex (sy_db s)),
    sy_used := sy_used s \<union> (\<lambda>k. new_token w (hex k)) ` {..<5}\<rparr>))"
proof (cases "snd (claim locked now w hex (sy_db s))")
  case None
  then have same: "fst (claim locked now w hex (sy_db s)) = sy_db s" by (simp add: claim_def claim_loop_unchanged)
  have "(\<lambda>k. new_token w (hex k)) ` {..<5} \<inter> bd_issued (board_of s) = {}" using fresh by (auto simp: board_of_def)
  from board_step.none_free [OF this] show ?thesis by (simp add: board_of_def same)
next
  case (Some c)
  define d where "d = sy_db s"
  from Some obtain d' where c: "claim_loop locked now w hex 0 (pick_jobs d now) d = (d', Some c)"
    by (cases "claim locked now w hex (sy_db s)") (simp add: claim_def d_def)
  from c obtain p k where p: "order_first jd_seq (open_rows locked now (c_job_id c) d) = Some p"
    and k: "k < length (pick_jobs d now)" "c_token c = new_token w (hex k)"
    and d': "d' = mark_started now (c_job_id c) (d\<lparr>job_domains :=
         upd_where (\<lambda>r. jd_key r = jd_key p) (take_row now (c_token c)) (job_domains d)\<rparr>)"
    by (rule claim_loop_Some) simp
  from order_first_Some(1) [OF p] have pin: "p \<in> set (job_domains d)" "jd_state p = Queued"
    by (auto simp: open_rows_def claimable_def)
  have keys: "distinct (map jd_key (job_domains d))" using inv by (simp add: sys_inv_def d_def inv_defs)
  have waiting: "bd_cells (board_of s) (jd_key p) = Some Waiting"
    using cells_of_row [OF keys pin(1)] pin(2) by (simp add: board_of_def d_def cell_of_def)
  have tok: "c_token c \<in> (\<lambda>k. new_token w (hex k)) ` {..<5}" using k by (simp add: pick_jobs_def)
  have new: "(\<lambda>k. new_token w (hex k)) ` {..<5} \<inter> bd_issued (board_of s) = {}" using fresh by (auto simp: board_of_def)
  have "cells (job_domains d') = (cells (job_domains d))(jd_key p \<mapsto> Held (c_token c))"
    using pin(1) by (simp add: d' mark_started_def cells_take)
  moreover have "fst (claim locked now w hex (sy_db s)) = d'" using c by (simp add: claim_def d_def)
  ultimately show ?thesis
    using board_step.take [OF waiting tok new] by (simp add: board_of_def d_def)
qed

lemma finish_step:
  assumes inv: "sys_inv s"
  shows "board_step (board_of s) (board_of (s\<lparr>sy_db := fst (finish now c res fc wc (sy_db s)),
    sy_log := (if fst (snd (finish now c res fc wc (sy_db s))) then c_token c # sy_log s else sy_log s)\<rparr>))"
proof (cases "\<exists>r \<in> set (job_domains (sy_db s)). owns_row c r")
  case True
  then obtain r where r: "r \<in> set (job_domains (sy_db s))" "owns_row c r" by blast
  have keys: "distinct (map jd_key (job_domains (sy_db s)))" using inv by (simp add: sys_inv_def inv_defs)
  have "bd_cells (board_of s) (jd_key r) = Some (Held (c_token c))"
    using cells_of_row [OF keys r(1)] r(2) by (simp add: board_of_def cell_of_def owns_row_def)
  from board_step.answer [OF this, of "dr_status res = Fetch_Failed"] show ?thesis
    using True by (simp add: board_of_def finish_rows cells_finish [OF keys r] recorded_iff)
next
  case False
  then have "job_domains (fst (finish now c res fc wc (sy_db s))) = job_domains (sy_db s)"
    by (simp add: finish_rows upd_where_none)
  with False show ?thesis by (simp add: board_of_def recorded_iff board_step.idle)
qed

lemma board_of_db: "board_of (s\<lparr>sy_db := d\<rparr>) = (board_of s)\<lparr>bd_cells := cells (job_domains d)\<rparr>"
  by (simp add: board_of_def)

lemma step_same: "job_domains d = job_domains (sy_db s) \<Longrightarrow> board_step (board_of s) (board_of (s\<lparr>sy_db := d\<rparr>))"
  using board_step.idle [of "board_of s"] by (simp add: board_of_def)

lemma step_freed:
  "each_moves freed (cells (job_domains (sy_db s))) (cells (job_domains d)) \<Longrightarrow>
   board_step (board_of s) (board_of (s\<lparr>sy_db := d\<rparr>))"
  unfolding board_of_db by (rule board_step.give_back) (simp add: board_of_def)

lemma board_sim: "\<lbrakk> sys_step s t; sys_inv s \<rbrakk> \<Longrightarrow> board_step (board_of s) (board_of t)"
proof (induction rule: sys_step.induct)
  case (tick dt s)
  then show ?case using board_step.idle [of "board_of s"] by (simp add: board_of_def)
next
  case (claim w hex s locked)
  then show ?case by (intro claim_step)
next
  case (finish s c res fc wc)
  then show ?case by (intro finish_step)
next
  case (retry s j)
  then show ?case unfolding board_of_db
    by (intro board_step.reopen) (simp add: board_of_def moves_retry)
next
  case (create j s cfg ok clock who rq)
  then show ?case unfolding board_of_db
    by (intro board_step.add) (simp add: board_of_def create_cells)
qed (simp_all add: step_same rows_kept step_freed moves_requeue moves_reap moves_release moves_beat)

interpretation bd: refinement sys_start sys_step sys_inv board_of board_start board_step
proof unfold_locales
  show "board_start (board_of s)" if "sys_start s" for s
    using that by (auto simp: sys_start_def board_start_def board_of_def cells_def)
  show "board_step (board_of s) (board_of t)" if "sys_inv s" "sys_step s t" for s t
    using that by (intro board_sim)
qed

section \<open>What the board promises\<close>

definition board_inv :: "board \<Rightarrow> bool" where
  "board_inv b \<longleftrightarrow>
     (\<forall>k t. bd_cells b k = Some (Held t) \<longrightarrow> t \<in> bd_issued b \<and> t \<notin> set (bd_answers b)) \<and>
     (\<forall>k k' t. bd_cells b k = Some (Held t) \<longrightarrow> bd_cells b k' = Some (Held t) \<longrightarrow> k = k') \<and>
     set (bd_answers b) \<subseteq> bd_issued b \<and> distinct (bd_answers b)"

lemma held_before:
  assumes "each_moves mv m m'" and "\<And>c c'. mv c c' \<Longrightarrow> c' = Waiting" and "m' k = Some (Held t)"
  shows "m k = Some (Held t)"
proof -
  from assms(1) have "m' k = m k \<or> (\<exists>c c'. m k = Some c \<and> m' k = Some c' \<and> mv c c')" by (simp add: each_moves_def)
  with assms(3) show ?thesis by (auto dest: assms(2))
qed

lemma board_inv_cells:
  assumes "board_inv b" and "\<And>k t. m k = Some (Held t) \<Longrightarrow> bd_cells b k = Some (Held t)"
  shows "board_inv (b\<lparr>bd_cells := m\<rparr>)"
  using assms(1) unfolding board_inv_def by (simp del: split_paired_All) (blast dest: assms(2))

interpretation bi: invariant_system board_start board_step board_inv
proof unfold_locales
  show "board_inv b" if "board_start b" for b
    using that by (simp add: board_start_def board_inv_def)
  show "board_inv b'" if "board_step b b'" "board_inv b" for b b'
    using that
  proof (induction rule: board_step.induct)
    case (add m b)
    show ?case
    proof (rule board_inv_cells [OF add(2)])
      show "bd_cells b k = Some (Held t)" if "m k = Some (Held t)" for k t
        using add(1) [of k] that by auto
    qed
  next
    case (none_free T b)
    then show ?case by (simp add: board_inv_def) blast
  next
    case (take b k t T)
    then show ?case unfolding board_inv_def by (auto simp del: split_paired_All split: if_splits)
  next
    case (give_back b m)
    then show ?case by (intro board_inv_cells) (auto elim: held_before)
  next
    case (answer b k t f)
    then show ?case unfolding board_inv_def by (auto simp del: split_paired_All split: if_splits)
  next
    case (reopen b m)
    then show ?case by (intro board_inv_cells) (auto elim: held_before)
  qed
qed

lemma final_step: "board_step b b' \<Longrightarrow> bd_cells b k = Some (Answered False) \<Longrightarrow> bd_cells b' k = Some (Answered False)"
proof (induction rule: board_step.induct)
  case (add m b)
  then show ?case using add(1) [of k] by auto
next
  case (give_back b m)
  then have "m k = bd_cells b k \<or> (\<exists>c c'. bd_cells b k = Some c \<and> m k = Some c' \<and> freed c c')"
    unfolding each_moves_def by blast
  with give_back show ?case by auto
next
  case (reopen b m)
  then have "m k = bd_cells b k \<or> (\<exists>c c'. bd_cells b k = Some c \<and> m k = Some c' \<and> c = Answered True \<and> c' = Waiting)"
    unfolding each_moves_def by blast
  with reopen show ?case by auto
qed auto

lemma final_steps: "board_step\<^sup>*\<^sup>* b b' \<Longrightarrow> bd_cells b k = Some (Answered False) \<Longrightarrow> bd_cells b' k = Some (Answered False)"
  by (induction rule: rtranclp_induct) (auto intro: final_step)

text \<open>
  C5: The queue implements a board. Seen as one cell for each domain of a job, waiting, held
  under a token or answered, every reachable database is a reachable board, and every
  transaction of a worker, a reaper or the API is a move of the board or none: a waiting cell is
  taken under a token never issued before, a held one is given back or answered by its holder,
  and only an answer that says the fetch failed is reopened. So on every reachable database no
  token holds two cells, and an answer other than a failed fetch stays for ever.
\<close>

theorem queue_refines_board:
  assumes "reachable sys_start sys_step s" and "sys_step s t" and "sys_step\<^sup>*\<^sup>* t u"
  shows "reachable board_start board_step (board_of s) \<and> board_step (board_of s) (board_of t) \<and>
    board_inv (board_of s) \<and>
    (\<forall>k. bd_cells (board_of t) k = Some (Answered False) \<longrightarrow> bd_cells (board_of u) k = Some (Answered False))"
proof -
  have s: "reachable board_start board_step (board_of s)" by (rule bd.abs_reachable [OF assms(1)])
  have inv: "sys_inv s" "sys_inv t"
    using qs.inv_reachable assms(1, 2) by (auto intro: reachable.step)
  from s bi.inv_reachable bd.abs_step [OF inv(1) assms(2)] final_steps [OF bd.abs_steps [OF assms(3) inv(2)]]
  show ?thesis by blast
qed

theorem queue_refines_board_witness:
  "bd_cells (board_of run3) (1, ''x.com'') = Some (Answered False) \<and>
   board_step (board_of run2) (board_of run3) \<and> board_inv (board_of run2)"
proof -
  have c: "bd_cells (board_of run3) (1, ''x.com'') = Some (Answered False)" by code_simp
  have "sys_step run2 run3" unfolding run3_def by (rule sys_step.finish)
  from queue_refines_board [OF run2_reachable this rtranclp.rtrancl_refl] c show ?thesis by blast
qed

end
