(* ===== verification/Finish_Race.thy ===== *)
theory Finish_Race
  imports Queue_Inv
begin

text \<open>
  Why \<open>complete_if_finished\<close> takes the lock on the job row in a statement of its own. In the
  other theories a transaction is one step; here \<open>finish\<close> is taken apart into its statements
  under READ COMMITTED, for the finishers of one job's rows. A finisher writes its row (seen by
  others only once it commits), then waits for the lock on the job row, then runs the
  \<open>UPDATE jobs .. WHERE NOT EXISTS\<close> with a fresh snapshot (what is committed, plus its own
  write), and commits, which publishes its row and releases the lock. The variant without the
  lock shows the failure the comment in the source describes.
\<close>

datatype pc = Start | Written | Locked | Checked | Committed

record race =
  pcs :: "pc list"
  lock_holder :: "nat option"
  job_done :: bool
  reports :: "bool list"

text \<open>The rows another transaction sees as finished, and finisher \<open>i\<close> besides.\<close>

definition seen_done :: "race \<Rightarrow> nat \<Rightarrow> nat \<Rightarrow> bool" where
  "seen_done s i k \<longleftrightarrow> pcs s ! k = Committed \<or> k = i"

definition sees_all_done :: "race \<Rightarrow> nat \<Rightarrow> bool" where
  "sees_all_done s i \<longleftrightarrow> (\<forall>k < length (pcs s). seen_done s i k)"

definition race_start :: "race \<Rightarrow> bool" where
  "race_start s \<longleftrightarrow> (\<forall>p \<in> set (pcs s). p = Start) \<and> pcs s \<noteq> [] \<and> lock_holder s = None \<and> \<not> job_done s \<and>
     reports s = replicate (length (pcs s)) False"

text \<open>
  The statements of \<open>finish\<close>. \<open>uses_lock\<close> is whether \<open>SELECT .. FOR UPDATE\<close> comes first. The
  update of the job itself is guarded by its status, which is read under the row lock the
  \<open>UPDATE\<close> takes, so a job is completed once.
\<close>

inductive race_step :: "bool \<Rightarrow> race \<Rightarrow> race \<Rightarrow> bool" for uses_lock :: bool where
  put: "\<lbrakk> i < length (pcs s); pcs s ! i = Start \<rbrakk> \<Longrightarrow>
    race_step uses_lock s (s\<lparr>pcs := (pcs s)[i := Written]\<rparr>)"
| take: "\<lbrakk> i < length (pcs s); pcs s ! i = Written; uses_lock \<longrightarrow> lock_holder s = None \<rbrakk> \<Longrightarrow>
    race_step uses_lock s (s\<lparr>pcs := (pcs s)[i := Locked],
      lock_holder := (if uses_lock then Some i else lock_holder s)\<rparr>)"
| complete: "\<lbrakk> i < length (pcs s); pcs s ! i = Locked; sees_all_done s i; \<not> job_done s \<rbrakk> \<Longrightarrow>
    race_step uses_lock s (s\<lparr>pcs := (pcs s)[i := Checked], job_done := True,
      reports := (reports s)[i := True]\<rparr>)"
| decline: "\<lbrakk> i < length (pcs s); pcs s ! i = Locked; \<not> sees_all_done s i \<or> job_done s \<rbrakk> \<Longrightarrow>
    race_step uses_lock s (s\<lparr>pcs := (pcs s)[i := Checked]\<rparr>)"
| commit: "\<lbrakk> i < length (pcs s); pcs s ! i = Checked \<rbrakk> \<Longrightarrow>
    race_step uses_lock s (s\<lparr>pcs := (pcs s)[i := Committed],
      lock_holder := (if uses_lock then None else lock_holder s)\<rparr>)"

definition race_inv :: "race \<Rightarrow> bool" where
  "race_inv s \<longleftrightarrow> length (reports s) = length (pcs s) \<and> pcs s \<noteq> [] \<and>
     (\<forall>i < length (pcs s). pcs s ! i \<in> {Locked, Checked} \<longleftrightarrow> lock_holder s = Some i) \<and>
     (\<forall>i. lock_holder s = Some i \<longrightarrow> i < length (pcs s)) \<and>
     (job_done s \<longleftrightarrow> (\<forall>i < length (pcs s). pcs s ! i \<in> {Checked, Committed})) \<and>
     length (filter id (reports s)) = (if job_done s then 1 else 0) \<and>
     (\<forall>i < length (pcs s). reports s ! i \<longrightarrow> pcs s ! i \<in> {Checked, Committed})"

lemma race_inv_start:
  assumes st: "race_start s"
  shows "race_inv s"
proof -
  have "pcs s = replicate (length (pcs s)) Start"
    using st by (simp add: race_start_def replicate_length_same)
  then obtain n where n: "pcs s = replicate n Start" by blast
  moreover have "length (filter id (replicate n False)) = 0" by (induction n) auto
  ultimately show ?thesis using st by (auto simp: race_start_def race_inv_def intro!: exI [of _ "0::nat"])
qed

lemma count_report:
  "\<lbrakk> i < length bs; length (filter id bs) = 0 \<rbrakk> \<Longrightarrow> length (filter id (bs[i := True])) = 1"
proof (induction bs arbitrary: i)
  case (Cons b bs)
  then show ?case by (cases i) (auto split: if_splits)
qed simp

lemma race_inv_step: "\<lbrakk> race_step True s t; race_inv s \<rbrakk> \<Longrightarrow> race_inv t"
proof (induction rule: race_step.induct)
  case (put i s)
  then have "\<not> job_done s" "\<not> reports s ! i" "lock_holder s \<noteq> Some i" by (fastforce simp: race_inv_def)+
  with put show ?case by (auto simp: race_inv_def nth_list_update intro: exI [of _ i])
next
  case (take i s)
  then have "\<not> job_done s" "\<not> reports s ! i" by (fastforce simp: race_inv_def)+
  with take show ?case by (auto simp: race_inv_def nth_list_update)
next
  case (complete i s)
  then have all: "\<forall>k < length (pcs s). k \<noteq> i \<longrightarrow> pcs s ! k = Committed"
    by (auto simp: sees_all_done_def seen_done_def)
  with complete count_report [of i "reports s"] show ?case
    by (auto simp: race_inv_def nth_list_update)
next
  case (decline i s)
  then have nd: "\<not> job_done s" by (fastforce simp: race_inv_def)
  with decline obtain k where k: "k < length (pcs s)" "k \<noteq> i" "pcs s ! k \<noteq> Committed"
    by (auto simp: sees_all_done_def seen_done_def)
  have "lock_holder s = Some i" and "pcs s ! k = Checked \<Longrightarrow> lock_holder s = Some k"
    using decline k(1) by (auto simp: race_inv_def)
  with k have "pcs s ! k \<notin> {Checked, Committed}" by auto
  with nd decline k show ?case by (auto simp: race_inv_def nth_list_update)
next
  case (commit i s)
  then have "lock_holder s = Some i" by (auto simp: race_inv_def)
  then have only: "pcs s ! k \<noteq> Locked" "pcs s ! k \<noteq> Checked" if "k < length (pcs s)" "k \<noteq> i" for k
    using commit that by (auto simp: race_inv_def)
  from commit show ?case by (auto simp: race_inv_def nth_list_update only)
qed

interpretation fr: invariant_system race_start "race_step True" race_inv
  by unfold_locales (auto intro: race_inv_start race_inv_step)

section \<open>Progress\<close>

fun pc_left :: "pc \<Rightarrow> nat" where
  "pc_left Start = 4" | "pc_left Written = 3" | "pc_left Locked = 2" | "pc_left Checked = 1"
| "pc_left Committed = 0"

definition race_left :: "race \<Rightarrow> nat" where
  "race_left s = (\<Sum>p\<leftarrow>pcs s. pc_left p)"

lemma left_update:
  "\<lbrakk> i < length ps; pc_left p < pc_left (ps ! i) \<rbrakk>
     \<Longrightarrow> (\<Sum>q\<leftarrow>ps[i := p]. pc_left q) < (\<Sum>q\<leftarrow>ps. pc_left q)"
proof (induction ps arbitrary: i)
  case (Cons q ps)
  then show ?case by (cases i) auto
qed simp

lemma race_step_left: "race_step u s t \<Longrightarrow> race_left t < race_left s"
  by (induction rule: race_step.induct) (auto simp: race_left_def intro!: left_update)

lemma race_progress:
  assumes inv: "race_inv s" and i: "i < length (pcs s)" "pcs s ! i \<noteq> Committed"
  shows "\<exists>t. race_step True s t"
proof (cases "lock_holder s")
  case None
  with inv i have "pcs s ! i \<notin> {Locked, Checked}" by (auto simp: race_inv_def)
  with i have "pcs s ! i = Start \<or> pcs s ! i = Written" by (cases "pcs s ! i") auto
  with None i show ?thesis by (meson race_step.put race_step.take)
next
  case (Some k)
  with inv have k: "k < length (pcs s)" "pcs s ! k = Locked \<or> pcs s ! k = Checked"
    by (auto simp: race_inv_def)
  then show ?thesis by (meson race_step.complete race_step.decline race_step.commit)
qed

text \<open>
  C4: However the statements of the finishers of a job's rows interleave, the job is not left
  running: when all have committed, the job is done and exactly one of them reported it. Before
  that some statement can always run, and every statement brings the run closer to its end, so
  all do commit.
\<close>

theorem finish_race:
  assumes "reachable race_start (race_step True) s"
  shows "(if \<forall>p \<in> set (pcs s). p = Committed
      then job_done s \<and> length (filter id (reports s)) = 1
      else \<exists>t. race_step True s t) \<and>
    (\<forall>t. race_step True s t \<longrightarrow> race_left t < race_left s)"
proof -
  have inv: "race_inv s" by (rule fr.inv_reachable [OF assms])
  have "job_done s \<and> length (filter id (reports s)) = 1" if "\<forall>p \<in> set (pcs s). p = Committed"
    using inv that by (auto simp: race_inv_def)
  moreover have "\<exists>t. race_step True s t" if "\<not> (\<forall>p \<in> set (pcs s). p = Committed)"
    using that race_progress [OF inv] by (auto simp: in_set_conv_nth)
  ultimately show ?thesis using race_step_left by simp
qed

definition race2 :: race where
  "race2 = \<lparr>pcs = [Start, Start], lock_holder = None, job_done = False, reports = [False, False]\<rparr>"

lemma race2_start: "race_start race2"
  by (simp add: race_start_def race2_def)

theorem finish_race_witness: "\<exists>t. race_step True race2 t"
proof -
  have "reachable race_start (race_step True) race2" by (rule reachable.init) (rule race2_start)
  from finish_race [OF this] show ?thesis by (simp add: race2_def)
qed

text \<open>Without the lock, two finishers that overlap both decline and the job stays running.\<close>

lemma lost_without_lock:
  "\<exists>s. reachable race_start (race_step False) s \<and> (\<forall>p \<in> set (pcs s). p = Committed) \<and> \<not> job_done s"
proof -
  let ?s = "\<lambda>a b. race2\<lparr>pcs := [a, b]\<rparr>"
  have st: "race_step False (?s a b) (?s a' b')"
    if "(a, b, a', b') \<in> {(Start, Start, Written, Start), (Written, Start, Written, Written),
      (Written, Written, Locked, Written), (Locked, Written, Locked, Locked),
      (Locked, Locked, Checked, Locked), (Checked, Locked, Checked, Checked),
      (Checked, Checked, Committed, Checked), (Committed, Checked, Committed, Committed)}" for a b a' b'
  proof -
    have dec: "\<not> sees_all_done (?s a b) i" if "i < 2" "[a, b] ! (1 - i) \<noteq> Committed" for i
      using that by (auto simp: sees_all_done_def seen_done_def race2_def less_Suc_eq numeral_2_eq_2 intro: exI [of _ "1 - i"])
    show ?thesis
      using that race_step.put [of 0 "?s a b" False] race_step.put [of 1 "?s a b" False]
        race_step.take [of 0 "?s a b" False] race_step.take [of 1 "?s a b" False]
        race_step.decline [of 0 "?s a b" False] race_step.decline [of 1 "?s a b" False]
        race_step.commit [of 0 "?s a b" False] race_step.commit [of 1 "?s a b" False] dec [of 0] dec [of 1]
      by (auto simp: race2_def)
  qed
  have "reachable race_start (race_step False) (?s Start Start)"
    by (rule reachable.init) (simp add: race_start_def race2_def)
  note go = reachable.step [where I = race_start and R = "race_step False"]
  from \<open>reachable race_start (race_step False) (?s Start Start)\<close>
  have "reachable race_start (race_step False) (?s Written Start)" by (rule go) (rule st, simp)
  then have "reachable race_start (race_step False) (?s Written Written)" by (rule go) (rule st, simp)
  then have "reachable race_start (race_step False) (?s Locked Written)" by (rule go) (rule st, simp)
  then have "reachable race_start (race_step False) (?s Locked Locked)" by (rule go) (rule st, simp)
  then have "reachable race_start (race_step False) (?s Checked Locked)" by (rule go) (rule st, simp)
  then have "reachable race_start (race_step False) (?s Checked Checked)" by (rule go) (rule st, simp)
  then have "reachable race_start (race_step False) (?s Committed Checked)" by (rule go) (rule st, simp)
  then have "reachable race_start (race_step False) (?s Committed Committed)" by (rule go) (rule st, simp)
  then show ?thesis by (intro exI [of _ "?s Committed Committed"]) (simp add: race2_def)
qed

end
