(* ===== verification/Worker.thy ===== *)
theory Worker
  imports Queue_System
begin

text \<open>
  The handler of one claimed domain in \<open>src/app/worker.py\<close> (\<open>handle\<close>, \<open>_handle\<close>, \<open>_finish\<close>).
  Each call into the queue is a transaction; between two of them every other process may
  change the database, which is the argument \<open>env\<close>: \<open>env k d\<close> is the database the handler's
  \<open>k\<close>-th transaction finds when the one before left \<open>d\<close>, and \<open>clk k\<close> is the time of that
  transaction. What the pipeline made of the domain is the argument \<open>out\<close>, and \<open>key_changed\<close>
  says whether reloading the provider keys brought a new one. The result is the database and
  the deliveries handed to the webhook sender.
\<close>

definition ERROR_RETRY_DELAY_S :: rat where "ERROR_RETRY_DELAY_S = 30"

definition MAX_CLAIMS :: "settings \<Rightarrow> int" where
  "MAX_CLAIMS cfg = max_domain_attempts cfg + 2"

datatype outcome = Result domain_result | Account_Error | Raised

datatype event =
  Domain_Done string uuid "nat list" domain_result
| Job_Done string uuid job_tally

section \<open>Finishing with a delivery\<close>

text \<open>\<open>_finish\<close> as transactions \<open>k\<close>, \<open>k + 1\<close> and \<open>k + 2\<close> of the handler.\<close>

definition worker_finish ::
  "(nat \<Rightarrow> db \<Rightarrow> db) \<Rightarrow> (nat \<Rightarrow> time) \<Rightarrow> nat \<Rightarrow> job option \<Rightarrow> claimed \<Rightarrow> domain_result \<Rightarrow> bool \<Rightarrow> bool \<Rightarrow> db \<Rightarrow>
     db \<times> event list" where
  "worker_finish env clk k job c res from_cache write_cache d =
     (let (d1, recorded, dn) = finish (clk k) c res from_cache write_cache (env k d)
      in if \<not> recorded then (d1, [])
         else
           case job of
             None \<Rightarrow> (d1, [])
           | Some x \<Rightarrow>
               if \<not> truthy (j_webhook_url x) then (d1, [])
               else
                 let url = or_empty (j_webhook_url x);
                     d2 = env (k + 1) d1;
                     rows = row_indexes (c_job_id c) (c_domain c) d2;
                     d3 = env (k + 2) d2
                 in (d3, Domain_Done url (c_job_id c) rows res #
                         (if dn then [Job_Done url (c_job_id c) (job_counts (c_job_id c) d3)] else [])))"

section \<open>Handling a claim\<close>

definition find_job :: "uuid \<Rightarrow> db \<Rightarrow> job option" where
  "find_job j d = find (\<lambda>x. j_id x = j) (jobs d)"

text \<open>
  After the pipeline has run: \<open>None\<close> stands for an exception that leaves \<open>_handle\<close>.
\<close>

definition after_process ::
  "settings \<Rightarrow> (nat \<Rightarrow> db \<Rightarrow> db) \<Rightarrow> (nat \<Rightarrow> time) \<Rightarrow> outcome \<Rightarrow> bool \<Rightarrow> claimed \<Rightarrow> db \<Rightarrow>
     db \<times> event list option" where
  "after_process cfg env clk out key_changed c d =
     (case out of
        Raised \<Rightarrow> (d, None)
      | Account_Error \<Rightarrow>
          let d1 = (if key_changed then d
                    else pause_active_jobs (clk 5) (fetch_backend cfg @ ''_account'') (env 5 d));
              d2 = unlock_domain c (env 6 d1);
              d3 = requeue (clk 7) c 0 False (env 7 d2)
          in (d3, Some [])
      | Result res \<Rightarrow>
          if (case dr_error_reason res of None \<Rightarrow> False | Some e \<Rightarrow> e \<in> set RETRYABLE_DOMAIN_REASONS) \<and>
             c_attempts c < max_domain_attempts cfg
          then let d1 = unlock_domain c (env 5 d);
                   d2 = requeue (clk 6) c (of_int (retry_pass_delay_s cfg)) True (env 6 d1)
               in (d2, Some [])
          else let d1 = env 5 d;
                   (d2, evs) = worker_finish env clk 6 (find_job (c_job_id c) d1) c res False True d1
               in (d2, Some evs))"

definition handle_claim ::
  "settings \<Rightarrow> (nat \<Rightarrow> db \<Rightarrow> db) \<Rightarrow> (nat \<Rightarrow> time) \<Rightarrow> outcome \<Rightarrow> bool \<Rightarrow> claimed \<Rightarrow> db \<Rightarrow>
     db \<times> event list option" where
  "handle_claim cfg env clk out key_changed c d =
     (let d0 = env 0 d in
      case find_job (c_job_id c) d0 of
        None \<Rightarrow> (d0, Some [])
      | Some x \<Rightarrow>
          let d1 = env 1 d0 in
          case cached_result cfg (clk 1) x (c_domain c) (c_not_before c) d1 of
            Some res \<Rightarrow> (let (e, evs) = worker_finish env clk 2 (Some x) c res True True d1 in (e, Some evs))
          | None \<Rightarrow>
              if c_attempts c > MAX_CLAIMS cfg then
                let res = (DomainResult (c_domain c) Fetch_Failed)
                      \<lparr>dr_error_reason := Some ''internal_error'', dr_site_status := Some ''too_many_attempts''\<rparr>;
                    (e, evs) = worker_finish env clk 2 (Some x) c res False False d1
                in (e, Some evs)
              else
                let (d2, got) = lock_domain (clk 2) c (env 2 d1) in
                if \<not> got then (requeue (clk 3) c LOCK_BUSY_DELAY_S False (env 3 d2), Some [])
                else
                  let d3 = env 3 d2 in
                  case cached_result cfg (clk 3) x (c_domain c) (c_not_before c) d3 of
                    Some res \<Rightarrow>
                      let d4 = unlock_domain c (env 4 d3);
                          (e, evs) = worker_finish env clk 5 (Some x) c res True True d4
                      in (e, Some evs)
                  | None \<Rightarrow> after_process cfg env clk out key_changed c (env 4 d3))"

text \<open>\<open>handle\<close>: an exception gives the lock and the row back.\<close>

definition handle ::
  "settings \<Rightarrow> (nat \<Rightarrow> db \<Rightarrow> db) \<Rightarrow> (nat \<Rightarrow> time) \<Rightarrow> outcome \<Rightarrow> bool \<Rightarrow> claimed \<Rightarrow> db \<Rightarrow> db \<times> event list" where
  "handle cfg env clk out key_changed c d =
     (case handle_claim cfg env clk out key_changed c d of
        (e, Some evs) \<Rightarrow> (e, evs)
      | (e, None) \<Rightarrow>
          let e1 = unlock_domain c (env 8 e)
          in (requeue (clk 9) c ERROR_RETRY_DELAY_S True (env 9 e1), []))"

section \<open>What a handler leaves behind\<close>

definition holds_row :: "claimed \<Rightarrow> db \<Rightarrow> bool" where
  "holds_row c d \<longleftrightarrow> (\<exists>r \<in> set (job_domains d). owns_row c r)"

definition holds_lock :: "claimed \<Rightarrow> db \<Rightarrow> bool" where
  "holds_lock c d \<longleftrightarrow> (\<exists>x \<in> set (domains d). d_domain x = c_domain c \<and> d_lock_owner x = Some (c_token c))"

text \<open>Other processes never act under this claim's token: they take nothing in its name.\<close>

definition foreign :: "claimed \<Rightarrow> (nat \<Rightarrow> db \<Rightarrow> db) \<Rightarrow> bool" where
  "foreign c env \<longleftrightarrow> (\<forall>k d. (holds_row c (env k d) \<longrightarrow> holds_row c d) \<and>
     (holds_lock c (env k d) \<longrightarrow> holds_lock c d))"

lemma holds_simps [simp]:
  "\<not> holds_lock c (unlock_domain c d)"
  "\<not> holds_row c (requeue now c delay ca d)"
  "holds_row c (unlock_domain c d) = holds_row c d"
  "holds_lock c (requeue now c delay ca d) = holds_lock c d"
  "holds_row c (pause_active_jobs now reason d) = holds_row c d"
  "holds_lock c (pause_active_jobs now reason d) = holds_lock c d"
  "holds_row c (fst (lock_domain now c d)) = holds_row c d"
  by (auto simp: holds_lock_def holds_row_def unlock_domain_def bex_upd_where drop_lock_def requeue_def
      requeue_row_def owns_row_def pause_active_jobs_def)

lemma finish_releases:
  "\<not> holds_row c (fst (finish now c res fc wc d))" "\<not> holds_lock c (fst (finish now c res fc wc d))"
proof -
  show "\<not> holds_row c (fst (finish now c res fc wc d))"
    by (simp add: holds_row_def finish_rows not_owned_after)
  have "holds_lock c (fst (complete_if_finished now j e)) = holds_lock c e" for j e
    by (simp add: holds_lock_def complete_if_finished_def Let_def)
  then show "\<not> holds_lock c (fst (finish now c res fc wc d))"
    by (simp add: finish_eq Let_def)
qed

lemma lock_refused: "\<not> snd (lock_domain now c d) \<Longrightarrow> holds_lock c (fst (lock_domain now c d)) = holds_lock c d"
proof -
  assume no: "\<not> snd (lock_domain now c d)"
  have "holds_lock c (d\<lparr>domains := insert_domain now (c_domain c) (domains d)\<rparr>) = holds_lock c d"
    by (auto simp: holds_lock_def insert_domain_def new_domain_row_def)
  with no show ?thesis
    by (auto simp: lock_domain_def Let_def upd_where_none)
qed

lemma foreignD:
  assumes "foreign c env"
  shows "\<not> holds_row c d \<Longrightarrow> \<not> holds_row c (env k d)" "\<not> holds_lock c d \<Longrightarrow> \<not> holds_lock c (env k d)"
  using assms by (auto simp: foreign_def)

lemma worker_finish_clean:
  assumes "foreign c env"
  shows "\<not> holds_row c (fst (worker_finish env clk k job c res fc wc d)) \<and>
    \<not> holds_lock c (fst (worker_finish env clk k job c res fc wc d))"
  using finish_releases [of c "clk k" res fc wc "env k d"] foreignD [OF assms]
  by (auto simp: worker_finish_def Let_def split: prod.splits option.splits)

lemma worker_finish_silent:
  assumes "\<not> holds_row c (env k d)"
  shows "snd (worker_finish env clk k job c res fc wc d) = []"
  using assms by (auto simp: worker_finish_def finish_eq holds_row_def)

lemma after_process_clean:
  assumes f: "foreign c env" and out: "after_process cfg env clk out kc c d = (e, Some evs)"
  shows "\<not> holds_row c e \<and> \<not> holds_lock c e"
proof (cases out)
  case (Result res)
  with out worker_finish_clean [OF f] show ?thesis
    by (auto simp: after_process_def Let_def foreignD [OF f] split: if_splits prod.splits)
      (metis fst_conv)+
qed (use out in \<open>auto simp: after_process_def Let_def foreignD [OF f]\<close>)

lemma handle_claim_clean:
  assumes f: "foreign c env" and lock: "\<not> holds_lock c d" and refs: "refs_inv (env 0 d)"
    and out: "handle_claim cfg env clk out kc c d = (e, Some evs)"
  shows "\<not> holds_row c e \<and> \<not> holds_lock c e"
proof (cases "find_job (c_job_id c) (env 0 d)")
  case None
  have "jd_job_id r \<noteq> c_job_id c" if "r \<in> set (job_domains (env 0 d))" for r
    using refs_invD(1) [OF refs that] None by (auto simp: find_job_def find_None_iff)
  then have "\<not> holds_row c (env 0 d)" by (auto simp: holds_row_def owns_row_def)
  moreover have "\<not> holds_lock c (env 0 d)" using lock foreignD [OF f] by blast
  ultimately show ?thesis using None out by (auto simp: handle_claim_def)
next
  case (Some x)
  let ?d1 = "env 1 (env 0 d)"
  have l2: "\<not> holds_lock c (env 2 ?d1)" using lock foreignD [OF f] by blast
  show ?thesis
  proof (cases "snd (lock_domain (clk 2) c (env 2 ?d1))")
    case True
    with Some out show ?thesis
      using worker_finish_clean [OF f] after_process_clean [OF f]
      by (auto simp: handle_claim_def Let_def split_def split: option.splits if_splits)
  next
    case False
    with lock_refused [OF False] l2 have "\<not> holds_lock c (env 3 (fst (lock_domain (clk 2) c (env 2 ?d1))))"
      using foreignD [OF f] by blast
    with Some out False show ?thesis
      using worker_finish_clean [OF f]
      by (auto simp: handle_claim_def Let_def split_def split: option.splits if_splits)
  qed
qed


text \<open>
  A claim that lost its row stays silent. If the row was already taken back when the
  handler started (reaped and claimed again, or released), it sends no webhook, whatever the
  pipeline answers.
\<close>

theorem lost_claim_silent:
  assumes f: "foreign c env" and lost: "\<not> holds_row c d"
  shows "snd (handle cfg env clk out kc c d) = []"
proof -
  note keep = foreignD(1) [OF f]
  have fin: "snd (worker_finish env clk k job c res fc wc e) = []" if "\<not> holds_row c e" for k job res fc wc e
    by (rule worker_finish_silent) (rule keep [OF that])
  have "snd (after_process cfg env clk out kc c e) \<in> {None, Some []}" if "\<not> holds_row c e" for e
    using fin [OF keep [OF that]] by (auto simp: after_process_def Let_def split_def split: outcome.splits)
  then have "snd (handle_claim cfg env clk out kc c d) \<in> {None, Some []}"
    using lost fin keep
    by (auto simp: handle_claim_def Let_def split_def split: option.splits)
  then show ?thesis
    by (auto simp: handle_def Let_def split: prod.splits option.splits)
qed

text \<open>The columns of the shared cache that other jobs read.\<close>

definition cache_view :: "db \<Rightarrow> (string \<times> status option \<times> doc option \<times> time option) list" where
  "cache_view d = map (\<lambda>x. (d_domain x, d_status x, d_result x, d_finished_at x)) (domains d)"

lemma cache_view_simps [simp]:
  "cache_view (unlock_domain c d) = cache_view d"
  "cache_view (fst (complete_if_finished now j d)) = cache_view d"
  "cache_view (d\<lparr>job_domains := rs\<rparr>) = cache_view d"
  by (auto simp: cache_view_def unlock_domain_def complete_if_finished_def Let_def drop_lock_def
      intro!: map_upd_where)

text \<open>
  A domain that keeps dying is given up, privately. On a claim past \<open>MAX_CLAIMS\<close> with no
  usable cached result, a handler that still owns its row stores \<open>fetch_failed\<close> with
  \<open>too_many_attempts\<close> on that row without running the pipeline, changes nothing that other
  jobs read from the shared cache, and the row is one that a later retry sends back.
\<close>

theorem gives_up_privately:
  assumes "find_job (c_job_id c) (env 0 d) = Some x" and "\<not> truthy (j_webhook_url x)"
    and "cached_result cfg (clk 1) x (c_domain c) (c_not_before c) (env 1 (env 0 d)) = None"
    and "c_attempts c > MAX_CLAIMS cfg" and "holds_row c (env 2 (env 1 (env 0 d)))"
  shows "cache_view (fst (handle cfg env clk out kc c d)) = cache_view (env 2 (env 1 (env 0 d))) \<and>
    (\<exists>r \<in> set (job_domains (fst (handle cfg env clk out kc c d))).
       jd_key r = (c_job_id c, c_domain c) \<and> retryable_row (c_job_id c) r)"
proof -
  let ?d = "env 2 (env 1 (env 0 d))"
  let ?res = "(DomainResult (c_domain c) Fetch_Failed)
      \<lparr>dr_error_reason := Some ''internal_error'', dr_site_status := Some ''too_many_attempts''\<rparr>"
  let ?f = "finish (clk 2) c ?res False False ?d"
  have fst: "fst (handle cfg env clk out kc c d) = fst ?f"
    using assms(1-4)
    by (auto simp: handle_def handle_claim_def worker_finish_def Let_def split: prod.splits)
  have "cache_view (fst ?f) = cache_view ?d"
    using assms(5) by (simp add: finish_eq Let_def holds_row_def)
  moreover from assms(5) obtain r where r: "r \<in> set (job_domains ?d)" "owns_row c r"
    by (auto simp: holds_row_def)
  then have "finish_row (clk 2) ?res False r \<in> set (job_domains (fst ?f))"
    by (auto simp: finish_rows set_upd_where intro!: image_eqI [of _ _ r])
  moreover have "jd_key (finish_row (clk 2) ?res False r) = (c_job_id c, c_domain c)"
    "retryable_row (c_job_id c) (finish_row (clk 2) ?res False r)"
    using r by (auto simp: owns_row_def jd_key_def finish_row_def retryable_row_def DomainResult_def)
  ultimately show ?thesis unfolding fst by blast
qed

section \<open>Sample handlers\<close>

lemma s_db_holds: "holds_row s_claim s_db"
  by code_simp


theorem lost_claim_silent_witness:
  "snd (handle settings_default (\<lambda>_ d. d) (\<lambda>_. 200) (Result s_result) False s_claim (fst (reap 200 s_db))) = []"
proof -
  have f: "foreign s_claim (\<lambda>_ d. d)" by (simp add: foreign_def)
  have "\<not> holds_row s_claim (fst (reap 200 s_db))" by code_simp
  from lost_claim_silent [OF f this] show ?thesis .
qed

theorem gives_up_privately_witness:
  "\<exists>r \<in> set (job_domains (fst (handle settings_default (\<lambda>_ d. d) (\<lambda>_. 30) Raised False
        (s_claim\<lparr>c_attempts := 6\<rparr>) (s_db\<lparr>jobs := [(s_job 1 0 JRunning (Some 7))\<lparr>j_webhook_url := None\<rparr>]\<rparr>)))).
     jd_key r = (1, ''a.com'') \<and> retryable_row 1 r"
proof -
  let ?c = "s_claim\<lparr>c_attempts := 6\<rparr>"
  let ?x = "(s_job 1 0 JRunning (Some 7))\<lparr>j_webhook_url := None\<rparr>"
  let ?d = "s_db\<lparr>jobs := [?x]\<rparr>"
  have "find_job (c_job_id ?c) ?d = Some ?x" "\<not> truthy (j_webhook_url ?x)"
    "cached_result settings_default 30 ?x (c_domain ?c) (c_not_before ?c) ?d = None"
    "c_attempts ?c > MAX_CLAIMS settings_default" "holds_row ?c ?d"
    by code_simp+
  from gives_up_privately [of ?c "\<lambda>_ d. d" ?d ?x settings_default "\<lambda>_. 30" Raised False, OF this]
  show ?thesis by (simp add: s_claim_def)
qed

end
