(* ===== verification/Token_Bucket.thy ===== *)
theory Token_Bucket
  imports Prelude
begin

text \<open>
  The rate limiters of \<open>src/app/ratelimit.py\<close>: the token bucket a process keeps
  (\<open>TokenBucket\<close>) and the one that lives in Redis as a Lua script (\<open>_BUCKET_LUA\<close> with
  \<open>RedisTokenBucket\<close>). Each call takes the clock it reads as an argument. Both meet the
  contract \<open>budgeted\<close>: what they grant over any stretch of time is the capacity plus the rate
  times its length.
\<close>

section \<open>The local bucket\<close>

record bucket =
  b_rate_per_minute :: int
  b_rate :: rat
  b_capacity :: rat
  b_tokens :: rat
  b_updated :: time
  b_penalty_factor :: rat
  b_penalty_until :: time

definition bucket_capacity :: "int \<Rightarrow> int option \<Rightarrow> rat" where
  "bucket_capacity rpm capacity =
     of_int (case capacity of Some c \<Rightarrow> c | None \<Rightarrow> max 1 (rpm div 50))"

definition TokenBucket :: "int \<Rightarrow> int option \<Rightarrow> time \<Rightarrow> bucket" where
  "TokenBucket rpm capacity now = \<lparr>
     b_rate_per_minute = rpm, b_rate = of_int rpm / 60,
     b_capacity = bucket_capacity rpm capacity, b_tokens = bucket_capacity rpm capacity,
     b_updated = now, b_penalty_factor = 1, b_penalty_until = 0\<rparr>"

definition effective_rate :: "time \<Rightarrow> bucket \<Rightarrow> rat" where
  "effective_rate now b =
     (if now < b_penalty_until b then b_rate b * b_penalty_factor b else b_rate b)"

definition refill :: "time \<Rightarrow> bucket \<Rightarrow> bucket" where
  "refill now b =
     (let elapsed = now - b_updated b
      in b\<lparr>b_updated := now,
           b_tokens := min (b_capacity b) (b_tokens b + elapsed * effective_rate now b)\<rparr>)"

definition penalize :: "rat \<Rightarrow> rat \<Rightarrow> time \<Rightarrow> bucket \<Rightarrow> bucket" where
  "penalize fraction seconds now b =
     b\<lparr>b_penalty_factor := max (5 / 100) (1 - fraction), b_penalty_until := now + seconds\<rparr>"

text \<open>One turn of the loop of \<open>acquire\<close>: the tokens are taken, or how long to sleep.\<close>

definition try_acquire :: "rat \<Rightarrow> time \<Rightarrow> bucket \<Rightarrow> bucket \<times> rat option" where
  "try_acquire n now b =
     (let b' = refill now b
      in if b_tokens b' \<ge> n then (b'\<lparr>b_tokens := b_tokens b' - n\<rparr>, None)
         else (b', Some ((n - b_tokens b') / max (effective_rate now b') (1 / 1000000000))))"

text \<open>
  The loop of one caller, alone at the bucket. A sleep lasts at least as long as asked;
  \<open>late k\<close> is how much longer the \<open>k\<close>-th one took. \<open>None\<close> is running out of fuel.
\<close>

fun acquire :: "nat \<Rightarrow> (nat \<Rightarrow> rat) \<Rightarrow> nat \<Rightarrow> rat \<Rightarrow> time \<Rightarrow> bucket \<Rightarrow> (bucket \<times> time) option" where
  "acquire 0 late k n now b = None"
| "acquire (Suc fuel) late k n now b =
     (case try_acquire n now b of
        (b', None) \<Rightarrow> Some (b', now)
      | (b', Some wait) \<Rightarrow> acquire fuel late (Suc k) n (now + min wait 5 + late k) b')"

section \<open>The bucket in Redis\<close>

text \<open>
  The two keys of the script: the hash with its expiry, and the penalty with its own. The
  configuration is what every client passes as arguments.
\<close>

record redis_bucket =
  rb_rate :: rat
  rb_capacity :: rat
  rb_hash :: "(rat \<times> time \<times> time) option"
  rb_penalty :: "(rat \<times> time) option"

definition redis_hash :: "time \<Rightarrow> redis_bucket \<Rightarrow> (rat \<times> time) option" where
  "redis_hash now s =
     (case rb_hash s of
        None \<Rightarrow> None | Some (t, ts, expires) \<Rightarrow> if now < expires then Some (t, ts) else None)"

definition redis_factor :: "time \<Rightarrow> redis_bucket \<Rightarrow> rat" where
  "redis_factor now s =
     (case rb_penalty s of None \<Rightarrow> 1 | Some (f, until) \<Rightarrow> if now < until then f else 1)"

definition bucket_lua :: "time \<Rightarrow> rat \<Rightarrow> redis_bucket \<Rightarrow> redis_bucket \<times> rat" where
  "bucket_lua now n s =
     (let rate = rb_rate s; cap = rb_capacity s;
          r = rate * redis_factor now s;
          t0 = (case redis_hash now s of Some (t, ts) \<Rightarrow> t | None \<Rightarrow> cap);
          ts0 = (case redis_hash now s of Some (t, ts) \<Rightarrow> ts | None \<Rightarrow> now);
          (t1, ts1) = (if now > ts0 then (min cap (t0 + (now - ts0) * r), now) else (t0, ts0));
          (t2, wait) = (if t1 \<ge> n then (t1 - n, 0) else (t1, (n - t1) / r))
      in (s\<lparr>rb_hash := Some (t2, ts1, now + 3600)\<rparr>, wait))"

definition redis_penalize :: "rat \<Rightarrow> rat \<Rightarrow> time \<Rightarrow> redis_bucket \<Rightarrow> redis_bucket" where
  "redis_penalize fraction seconds now s =
     s\<lparr>rb_penalty := Some (max (5 / 100) (1 - fraction),
         now + of_int \<lfloor>seconds * 1000\<rfloor> / 1000)\<rparr>"

text \<open>
  \<open>RedisTokenBucket.acquire\<close>: try the script; any failure of Redis (\<open>up k\<close> false) falls back to
  the local bucket; \<open>jitter k\<close> is the random number of the \<open>k\<close>-th sleep.
\<close>

fun redis_acquire ::
  "nat \<Rightarrow> (nat \<Rightarrow> bool) \<Rightarrow> (nat \<Rightarrow> rat) \<Rightarrow> nat \<Rightarrow> rat \<Rightarrow> time \<Rightarrow> redis_bucket \<Rightarrow> bucket \<Rightarrow>
     (redis_bucket \<times> bucket \<times> time) option" where
  "redis_acquire 0 up jitter k n now s fb = None"
| "redis_acquire (Suc fuel) up jitter k n now s fb =
     (if \<not> up k then map_option (\<lambda>(fb', t). (s, fb', t)) (acquire fuel (\<lambda>_. 0) 0 n now fb)
      else
        let (s', wait) = bucket_lua now n s
        in if wait \<le> 0 then Some (s', fb, now)
           else redis_acquire fuel up jitter (Suc k) n
                  (now + min wait 5 * (1 + jitter k * (2 / 10))) s' fb)"

section \<open>The contract\<close>

text \<open>
  A bucket has a level, a rate and the time it was last brought up to date. Taking from it
  never pushes the level above what it was plus the rate times the time gone by, minus what
  was granted; so the grants of a whole run are bounded by the clock alone.
\<close>

text \<open>The tokens granted to a sequence of requests, each with its time and amount.\<close>

fun grants :: "(rat \<Rightarrow> time \<Rightarrow> 's \<Rightarrow> 's \<times> bool) \<Rightarrow> (time \<times> rat) list \<Rightarrow> 's \<Rightarrow> rat" where
  "grants attempt [] s = 0"
| "grants attempt ((now, n) # rs) s =
     (let (s', g) = attempt n now s in (if g then n else 0) + grants attempt rs s')"

locale budgeted =
  fixes ok :: "'s \<Rightarrow> bool"
    and level :: "'s \<Rightarrow> rat"
    and rate :: "'s \<Rightarrow> rat"
    and cap :: "'s \<Rightarrow> rat"
    and stamp :: "'s \<Rightarrow> time"
    and attempt :: "rat \<Rightarrow> time \<Rightarrow> 's \<Rightarrow> 's \<times> bool"
  assumes level_range: "ok s \<Longrightarrow> 0 \<le> level s \<and> level s \<le> cap s"
    and rate_nonneg: "ok s \<Longrightarrow> 0 \<le> rate s"
    and attempt_law: "\<lbrakk> ok s; 0 \<le> n; stamp s \<le> now; attempt n now s = (s', g) \<rbrakk> \<Longrightarrow>
      ok s' \<and> rate s' = rate s \<and> cap s' = cap s \<and> stamp s' = now \<and>
      level s' + (if g then n else 0) \<le> level s + rate s * (now - stamp s)"
begin

lemma granted_bound:
  assumes "ok s" and "\<forall>(t, n) \<in> set rs. 0 \<le> n \<and> stamp s \<le> t \<and> t \<le> until" and "sorted (map fst rs)"
    and "stamp s \<le> until"
  shows "grants attempt rs s \<le> level s + rate s * (until - stamp s)"
  using assms
proof (induction rs arbitrary: s)
  case Nil
  then show ?case using level_range [of s] rate_nonneg [of s] by simp
next
  case (Cons x rs)
  obtain t n where x: "x = (t, n)" by force
  obtain s' g where st: "attempt n t s = (s', g)" by force
  have law: "ok s'" "rate s' = rate s" "stamp s' = t"
    "level s' + (if g then n else 0) \<le> level s + rate s * (t - stamp s)"
    using attempt_law [OF Cons.prems(1) _ _ st] Cons.prems x by auto
  have "grants attempt rs s' \<le> level s' + rate s' * (until - stamp s')"
    by (rule Cons.IH) (use law Cons.prems x in \<open>auto simp: split_beta\<close>)
  with law show ?case by (simp add: x st algebra_simps)
qed

lemma granted_within:
  assumes "ok s" and "\<forall>(t, n) \<in> set rs. 0 \<le> n \<and> stamp s \<le> t \<and> t \<le> until" and "sorted (map fst rs)"
    and "stamp s \<le> until"
  shows "grants attempt rs s \<le> cap s + rate s * (until - stamp s)"
  using granted_bound [OF assms] level_range [OF assms(1)] by linarith

end

section \<open>Both buckets keep the contract\<close>

definition bucket_ok :: "bucket \<Rightarrow> bool" where
  "bucket_ok b \<longleftrightarrow> 0 \<le> b_tokens b \<and> b_tokens b \<le> b_capacity b \<and> 0 < b_rate b \<and>
     5 / 100 \<le> b_penalty_factor b \<and> b_penalty_factor b \<le> 1"

definition local_attempt :: "rat \<Rightarrow> time \<Rightarrow> bucket \<Rightarrow> bucket \<times> bool" where
  "local_attempt n now b = (fst (try_acquire n now b), snd (try_acquire n now b) = None)"

lemma effective_rate_range:
  assumes "bucket_ok b"
  shows "b_rate b * (5 / 100) \<le> effective_rate now b \<and> effective_rate now b \<le> b_rate b"
proof -
  have "b_rate b * (5 / 100) \<le> b_rate b * b_penalty_factor b" "b_rate b * b_penalty_factor b \<le> b_rate b * 1"
    using assms by (intro mult_left_mono; simp add: bucket_ok_def)+
  moreover have "b_rate b * (5 / 100) \<le> b_rate b" using assms by (simp add: bucket_ok_def)
  ultimately show ?thesis by (simp add: effective_rate_def)
qed

lemma refill_ok:
  assumes "bucket_ok b" and "b_updated b \<le> now"
  shows "bucket_ok (refill now b) \<and> b_tokens b \<le> b_tokens (refill now b) \<and>
    b_tokens (refill now b) \<le> b_tokens b + b_rate b * (now - b_updated b)"
proof -
  have r: "0 < effective_rate now b" "effective_rate now b \<le> b_rate b"
    using effective_rate_range [OF assms(1), of now] assms(1) by (auto simp: bucket_ok_def)
  have "0 \<le> (now - b_updated b) * effective_rate now b"
    using assms(2) r(1) by (intro mult_nonneg_nonneg) auto
  moreover have "(now - b_updated b) * effective_rate now b \<le> (now - b_updated b) * b_rate b"
    using assms(2) r(2) by (intro mult_left_mono) auto
  ultimately show ?thesis
    using assms(1) by (auto simp: refill_def Let_def bucket_ok_def algebra_simps min_def)
qed

interpretation lb: budgeted bucket_ok b_tokens b_rate b_capacity b_updated local_attempt
proof unfold_locales
  fix s n now s' g
  assume a: "bucket_ok s" "0 \<le> n" "b_updated s \<le> now" "local_attempt n now s = (s', g)"
  have "bucket_ok (refill now s)" "b_tokens (refill now s) \<le> b_tokens s + b_rate s * (now - b_updated s)"
    using refill_ok [OF a(1,3)] by auto
  with a(2,4) show "bucket_ok s' \<and> b_rate s' = b_rate s \<and> b_capacity s' = b_capacity s \<and> b_updated s' = now \<and>
      b_tokens s' + (if g then n else 0) \<le> b_tokens s + b_rate s * (now - b_updated s)"
    by (auto simp: local_attempt_def try_acquire_def Let_def refill_def bucket_ok_def split: if_splits)
qed (auto simp: bucket_ok_def)

text \<open>The level and the time stamp of the bucket in Redis; a missing hash is a full bucket.\<close>

definition redis_level :: "redis_bucket \<Rightarrow> rat" where
  "redis_level s = (case rb_hash s of None \<Rightarrow> rb_capacity s | Some (t, ts, e) \<Rightarrow> t)"

definition redis_stamp :: "redis_bucket \<Rightarrow> time" where
  "redis_stamp s = (case rb_hash s of None \<Rightarrow> 0 | Some (t, ts, e) \<Rightarrow> ts)"

definition redis_ok :: "redis_bucket \<Rightarrow> bool" where
  "redis_ok s \<longleftrightarrow> 0 < rb_rate s \<and> 0 \<le> rb_capacity s \<and> rb_capacity s \<le> rb_rate s * 3600 \<and>
     (case rb_hash s of None \<Rightarrow> True
      | Some (t, ts, e) \<Rightarrow> 0 \<le> t \<and> t \<le> rb_capacity s \<and> ts + 3600 \<le> e) \<and>
     (case rb_penalty s of None \<Rightarrow> True | Some (f, u) \<Rightarrow> 5 / 100 \<le> f \<and> f \<le> 1)"

definition redis_attempt :: "rat \<Rightarrow> time \<Rightarrow> redis_bucket \<Rightarrow> redis_bucket \<times> bool" where
  "redis_attempt n now s = (fst (bucket_lua now n s), snd (bucket_lua now n s) \<le> 0)"

lemma redis_factor_range: "redis_ok s \<Longrightarrow> 0 < redis_factor now s \<and> redis_factor now s \<le> 1"
  by (auto simp: redis_ok_def redis_factor_def split: option.splits prod.splits)

text \<open>The level the script finds once it has brought the hash up to date.\<close>

lemma bucket_lua_eq:
  assumes "redis_ok s" and "redis_stamp s \<le> now"
  obtains t1 where "0 \<le> t1" "t1 \<le> rb_capacity s"
    "t1 \<le> redis_level s + rb_rate s * (now - redis_stamp s)"
    "bucket_lua now n s = (s\<lparr>rb_hash := Some (if t1 \<ge> n then t1 - n else t1, now, now + 3600)\<rparr>,
       if t1 \<ge> n then 0 else (n - t1) / (rb_rate s * redis_factor now s))"
proof -
  let ?r = "rb_rate s * redis_factor now s"
  have r: "0 \<le> ?r" "?r \<le> rb_rate s"
    using redis_factor_range [OF assms(1), of now] assms(1)
      mult_left_mono [of "redis_factor now s" 1 "rb_rate s"] by (auto simp: redis_ok_def)
  show thesis
  proof (cases "rb_hash s")
    case None
    with assms have "0 \<le> rb_rate s * now" by (auto simp: redis_stamp_def redis_ok_def)
    with None assms show ?thesis
      by (intro that [of "rb_capacity s"])
        (auto simp: redis_ok_def redis_level_def redis_stamp_def bucket_lua_def redis_hash_def Let_def)
  next
    case (Some h)
    obtain t ts e where h: "h = (t, ts, e)" by (cases h) auto
    have t: "0 \<le> t" "t \<le> rb_capacity s" "ts + 3600 \<le> e" "ts \<le> now" "0 < rb_rate s"
      "rb_capacity s \<le> rb_rate s * 3600"
      using assms Some h by (auto simp: redis_ok_def redis_stamp_def)
    show ?thesis
    proof (cases "now < e")
      case True
      define x where "x = (now - ts) * ?r"
      have x: "0 \<le> x" "x \<le> rb_rate s * (now - ts)"
        using r t(4) mult_left_mono [of ?r "rb_rate s" "now - ts"]
        by (simp_all add: x_def mult.commute)
      define t1 where "t1 = min (rb_capacity s) (t + x)"
      show ?thesis
      proof (rule that [of t1])
        show "0 \<le> t1" "t1 \<le> rb_capacity s"
          using x t by (auto simp: t1_def)
        show "t1 \<le> redis_level s + rb_rate s * (now - redis_stamp s)"
          using x Some h by (simp add: redis_level_def redis_stamp_def t1_def)
        have "(if now > ts then (t1, now) else (t, ts)) = (t1, now)"
          using t by (auto simp: x_def t1_def)
        then show "bucket_lua now n s = (s\<lparr>rb_hash := Some (if t1 \<ge> n then t1 - n else t1, now, now + 3600)\<rparr>,
            if t1 \<ge> n then 0 else (n - t1) / ?r)"
          using True Some h
          by (simp only: bucket_lua_def redis_hash_def Let_def option.case prod.case if_True
              x_def [symmetric] t1_def [symmetric]) simp
      qed
    next
      case False
      with t have "rb_rate s * 3600 \<le> rb_rate s * (now - ts)" by (intro mult_left_mono) auto
      with t have "rb_capacity s \<le> t + rb_rate s * (now - ts)" by linarith
      with False Some h t show ?thesis
        by (intro that [of "rb_capacity s"])
          (auto simp: redis_level_def redis_stamp_def bucket_lua_def redis_hash_def Let_def)
    qed
  qed
qed

interpretation rb: budgeted redis_ok redis_level rb_rate rb_capacity redis_stamp redis_attempt
proof unfold_locales
  fix s n now s' g
  assume a: "redis_ok s" "0 \<le> n" "redis_stamp s \<le> now" "redis_attempt n now s = (s', g)"
  from a(1,3) obtain t1 where t1: "0 \<le> t1" "t1 \<le> rb_capacity s"
    "t1 \<le> redis_level s + rb_rate s * (now - redis_stamp s)"
    "bucket_lua now n s = (s\<lparr>rb_hash := Some (if t1 \<ge> n then t1 - n else t1, now, now + 3600)\<rparr>,
       if t1 \<ge> n then 0 else (n - t1) / (rb_rate s * redis_factor now s))"
    by (rule bucket_lua_eq)
  have "0 < rb_rate s * redis_factor now s"
    using redis_factor_range [OF a(1), of now] a(1) by (simp add: redis_ok_def)
  then have "(n - t1) / (rb_rate s * redis_factor now s) \<le> 0 \<longleftrightarrow> n \<le> t1"
    by (simp add: divide_le_0_iff)
  with a(1,2,4) t1 show "redis_ok s' \<and> rb_rate s' = rb_rate s \<and> rb_capacity s' = rb_capacity s \<and>
      redis_stamp s' = now \<and>
      redis_level s' + (if g then n else 0) \<le> redis_level s + rb_rate s * (now - redis_stamp s)"
    by (auto simp: redis_attempt_def redis_ok_def redis_stamp_def redis_level_def split: if_splits)
qed (auto simp: redis_ok_def redis_level_def split: option.splits)


definition s_bucket :: bucket where
  "s_bucket = TokenBucket 600 None 0"

definition s_redis :: redis_bucket where
  "s_redis = \<lparr>rb_rate = 10, rb_capacity = 12, rb_hash = None, rb_penalty = None\<rparr>"

lemmas s_bucket_simps = s_bucket_def s_redis_def TokenBucket_def bucket_capacity_def bucket_ok_def
  redis_ok_def redis_stamp_def


text \<open>A new bucket is well formed, and penalties keep it so.\<close>

lemma new_bucket_ok: "1 \<le> rpm \<Longrightarrow> bucket_ok (TokenBucket rpm None now)"
  by (simp add: bucket_ok_def TokenBucket_def bucket_capacity_def)

lemma penalize_ok: "\<lbrakk> bucket_ok b; 0 \<le> fraction \<rbrakk> \<Longrightarrow> bucket_ok (penalize fraction seconds now b)"
  by (simp add: bucket_ok_def penalize_def)

lemma redis_penalize_ok: "\<lbrakk> redis_ok s; 0 \<le> fraction \<rbrakk> \<Longrightarrow> redis_ok (redis_penalize fraction seconds now s)"
  by (auto simp: redis_ok_def redis_penalize_def max_def split: option.splits)

lemma new_redis_ok:
  assumes "1 \<le> rpm"
  shows "redis_ok \<lparr>rb_rate = of_int rpm / 60, rb_capacity = bucket_capacity rpm None, rb_hash = None, rb_penalty = None\<rparr>"
proof -
  have "max 1 (rpm div 50) \<le> rpm * 60" using assms by (simp add: max_def) linarith
  then have "(of_int (max 1 (rpm div 50)) :: rat) \<le> of_int (rpm * 60)" by (simp only: of_int_le_iff)
  then show ?thesis using assms by (simp add: redis_ok_def bucket_capacity_def)
qed

section \<open>A caller gets its tokens\<close>

lemma effective_rate_mono:
  "\<lbrakk> bucket_ok b; now \<le> later \<rbrakk> \<Longrightarrow> effective_rate now b \<le> effective_rate later (refill now b)"
  using effective_rate_range [of b now] by (auto simp: effective_rate_def refill_def Let_def)

lemma try_acquire_cases:
  assumes "try_acquire n now b = (b', r)"
  shows "(b_tokens (refill now b) \<ge> n \<longleftrightarrow> r = None) \<and>
    (r \<noteq> None \<longrightarrow> b' = refill now b \<and>
       r = Some ((n - b_tokens (refill now b)) / max (effective_rate now (refill now b)) (1 / 1000000000)))"
  using assms by (auto simp: try_acquire_def Let_def split: if_splits)

text \<open>
  A turn that fails is followed, after its sleep, by one that finds the tokens it waited for,
  or at least a 240th of a token more.
\<close>

lemma next_turn:
  assumes ok: "bucket_ok b" "1 / 60 \<le> b_rate b" "b_updated b \<le> now" and n: "n \<le> b_capacity b"
    and fail: "try_acquire n now b = (b', Some w)" and late: "0 \<le> l"
  shows "b_tokens (refill (now + min w 5 + l) b') \<ge> min n (b_tokens (refill now b) + 1 / 240) \<and>
    bucket_ok b' \<and> b_rate b' = b_rate b \<and> b_capacity b' = b_capacity b \<and> b_updated b' = now \<and>
    now \<le> now + min w 5 + l"
proof -
  let ?b = "refill now b" and ?later = "now + min w 5 + l"
  let ?e = "effective_rate now b" and ?e' = "effective_rate ?later (refill now b)"
  have b': "b' = ?b" and w: "w = (n - b_tokens ?b) / max (effective_rate now ?b) (1 / 1000000000)"
    and short: "b_tokens ?b < n"
    using try_acquire_cases [OF fail] by auto
  have e: "1 / 1200 \<le> ?e" using effective_rate_range [OF ok(1), of now] ok(2) by linarith
  have "effective_rate now ?b = ?e" by (simp add: effective_rate_def refill_def Let_def)
  with w e have w: "w = (n - b_tokens ?b) / ?e" by (simp add: max_def)
  have w0: "0 < w" using short e by (simp add: w)
  then have later: "now \<le> ?later" "min w 5 \<le> ?later - now" using late by auto
  have "?e \<le> ?e'" by (rule effective_rate_mono [OF ok(1) later(1)])
  then have "min w 5 * ?e \<le> (?later - now) * ?e'"
    using later e w0 by (intro mult_mono) auto
  moreover have "min (n - b_tokens ?b) (1 / 240) \<le> min w 5 * ?e"
    using e w by (auto simp: min_def)
  ultimately have gain: "min (n - b_tokens ?b) (1 / 240) \<le> (?later - now) * ?e'" by linarith
  have "b_tokens (refill ?later ?b) = min (b_capacity b) (b_tokens ?b + (?later - now) * ?e')"
    by (simp add: refill_def [of ?later] Let_def) (simp add: refill_def Let_def)
  with gain n have "b_tokens (refill ?later ?b) \<ge> min n (b_tokens ?b + 1 / 240)" by (auto simp: min_def split: if_splits)
  with b' refill_ok [OF ok(1,3)] later(1) show ?thesis by (simp add: refill_def Let_def)
qed

lemma acquire_enough:
  assumes "bucket_ok b" "1 / 60 \<le> b_rate b" "b_updated b \<le> now" "n \<le> b_capacity b" "\<And>k. 0 \<le> late k"
    and "n - b_tokens (refill now b) \<le> of_nat m / 240"
  shows "\<exists>b' t. acquire (Suc m) late k n now b = Some (b', t) \<and> now \<le> t"
  using assms
proof (induction m arbitrary: k now b)
  case 0
  then have "n \<le> b_tokens (refill now b)" by simp
  then show ?case by (simp add: try_acquire_def Let_def)
next
  case (Suc m)
  obtain b' r where tr: "try_acquire n now b = (b', r)" by force
  show ?case
  proof (cases r)
    case None
    with tr show ?thesis by simp
  next
    case (Some w)
    let ?later = "now + min w 5 + late k"
    from tr Some Suc.prems
    have nt: "b_tokens (refill ?later b') \<ge> min n (b_tokens (refill now b) + 1 / 240)" "bucket_ok b'"
      "b_rate b' = b_rate b" "b_capacity b' = b_capacity b" "b_updated b' = now" "now \<le> ?later"
      using next_turn [of b now n b' w "late k"] by auto
    have "n - b_tokens (refill ?later b') \<le> of_nat m / 240"
      using nt(1) Suc.prems(6) by (auto simp: min_def field_simps split: if_splits)
    with Suc.IH [of b' ?later "Suc k"] Suc.prems(2,4,5) nt
    obtain b'' t where "acquire (Suc m) late (Suc k) n ?later b' = Some (b'', t)" "?later \<le> t" by auto
    with tr Some nt(6) show ?thesis by (intro exI [of _ b''] exI [of _ t]) (simp del: acquire.simps add: acquire.simps(2) [of "Suc m"])
  qed
qed



end
