(* ===== verification/Breaker.thy ===== *)
theory Breaker
  imports Prelude
begin

text \<open>
  The circuit breaker of one provider, \<open>CircuitBreaker\<close> of \<open>src/app/ratelimit.py\<close>: opening on the
  failure ratio of a sliding window, the escalating open window, the half-open state that
  admits a few probes, and the verdict over them.

  A call reads the clock once: \<open>now\<close> is that reading. Reading the property \<open>state\<close> may itself move
  the breaker from open to half open, so every operation returns the breaker too.
\<close>

section \<open>State and operations\<close>

datatype breaker_mode = Closed | Open | Half_Open

record breaker =
  br_window :: nat
  br_threshold :: rat
  br_open_seconds :: rat
  br_max_open_seconds :: rat
  br_probes :: nat
  br_probes_needed :: nat
  br_min_samples :: nat
  br_recovery_multiple :: rat
  br_outcomes :: "bool list"
  br_mode :: breaker_mode
  br_opened_at :: time
  br_closed_at :: time
  br_open_for :: rat
  br_consecutive_opens :: nat
  br_probe_results :: "bool list"
  br_probes_admitted :: nat
  br_opened_count :: nat
  br_failure_reasons :: "(string \<times> nat) list"
  br_last_open_reasons :: "(string \<times> nat) list"

definition CircuitBreaker :: breaker where
  "CircuitBreaker = \<lparr>
     br_window = 200, br_threshold = 30 / 100, br_open_seconds = 60, br_max_open_seconds = 300,
     br_probes = 5, br_probes_needed = 3, br_min_samples = 20, br_recovery_multiple = 4,
     br_outcomes = [], br_mode = Closed, br_opened_at = 0, br_closed_at = 0, br_open_for = 0,
     br_consecutive_opens = 0, br_probe_results = [], br_probes_admitted = 0, br_opened_count = 0,
     br_failure_reasons = [], br_last_open_reasons = [] \<rparr>"

definition breaker_state :: "time \<Rightarrow> breaker \<Rightarrow> breaker" where
  "breaker_state now b =
     (if br_mode b = Open \<and> now - br_opened_at b \<ge> br_open_for b
      then b\<lparr>br_mode := Half_Open, br_probe_results := [], br_probes_admitted := 0\<rparr> else b)"

definition seconds_until_close :: "time \<Rightarrow> breaker \<Rightarrow> breaker \<times> rat" where
  "seconds_until_close now b =
     (let b' = breaker_state now b
      in (b', if br_mode b' \<noteq> Open then 0 else max 0 (br_open_for b' - (now - br_opened_at b'))))"

text \<open>\<open>check\<close>: \<open>Some retry_in\<close> is the exception \<open>CircuitOpen\<close>.\<close>

definition breaker_check :: "time \<Rightarrow> breaker \<Rightarrow> breaker \<times> rat option" where
  "breaker_check now b =
     (let b' = breaker_state now b
      in case br_mode b' of
           Open \<Rightarrow> (b', Some (br_open_for b' - (now - br_opened_at b')))
         | Half_Open \<Rightarrow>
             if br_probes_admitted b' \<ge> br_probes b' then (b', Some 1)
             else (b'\<lparr>br_probes_admitted := br_probes_admitted b' + 1\<rparr>, None)
         | Closed \<Rightarrow> (b', None))"

text \<open>
  \<open>_open\<close>. The product of a float and \<open>2 ** n\<close> raises \<open>OverflowError\<close> once \<open>2 ** n\<close> is beyond the
  range of a float, from \<open>n = 1024\<close> on; that is the flag of the result.
\<close>

definition breaker_open :: "time \<Rightarrow> breaker \<Rightarrow> breaker \<times> bool" where
  "breaker_open now b =
     (let b = (if br_closed_at b \<noteq> 0 \<and> now - br_closed_at b > br_open_seconds b * br_recovery_multiple b
               then b\<lparr>br_consecutive_opens := 0\<rparr> else b)
      in if br_consecutive_opens b \<ge> 1024 then (b, True)
         else (b\<lparr>br_open_for := min (br_open_seconds b * 2 ^ br_consecutive_opens b) (br_max_open_seconds b),
                 br_consecutive_opens := br_consecutive_opens b + 1,
                 br_last_open_reasons := br_failure_reasons b,
                 br_failure_reasons := [],
                 br_mode := Open,
                 br_opened_at := now,
                 br_outcomes := [],
                 br_probe_results := [],
                 br_probes_admitted := 0,
                 br_opened_count := br_opened_count b + 1\<rparr>, False))"

definition breaker_close :: "time \<Rightarrow> breaker \<Rightarrow> breaker" where
  "breaker_close now b =
     b\<lparr>br_mode := Closed, br_closed_at := now, br_outcomes := [], br_probe_results := []\<rparr>"

fun count_reason :: "string \<Rightarrow> (string \<times> nat) list \<Rightarrow> (string \<times> nat) list" where
  "count_reason r [] = [(r, 1)]"
| "count_reason r ((q, n) # d) = (if q = r then (q, n + 1) # d else (q, n) # count_reason r d)"

definition push_outcome :: "nat \<Rightarrow> bool \<Rightarrow> bool list \<Rightarrow> bool list" where
  "push_outcome window ok os = drop (length os + 1 - window) (os @ [ok])"

definition breaker_record :: "time \<Rightarrow> bool \<Rightarrow> string \<Rightarrow> breaker \<Rightarrow> breaker \<times> bool" where
  "breaker_record now ok reason b =
     (let b = (if \<not> ok \<and> reason \<noteq> []
               then b\<lparr>br_failure_reasons := count_reason reason (br_failure_reasons b)\<rparr> else b);
          b = breaker_state now b
      in if br_mode b = Half_Open then
           let b = b\<lparr>br_probe_results := br_probe_results b @ [ok]\<rparr>
           in if length (br_probe_results b) \<ge> br_probes b
              then if length (filter (\<lambda>x. x) (br_probe_results b)) \<ge> br_probes_needed b
                   then (breaker_close now b, False) else breaker_open now b
              else (b, False)
         else
           let b = b\<lparr>br_outcomes := push_outcome (br_window b) ok (br_outcomes b)\<rparr>
           in if length (br_outcomes b) < br_min_samples b then (b, False)
              else if of_nat (length (filter Not (br_outcomes b))) / of_nat (length (br_outcomes b))
                        > br_threshold b
              then breaker_open now b else (b, False))"

section \<open>Configuration and invariant\<close>

text \<open>What the operations never change, and what a sensible configuration is.\<close>

definition br_config :: "breaker \<Rightarrow> nat \<times> rat \<times> rat \<times> rat \<times> nat \<times> nat \<times> nat \<times> rat" where
  "br_config b = (br_window b, br_threshold b, br_open_seconds b, br_max_open_seconds b, br_probes b,
     br_probes_needed b, br_min_samples b, br_recovery_multiple b)"

definition br_ok :: "breaker \<Rightarrow> bool" where
  "br_ok b \<longleftrightarrow>
     0 < br_open_seconds b \<and> br_open_seconds b \<le> br_max_open_seconds b \<and> 0 < br_probes b \<and>
     0 < br_min_samples b \<and>
     length (br_outcomes b) \<le> br_window b \<and>
     (br_mode b = Open \<longrightarrow>
        br_open_seconds b \<le> br_open_for b \<and> br_open_for b \<le> br_max_open_seconds b) \<and>
     (br_mode b = Half_Open \<longrightarrow>
        br_probes_admitted b \<le> br_probes b)"

datatype br_event = Check time | Record time bool string

definition br_step :: "br_event \<Rightarrow> breaker \<Rightarrow> breaker" where
  "br_step e b = (case e of Check t \<Rightarrow> fst (breaker_check t b) | Record t ok why \<Rightarrow> fst (breaker_record t ok why b))"

lemmas breaker_defs = breaker_state_def breaker_check_def breaker_record_def breaker_open_def breaker_close_def

lemma breaker_state_mode:
  "br_mode (breaker_state now b) = Half_Open \<longleftrightarrow>
     br_mode b = Half_Open \<or> br_mode b = Open \<and> br_opened_at b + br_open_for b \<le> now"
  "br_mode (breaker_state now b) = Closed \<longleftrightarrow> br_mode b = Closed"
  "br_mode (breaker_state now b) = Open \<longleftrightarrow> br_mode b = Open \<and> now < br_opened_at b + br_open_for b"
  by (auto simp: breaker_state_def algebra_simps)

lemma breaker_state_idle: "br_mode b \<noteq> Open \<Longrightarrow> breaker_state now b = b"
  by (simp add: breaker_state_def)

lemma br_ok_state [inv_intros]: "br_ok b \<Longrightarrow> br_ok (breaker_state now b)"
  by (simp add: br_ok_def breaker_state_def)

lemma br_ok_check [inv_intros]: "br_ok b \<Longrightarrow> br_ok (fst (breaker_check now b))"
  using br_ok_state [of b now]
  by (auto simp: breaker_check_def Let_def br_ok_def split: breaker_mode.split)

lemma br_ok_open [inv_intros]:
  assumes "br_ok b"
  shows "br_ok (fst (breaker_open now b))"
proof -
  have "br_open_seconds b * 1 \<le> br_open_seconds b * 2 ^ br_consecutive_opens b"
    using assms by (intro mult_left_mono) (auto simp: br_ok_def)
  with assms show ?thesis by (auto simp: breaker_open_def br_ok_def Let_def)
qed

lemma br_ok_close [inv_intros]: "br_ok b \<Longrightarrow> br_ok (breaker_close now b)"
  by (simp add: br_ok_def breaker_close_def)

lemma length_push_outcome: "length (push_outcome w ok os) \<le> max w 0"
  by (simp add: push_outcome_def)

lemma br_ok_upd [inv_intros]:
  "br_ok b \<Longrightarrow> br_ok (b\<lparr>br_failure_reasons := rs\<rparr>)"
  "br_ok b \<Longrightarrow> br_ok (b\<lparr>br_probe_results := ps\<rparr>)"
  "\<lbrakk> br_ok b; length os \<le> br_window b \<rbrakk> \<Longrightarrow> br_ok (b\<lparr>br_outcomes := os\<rparr>)"
  by (simp_all add: br_ok_def)

lemma br_ok_record [inv_intros]: "br_ok b \<Longrightarrow> br_ok (fst (breaker_record now ok reason b))"
  using length_push_outcome
  by (auto simp: breaker_record_def Let_def intro!: inv_intros)

interpretation bk: invariant_system br_ok "\<lambda>b b'. \<exists>e. b' = br_step e b" br_ok
  by unfold_locales (auto simp: br_step_def intro: inv_intros split: br_event.split)

section \<open>Tripping\<close>

text \<open>The samples a decision looks at: the last \<open>window\<close> results.\<close>

definition samples :: "bool \<Rightarrow> breaker \<Rightarrow> bool list" where
  "samples ok b = push_outcome (br_window b) ok (br_outcomes b)"

definition too_many_failures :: "bool list \<Rightarrow> breaker \<Rightarrow> bool" where
  "too_many_failures os b \<longleftrightarrow> br_min_samples b \<le> length os \<and>
     br_threshold b * of_nat (length os) < of_nat (length (filter Not os))"

lemma too_many_failures_iff:
  assumes "0 < br_min_samples b"
  shows "too_many_failures os b \<longleftrightarrow> \<not> length os < br_min_samples b \<and>
    br_threshold b < of_nat (length (filter Not os)) / of_nat (length os)"
  using assms by (cases os) (auto simp: too_many_failures_def pos_less_divide_eq)

text \<open>
  C36: The breaker opens when it should. A result recorded while it is closed opens it exactly
  when the last \<open>window\<close> results are at least \<open>min_samples\<close> and more than \<open>threshold\<close> of them
  failed. It is then open for a window between \<open>open_seconds\<close> and \<open>max_open_seconds\<close>, during
  which every call is refused and told how long is left; otherwise it stays closed and admits
  every call. (Up to the 1024 escalations a float can hold.)
\<close>

theorem breaker_trips_exactly:
  assumes "br_ok b" and "br_mode b = Closed" and "br_consecutive_opens b < 1024"
    and "breaker_record now ok reason b = (b', raised)"
  shows "\<not> raised \<and> br_ok b' \<and>
    (if too_many_failures (samples ok b) b
     then br_mode b' = Open \<and> br_opened_at b' = now \<and> br_opened_count b' = br_opened_count b + 1 \<and>
          br_open_seconds b \<le> br_open_for b' \<and> br_open_for b' \<le> br_max_open_seconds b \<and>
          (\<forall>t. now \<le> t \<and> t < now + br_open_for b' \<longrightarrow>
             breaker_check t b' = (b', Some (now + br_open_for b' - t)))
     else br_mode b' = Closed \<and> br_outcomes b' = samples ok b \<and> (\<forall>t. breaker_check t b' = (b', None)))"
proof -
  define c where "c = (if \<not> ok \<and> reason \<noteq> []
    then b\<lparr>br_failure_reasons := count_reason reason (br_failure_reasons b)\<rparr> else b)"
  define d where "d = c\<lparr>br_outcomes := samples ok b\<rparr>"
  have c: "br_mode c = Closed" "br_outcomes c = br_outcomes b" "br_config c = br_config b"
    "br_consecutive_opens c = br_consecutive_opens b" "br_opened_count c = br_opened_count b"
    using assms(2) by (auto simp: c_def br_config_def)
  have ok': "br_ok b'" using br_ok_record [OF assms(1), of now ok reason] assms(4) by simp
  have d: "br_mode d = Closed" "br_consecutive_opens d < 1024" "br_config d = br_config b"
    "br_opened_count d = br_opened_count b"
    using c assms(3) by (simp_all add: d_def br_config_def)
  have "0 < br_min_samples b" using assms(1) by (simp add: br_ok_def)
  then have eq: "breaker_record now ok reason b =
      (if too_many_failures (samples ok b) b then breaker_open now d else (d, False))"
    using c
    by (auto simp: breaker_record_def breaker_state_idle Let_def samples_def d_def too_many_failures_iff
        br_config_def c_def [symmetric])
  show ?thesis
  proof (cases "too_many_failures (samples ok b) b")
    case True
    with eq assms(4) have "breaker_open now d = (b', raised)" by simp
    with d have "\<not> raised" "br_mode b' = Open" "br_opened_at b' = now"
      "br_opened_count b' = br_opened_count b + 1" "br_config b' = br_config b"
      by (auto simp: breaker_open_def Let_def br_config_def split: if_splits)
    with True ok' show ?thesis
      by (auto simp: br_ok_def br_config_def breaker_check_def breaker_state_def Let_def)
  next
    case False
    with eq assms(4) have "b' = d" "\<not> raised" by auto
    with False ok' d show ?thesis by (simp add: breaker_check_def breaker_state_idle Let_def) (simp add: d_def)
  qed
qed

definition s_tripping :: breaker where
  "s_tripping = CircuitBreaker\<lparr>br_outcomes := replicate 13 True @ replicate 6 False\<rparr>"

lemmas s_breaker_simps = s_tripping_def CircuitBreaker_def br_ok_def samples_def push_outcome_def
  too_many_failures_def breaker_defs Let_def

theorem breaker_trips_exactly_witness:
  "br_mode (fst (breaker_record 1000 False ''429'' s_tripping)) = Open \<and>
   br_mode (fst (breaker_record 1000 True [] s_tripping)) = Closed"
proof -
  have "br_mode (fst (breaker_record 1000 False ''429'' s_tripping)) = Open"
    using breaker_trips_exactly [of s_tripping 1000 False "''429''" "fst (breaker_record 1000 False ''429'' s_tripping)"
        "snd (breaker_record 1000 False ''429'' s_tripping)"]
    by (simp add: s_tripping_def CircuitBreaker_def br_ok_def samples_def push_outcome_def too_many_failures_def)
  moreover have "br_mode (fst (breaker_record 1000 True [] s_tripping)) = Closed"
    using breaker_trips_exactly [of s_tripping 1000 True "[]" "fst (breaker_record 1000 True [] s_tripping)"
        "snd (breaker_record 1000 True [] s_tripping)"]
    by (simp add: s_tripping_def CircuitBreaker_def br_ok_def samples_def push_outcome_def too_many_failures_def)
  ultimately show ?thesis by simp
qed

section \<open>Half open\<close>

text \<open>
  The calls an open breaker lets through until it has decided: the run ends when it closes or
  opens once more.
\<close>

definition decided :: "breaker \<Rightarrow> breaker \<Rightarrow> bool" where
  "decided b b' \<longleftrightarrow> br_mode b' = Closed \<or> br_opened_count b' \<noteq> br_opened_count b"

fun admitted :: "br_event list \<Rightarrow> breaker \<Rightarrow> time list" where
  "admitted [] b = []"
| "admitted (Check t # es) b =
     (let (b', refused) = breaker_check t b in (if refused = None then [t] else []) @ admitted es b')"
| "admitted (Record t ok why # es) b =
     (let b' = fst (breaker_record t ok why b) in if decided b b' then [] else admitted es b')"

fun event_time :: "br_event \<Rightarrow> time" where
  "event_time (Check t) = t"
| "event_time (Record t ok why) = t"

definition room :: "breaker \<Rightarrow> nat" where
  "room b = (if br_mode b = Half_Open then br_probes b - br_probes_admitted b else br_probes b)"

lemma room_state: "room (breaker_state now b) = room b"
  by (simp add: room_def breaker_state_def)

lemma check_room:
  assumes "br_mode b \<noteq> Closed" and "breaker_check t b = (b', r)"
  shows "br_mode b' \<noteq> Closed \<and> (if r = None then Suc (room b') else room b') = room b"
proof -
  have m: "br_mode (breaker_state t b) \<noteq> Closed" using assms(1) by (simp add: breaker_state_mode)
  show ?thesis
  proof (cases "br_mode (breaker_state t b)")
    case Half_Open
    with assms(2) room_state [of t b, symmetric] show ?thesis
      by (auto simp: breaker_check_def Let_def room_def split: if_splits)
  qed (use m assms(2) room_state [of t b] in \<open>auto simp: breaker_check_def Let_def\<close>)
qed

text \<open>What a recorded result can do to a breaker that is not closed, short of a decision.\<close>

definition br_kept :: "breaker \<Rightarrow> breaker_mode \<times> nat \<times> nat \<times> time \<times> rat \<times> nat" where
  "br_kept b = (br_mode b, br_probes b, br_probes_admitted b, br_opened_at b, br_open_for b, br_opened_count b)"

lemma open_kept: "br_opened_count (fst (breaker_open t b)) = br_opened_count b + 1 \<or> br_kept (fst (breaker_open t b)) = br_kept b"
  by (simp add: breaker_open_def Let_def br_kept_def)

lemma record_kept:
  "br_mode (fst (breaker_record t ok why b)) = Closed \<or>
   br_opened_count (fst (breaker_record t ok why b)) = br_opened_count b + 1 \<or>
   br_kept (fst (breaker_record t ok why b)) = br_kept (breaker_state t b)"
proof -
  let ?kept = "\<lambda>b'. br_mode b' = Closed \<or> br_opened_count b' = br_opened_count b + 1 \<or> br_kept b' = br_kept (breaker_state t b)"
  define c where "c = breaker_state t (if \<not> ok \<and> why \<noteq> []
    then b\<lparr>br_failure_reasons := count_reason why (br_failure_reasons b)\<rparr> else b)"
  have c: "br_kept c = br_kept (breaker_state t b)" "br_opened_count c = br_opened_count b"
    by (simp_all add: c_def breaker_state_def br_kept_def)
  have *: "?kept d" "?kept (fst (breaker_open t d))" "br_mode (breaker_close t d) = Closed" if "br_kept d = br_kept c" for d
    using c that open_kept [of t d] by (auto simp: breaker_close_def br_kept_def)
  have d: "br_kept (c\<lparr>br_probe_results := ps\<rparr>) = br_kept c" "br_kept (c\<lparr>br_outcomes := os\<rparr>) = br_kept c" for ps os
    by (simp_all add: br_kept_def)
  show ?thesis
    unfolding breaker_record_def Let_def c_def [symmetric]
    using * [OF d(1)] * [OF d(2)] by (simp add: d c(1) split: if_split)
qed

lemma record_undecided:
  assumes "br_mode b \<noteq> Closed" and "\<not> decided b (fst (breaker_record t ok why b))"
  shows "br_mode (fst (breaker_record t ok why b)) = br_mode (breaker_state t b) \<and>
    br_probes (fst (breaker_record t ok why b)) = br_probes b \<and>
    br_probes_admitted (fst (breaker_record t ok why b)) = br_probes_admitted (breaker_state t b) \<and>
    br_opened_at (fst (breaker_record t ok why b)) = br_opened_at b \<and>
    br_open_for (fst (breaker_record t ok why b)) = br_open_for b"
proof -
  from assms(2) record_kept [of t ok why b]
  have "br_kept (fst (breaker_record t ok why b)) = br_kept (breaker_state t b)" by (auto simp: decided_def)
  then show ?thesis by (simp add: br_kept_def breaker_state_def)
qed

lemma record_room:
  assumes "br_mode b \<noteq> Closed" and "\<not> decided b (fst (breaker_record t ok why b))"
  shows "br_mode (fst (breaker_record t ok why b)) \<noteq> Closed \<and> room (fst (breaker_record t ok why b)) = room b"
proof -
  have "br_mode (breaker_state t b) \<noteq> Closed" "br_probes (breaker_state t b) = br_probes b"
    using assms(1) by (simp_all add: breaker_state_mode) (simp add: breaker_state_def)
  then have "room (fst (breaker_record t ok why b)) = room (breaker_state t b)"
    using record_undecided [OF assms] by (simp add: room_def)
  with room_state [of t b] record_undecided [OF assms] \<open>br_mode (breaker_state t b) \<noteq> Closed\<close>
  show ?thesis by simp
qed

lemma admitted_room: "br_mode b \<noteq> Closed \<Longrightarrow> length (admitted es b) \<le> room b"
proof (induction es arbitrary: b)
  case (Cons e es)
  show ?case
  proof (cases e)
    case (Check t)
    obtain b' r where c: "breaker_check t b = (b', r)" by force
    with Cons.IH [of b'] check_room [OF Cons.prems c] Check show ?thesis by (cases r) simp_all
  next
    case (Record t ok why)
    define b' where "b' = fst (breaker_record t ok why b)"
    have "length (admitted es b') \<le> room b" if "\<not> decided b b'"
      using Cons.IH [of b'] record_room [OF Cons.prems, of t ok why] that by (simp add: b'_def)
    with Record show ?thesis by (simp add: Let_def b'_def)
  qed
qed simp

lemma admitted_times: "set (admitted es b) \<subseteq> event_time ` set es"
proof (induction es arbitrary: b)
  case (Cons e es)
  show ?case
  proof (cases e)
    case (Check t)
    with Cons.IH [of "fst (breaker_check t b)"] show ?thesis by (cases "breaker_check t b") auto
  next
    case (Record t ok why)
    with Cons.IH [of "fst (breaker_record t ok why b)"] show ?thesis by (auto simp: Let_def)
  qed
qed simp

lemma admitted_late:
  assumes "br_mode b = Open" and "sorted (map event_time es)" and "t \<in> set (admitted es b)"
  shows "br_opened_at b + br_open_for b \<le> t"
  using assms
proof (induction es arbitrary: b)
  case (Cons e es)
  have later: "event_time e \<le> t"
    using admitted_times [of "e # es" b] Cons.prems(2,3) by auto
  show ?case
  proof (cases "br_opened_at b + br_open_for b \<le> event_time e")
    case False
    then have st: "breaker_state (event_time e) b = b" using Cons.prems(1) by (simp add: breaker_state_def)
    show ?thesis
    proof (cases e)
      case (Check u)
      with st Cons.prems(1) have "breaker_check u b = (b, Some (br_open_for b - (u - br_opened_at b)))"
        by (simp add: breaker_check_def)
      with Check Cons show ?thesis by auto
    next
      case (Record u ok why)
      with Cons.prems(3) have "\<not> decided b (fst (breaker_record u ok why b))"
        "t \<in> set (admitted es (fst (breaker_record u ok why b)))"
        by (auto simp: Let_def split: if_splits)
      with Record st Cons.prems(1,2) record_undecided [of b u ok why]
        Cons.IH [of "fst (breaker_record u ok why b)"] show ?thesis by auto
    qed
  qed (use later in simp)
qed simp

text \<open>
  An open breaker holds, and then probes. From the moment it opens until it has decided,
  whatever checks and late results come in, no call passes before its window has run, and at
  most \<open>probes\<close> calls pass in all.
\<close>

theorem half_open_burst:
  assumes "br_mode b = Open" and "sorted (map event_time es)"
  shows "length (admitted es b) \<le> br_probes b \<and>
    (\<forall>t \<in> set (admitted es b). br_opened_at b + br_open_for b \<le> t)"
  using assms admitted_room [of b es] admitted_late [OF assms] by (auto simp: room_def)

definition s_open :: breaker where
  "s_open = CircuitBreaker\<lparr>br_mode := Open, br_opened_at := 1000, br_open_for := 60, br_consecutive_opens := 1\<rparr>"

definition s_checks :: "br_event list" where
  "s_checks = Check 1010 # Record 1020 False [] # replicate 50 (Check 1060)"

theorem half_open_burst_witness:
  "br_mode s_open = Open \<and> length (admitted s_checks s_open) \<le> 5 \<and>
   list_all (\<lambda>t. 1060 \<le> t) (admitted s_checks s_open)"
  using half_open_burst [of s_open s_checks]
  by (simp add: s_open_def s_checks_def CircuitBreaker_def list_all_iff del: admitted.simps)

section \<open>The verdict\<close>

fun record_all :: "(time \<times> bool \<times> string) list \<Rightarrow> breaker \<Rightarrow> breaker" where
  "record_all [] b = b"
| "record_all ((t, ok, why) # rs) b = record_all rs (fst (breaker_record t ok why b))"

lemma record_probe:
  fixes t ok why
  assumes "br_mode b = Half_Open" and "br_consecutive_opens b < 1024"
  defines "ps \<equiv> br_probe_results b" and "b' \<equiv> fst (breaker_record t ok why b)"
  shows "length ps + 1 < br_probes b \<Longrightarrow> br_mode b' = Half_Open \<and> br_probe_results b' = ps @ [ok] \<and>
      br_config b' = br_config b \<and> br_consecutive_opens b' = br_consecutive_opens b"
    and "length ps + 1 = br_probes b \<Longrightarrow> br_mode b' =
      (if br_probes_needed b \<le> length (filter (\<lambda>x. x) (ps @ [ok])) then Closed else Open)"
proof -
  define c where "c = (if \<not> ok \<and> why \<noteq> []
    then b\<lparr>br_failure_reasons := count_reason why (br_failure_reasons b)\<rparr> else b)"
  have c: "br_mode c = Half_Open" "br_probe_results c = ps" "br_config c = br_config b"
    "br_consecutive_opens c = br_consecutive_opens b"
    using assms(1) by (simp_all add: c_def ps_def br_config_def)
  have open_mode: "br_mode (fst (breaker_open t d)) = Open" if "br_consecutive_opens d < 1024" for d
    using that by (simp add: breaker_open_def Let_def)
  have b': "b' = fst (breaker_record t ok why b)" by (simp add: b'_def)
  note eq = b' [unfolded breaker_record_def Let_def c_def [symmetric]]
  show "length ps + 1 < br_probes b \<Longrightarrow> br_mode b' = Half_Open \<and> br_probe_results b' = ps @ [ok] \<and>
      br_config b' = br_config b \<and> br_consecutive_opens b' = br_consecutive_opens b"
    using c by (simp add: eq breaker_state_idle br_config_def)
  show "length ps + 1 = br_probes b \<Longrightarrow> br_mode b' =
      (if br_probes_needed b \<le> length (filter (\<lambda>x. x) (ps @ [ok])) then Closed else Open)"
    using c assms(2) open_mode by (simp add: eq breaker_state_idle br_config_def breaker_close_def)
qed

lemma record_all_probes:
  assumes "br_mode b = Half_Open" and "br_consecutive_opens b < 1024"
    and "rs \<noteq> []" and "length (br_probe_results b) + length rs = br_probes b"
  shows "br_mode (record_all rs b) =
    (if br_probes_needed b \<le> length (filter (\<lambda>x. x) (br_probe_results b @ map (\<lambda>(t, ok, why). ok) rs)) then Closed else Open)"
  using assms
proof (induction rs arbitrary: b)
  case (Cons r rs)
  obtain t ok why where r: "r = (t, ok, why)" by (cases r)
  define b' where "b' = fst (breaker_record t ok why b)"
  show ?case
  proof (cases "rs = []")
    case True
    with Cons.prems record_probe(2) [OF Cons.prems(1,2), of t ok why] show ?thesis by (simp add: r)
  next
    case False
    with Cons.prems have "br_mode b' = Half_Open" "br_probe_results b' = br_probe_results b @ [ok]"
      "br_config b' = br_config b" "br_consecutive_opens b' = br_consecutive_opens b"
      using record_probe(1) [OF Cons.prems(1,2), of t ok why] by (auto simp: b'_def neq_Nil_conv)
    with Cons.IH [of b'] Cons.prems False show ?thesis
      by (simp add: r b'_def [symmetric] br_config_def)
  qed
qed simp

text \<open>
  Half open ends when its probes have reported. When all \<open>probes\<close> results of a half-open
  breaker are recorded, it closes if at least \<open>probes_needed\<close> of them are good and opens again
  otherwise; no earlier result decides.
\<close>

theorem probes_decide:
  assumes "br_mode b = Half_Open" and "br_probe_results b = []" and "br_consecutive_opens b < 1024"
    and "length rs = br_probes b" and "0 < br_probes b"
  shows "br_mode (record_all rs b) =
      (if br_probes_needed b \<le> length (filter (\<lambda>(t, ok, why). ok) rs) then Closed else Open)"
proof -
  have "rs \<noteq> []" using assms by auto
  with assms record_all_probes [of b rs] show ?thesis
    by (simp add: filter_map o_def case_prod_unfold)
qed

definition s_half_open :: breaker where
  "s_half_open = s_open\<lparr>br_mode := Half_Open, br_probes_admitted := 5\<rparr>"

theorem probes_decide_witness:
  "br_mode (record_all [(1061, True, []), (1061, False, ''timeout''), (1062, True, []), (1063, False, []), (1064, True, [])]
     s_half_open) = Closed"
  using probes_decide [of s_half_open
      "[(1061, True, []), (1061, False, ''timeout''), (1062, True, []), (1063, False, []), (1064, True, [])]"]
  by (simp add: s_half_open_def s_open_def CircuitBreaker_def del: record_all.simps)

text \<open>
  A probe that never reports locks the breaker. When every probe has been admitted and no
  admitted call is left to report although one of them was never recorded, as happens when its
  task is cancelled by the time limit of its domain, then every later check is refused, for
  ever, however much time passes.
\<close>

theorem lost_probe_locks:
  assumes "br_mode b = Half_Open" and "br_probes b \<le> br_probes_admitted b"
  shows "admitted (map Check ts) b = [] \<and> (\<forall>t. breaker_check t b = (b, Some 1))"
proof -
  have "breaker_check t b = (b, Some 1)" for t
    using assms by (simp add: breaker_check_def breaker_state_idle)
  then show ?thesis by (induction ts) auto
qed

text \<open>
  The state is within reach: five probes are let through, four of them report, the fifth is
  cancelled.
\<close>

definition s_locked :: breaker where
  "s_locked = fold br_step (replicate 5 (Check 1060) @ replicate 4 (Record 1061 True [])) s_open"

theorem lost_probe_locks_witness:
  "br_mode s_locked = Half_Open \<and> br_probes_admitted s_locked = 5 \<and> br_probe_results s_locked = replicate 4 True \<and>
   admitted (map Check [1100, 10000, 1000000]) s_locked = []"
proof -
  have s: "br_mode s_locked = Half_Open" "br_probes_admitted s_locked = 5" "br_probes s_locked = 5"
    "br_probe_results s_locked = replicate 4 True"
    by code_simp+
  with lost_probe_locks [of s_locked "[1100, 10000, 1000000]"] show ?thesis by simp
qed

text \<open>
  Results of calls made before it opened count against an open breaker as well: \<open>min_samples\<close>
  of them open it again, and double the window, in the same outage.
\<close>

lemma stragglers_reopen:
  "br_open_for (record_all (replicate 20 (1001, False, [])) s_open) = 120 \<and>
   br_open_for (record_all (replicate 40 (1001, False, [])) s_open) = 240"
  by code_simp

end
