(* ===== verification/Html_Scan.thy ===== *)
theory Html_Scan
  imports Regex
begin

text \<open>
  The linear scans for \<open><tag ..>..</tag>\<close> blocks of \<open>src/app/pipeline/htmlscan.py\<close>: the blocks a
  forward pass finds, removing them, and their bodies. The pass always moves ahead, so it ends;
  its blocks lie in the document in order without overlap, and removing none of them gives the
  document back.
\<close>

section \<open>Definitions\<close>

text \<open>\<open>s.find(p, i)\<close> for a pattern that is not empty.\<close>

definition find_at :: "string \<Rightarrow> string \<Rightarrow> nat \<Rightarrow> nat option" where
  "find_at p s i =
     (case partition_at p (drop i s) of (a, Some _) \<Rightarrow> Some (i + length a) | _ \<Rightarrow> None)"

definition slice :: "nat \<Rightarrow> nat \<Rightarrow> string \<Rightarrow> string" where
  "slice i j s = take (j - i) (drop i s)"

record block =
  bl_start :: nat
  bl_body_start :: nat
  bl_body_end :: nat
  bl_end :: nat
  bl_attrs :: string

lemma find_at_bounds:
  assumes "find_at p s i = Some k" and "p \<noteq> []"
  shows "i \<le> k" and "k + length p \<le> length s"
proof -
  obtain a b where ab: "partition_at p (drop i s) = (a, Some b)" "k = i + length a"
    using assms(1) by (auto simp: find_at_def split: prod.splits option.splits)
  then have "drop i s = a @ p @ b" by (simp add: partition_at_Some)
  then have "length s - i = length a + length p + length b" by (metis length_append length_drop add.assoc)
  with ab assms(2) show "i \<le> k" "k + length p \<le> length s" by (cases p; simp)+
qed

text \<open>The name of a tag ends at white space, \<open>/\<close> or \<open>>\<close>.\<close>

definition name_goes_on :: "string \<Rightarrow> nat \<Rightarrow> bool" where
  "name_goes_on html after \<longleftrightarrow> after < length html \<and>
     html ! after \<notin> {CHR '' '', CHR 0x09, CHR 0x0D, CHR 0x0A, CHR ''/'', CHR ''>''}"

function iter_blocks_from :: "nat \<Rightarrow> string \<Rightarrow> string \<Rightarrow> block list" where
  "iter_blocks_from pos tag html =
     (let low = lower html; n = length html; open_needle = ''<'' @ tag; close_needle = ''</'' @ tag
      in case find_at open_needle low pos of
           None \<Rightarrow> []
         | Some start \<Rightarrow>
             let after = start + length open_needle
             in if name_goes_on html after
                then iter_blocks_from after tag html
                else case find_at ''>'' html after of
                       None \<Rightarrow> []
                     | Some gt \<Rightarrow>
                         let body_start = gt + 1; attrs = slice after gt html
                         in case find_at close_needle low body_start of
                              None \<Rightarrow> [\<lparr>bl_start = start, bl_body_start = body_start, bl_body_end = n, bl_end = n, bl_attrs = attrs\<rparr>]
                            | Some close \<Rightarrow>
                                let fin = (case find_at ''>'' html (close + length close_needle) of None \<Rightarrow> n | Some g \<Rightarrow> g + 1)
                                in \<lparr>bl_start = start, bl_body_start = body_start, bl_body_end = close, bl_end = fin, bl_attrs = attrs\<rparr>
                                   # iter_blocks_from fin tag html)"
  by pat_completeness auto
termination
proof (relation "measure (\<lambda>(pos, tag, html). length html - pos)", goal_cases)
  case (2 pos tag html low n op cl start after)
  then show ?case using find_at_bounds [of op low pos start] by auto
next
  case (3 pos tag html low n op cl start after gt body_start attrs close fin)
  then have b: "pos \<le> start" "start + length op \<le> n" "body_start \<le> close" "close + length cl \<le> n" "after \<le> gt"
    using find_at_bounds [of op low pos start] find_at_bounds [of cl low body_start close]
      find_at_bounds [of "''>''" html after gt] by auto
  have "close + length cl \<le> fin"
    using 3 b find_at_bounds [of "''>''" html "close + length cl"] by (auto split: option.splits)
  with 3 b show ?case by auto
qed simp

declare iter_blocks_from.simps [simp del]

definition iter_blocks :: "string \<Rightarrow> string \<Rightarrow> block list" where
  "iter_blocks html tag = iter_blocks_from 0 tag html"

fun strip_from :: "(block \<Rightarrow> string \<Rightarrow> bool) \<Rightarrow> string \<Rightarrow> nat \<Rightarrow> block list \<Rightarrow> string" where
  "strip_from keep html i [] = drop i html"
| "strip_from keep html i (b # bs) =
     slice i (bl_start b) html @
     (if keep b (slice (bl_body_start b) (bl_body_end b) html) then slice (bl_start b) (bl_end b) html else '' '') @
     strip_from keep html (bl_end b) bs"

definition strip_blocks :: "(block \<Rightarrow> string \<Rightarrow> bool) \<Rightarrow> string \<Rightarrow> string \<Rightarrow> string" where
  "strip_blocks keep html tag = strip_from keep html 0 (iter_blocks html tag)"

definition bodies :: "string \<Rightarrow> string \<Rightarrow> string list" where
  "bodies html tag = map (\<lambda>b. slice (bl_body_start b) (bl_body_end b) html) (iter_blocks html tag)"

text \<open>\<open>@[a-z0-9-]+\.[a-z]{2,}\<close>, ignoring case.\<close>

definition EMAILISH :: rx where
  "EMAILISH = seqs [lit ''@'', plus (Chr (\<lambda>c. is_ascii_letter c \<or> is_digit c \<or> c = CHR ''-'')), lit ''.'',
     Rep 2 None True (Chr is_ascii_letter)]"

definition looks_emailish :: "string \<Rightarrow> bool" where
  "looks_emailish body = (contains ''@'' body \<and> rx_search EMAILISH body \<noteq> None)"

section \<open>The blocks lie in order\<close>

fun in_order :: "nat \<Rightarrow> nat \<Rightarrow> block list \<Rightarrow> bool" where
  "in_order i n [] = (i \<le> n)"
| "in_order i n (b # bs) =
     (i \<le> bl_start b \<and> bl_start b < bl_body_start b \<and> bl_body_start b \<le> bl_body_end b \<and>
      bl_body_end b \<le> bl_end b \<and> bl_end b \<le> n \<and> in_order (bl_end b) n bs)"

lemma iter_blocks_in_order: "pos \<le> length html \<Longrightarrow> in_order pos (length html) (iter_blocks_from pos tag html)"
proof (induction pos tag html rule: iter_blocks_from.induct)
  case (1 pos tag html)
  let ?op = "''<'' @ tag" and ?cl = "''</'' @ tag" and ?low = "lower html"
  show ?case
  proof (cases "find_at ?op ?low pos")
    case None
    then show ?thesis using 1(3) by (simp add: iter_blocks_from.simps [of pos] Let_def)
  next
    case (Some start)
    note start = find_at_bounds [OF this, simplified]
    let ?after = "start + length ?op"
    show ?thesis
    proof (cases "name_goes_on html ?after")
      case True
      have "in_order ?after (length html) (iter_blocks_from ?after tag html)"
        using 1(1) [OF refl refl refl refl Some refl True] True by (simp add: name_goes_on_def)
      then have "in_order pos (length html) (iter_blocks_from ?after tag html)"
        using start by (cases "iter_blocks_from ?after tag html") auto
      with Some True show ?thesis by (simp add: iter_blocks_from.simps [of pos] Let_def)
    next
      case False
      show ?thesis
      proof (cases "find_at ''>'' html ?after")
        case None
        with Some False 1(3) show ?thesis by (simp add: iter_blocks_from.simps [of pos] Let_def)
      next
        case gt: (Some gt)
        note gtb = find_at_bounds [OF gt, simplified]
        show ?thesis
        proof (cases "find_at ?cl ?low (gt + 1)")
          case None
          with Some False gt gtb start show ?thesis by (simp add: iter_blocks_from.simps [of pos] Let_def)
        next
          case cl: (Some close)
          note clb = find_at_bounds [OF cl, simplified]
          define fin where "fin = (case find_at ''>'' html (close + length ?cl) of None \<Rightarrow> length html | Some g \<Rightarrow> g + 1)"
          have fin: "close \<le> fin" "fin \<le> length html"
            using find_at_bounds [of "''>''" html "close + length ?cl"] clb
            by (auto simp: fin_def split: option.splits)
          have "in_order fin (length html) (iter_blocks_from fin tag html)"
            using 1(2) [OF refl refl refl refl Some refl False gt refl refl cl fin_def] fin by simp
          with Some False gt cl gtb clb start fin show ?thesis
            by (subst iter_blocks_from.simps) (simp add: Let_def fin_def [simplified, symmetric])
        qed
      qed
    qed
  qed
qed

lemma slice_append: "\<lbrakk> i \<le> j; j \<le> k \<rbrakk> \<Longrightarrow> slice i j s @ slice j k s = slice i k s"
proof -
  assume "i \<le> j" "j \<le> k"
  then have "drop j s = drop (j - i) (drop i s)" "k - i = (j - i) + (k - j)" by simp_all
  then show ?thesis by (simp only: slice_def take_add)
qed

lemma slice_drop: "i \<le> j \<Longrightarrow> slice i j s @ drop j s = drop i s"
  unfolding slice_def by (metis append_take_drop_id drop_drop le_add_diff_inverse2)

lemma strip_from_keep: "in_order i (length html) bs \<Longrightarrow> strip_from (\<lambda>_ _. True) html i bs = drop i html"
proof (induction bs arbitrary: i)
  case (Cons b bs)
  then have ih: "strip_from (\<lambda>_ _. True) html (bl_end b) bs = drop (bl_end b) html" by simp
  have "slice i (bl_start b) html @ slice (bl_start b) (bl_end b) html = slice i (bl_end b) html"
    using Cons.prems by (intro slice_append) auto
  moreover have "slice i (bl_end b) html @ drop (bl_end b) html = drop i html"
    using Cons.prems by (intro slice_drop) auto
  ultimately show ?case using ih by simp (metis append_assoc)
qed simp

text \<open>Removing nothing is the identity, on every document, well formed or not.\<close>

lemma strip_blocks_keep_all: "strip_blocks (\<lambda>_ _. True) html tag = html"
  by (simp add: strip_blocks_def iter_blocks_def strip_from_keep iter_blocks_in_order)

end
