(* ===== verification/Py_Net.thy ===== *)
theory Py_Net
  imports Py_Str "HOL-Library.Word"
begin

text \<open>
  The parts of \<open>urllib.parse\<close> and \<open>ipaddress\<close> (Python 3.12) that the program calls: splitting,
  rebuilding and joining URLs, the host and port of one, parsing of IP addresses, and the
  address ranges behind \<open>is_global\<close> and \<open>is_multicast\<close>. Raising \<open>ValueError\<close> is \<open>None\<close>.
\<close>

section \<open>Numbers in text\<close>

definition digit_value :: "char \<Rightarrow> int" where
  "digit_value c = (let n = of_char (lower_char c) in if n \<le> 57 then n - 48 else n - 87)"

definition is_hex :: "char \<Rightarrow> bool" where
  "is_hex c = (is_digit c \<or> (let n = ordc (lower_char c) in 97 \<le> n \<and> n \<le> 102))"

definition value_of :: "int \<Rightarrow> string \<Rightarrow> int" where
  "value_of b s = fold (\<lambda>c n. n * b + digit_value c) s 0"

text \<open>\<open>str(n)\<close> of an integer.\<close>

fun str_nat :: "nat \<Rightarrow> string" where
  "str_nat n = (if n < 10 then [char_of (48 + n)] else str_nat (n div 10) @ [char_of (48 + n mod 10)])"

declare str_nat.simps [simp del]

definition str_int :: "int \<Rightarrow> string" where
  "str_int i = (if i < 0 then ''-'' @ str_nat (nat (- i)) else str_nat (nat i))"

section \<open>Addresses\<close>

datatype ip = V4 "32 word" | V6 "128 word"

definition parse_octet :: "string \<Rightarrow> int option" where
  "parse_octet s =
     (if s \<noteq> [] \<and> list_all is_digit s \<and> length s \<le> 3 \<and> \<not> (s \<noteq> ''0'' \<and> hd s = CHR ''0'') \<and> value_of 10 s \<le> 255
      then Some (value_of 10 s) else None)"

definition parse_v4 :: "string \<Rightarrow> 32 word option" where
  "parse_v4 s =
     (case map parse_octet (split_on ''.'' s) of
        [Some a, Some b, Some c, Some d] \<Rightarrow>
          Some (word_of_int (((a * 256 + b) * 256 + c) * 256 + d))
      | _ \<Rightarrow> None)"

text \<open>
  A group of an IPv6 address is text, or one of the two values of a dotted tail. \<open>::\<close> leaves an
  empty group inside; an empty group at either end must be part of it.
\<close>

fun parse_hextet :: "string + int \<Rightarrow> int option" where
  "parse_hextet (Inl s) =
     (if s \<noteq> [] \<and> list_all is_hex s \<and> length s \<le> 4 then Some (value_of 16 s) else None)"
| "parse_hextet (Inr n) = Some n"

fun hextets :: "int \<Rightarrow> (string + int) list \<Rightarrow> int option" where
  "hextets acc [] = Some acc"
| "hextets acc (p # ps) = (case parse_hextet p of None \<Rightarrow> None | Some n \<Rightarrow> hextets (acc * 65536 + n) ps)"

definition v6_groups :: "string \<Rightarrow> (string + int) list option" where
  "v6_groups s =
     (let ps = split_on '':'' s
      in if length ps < 3 then None
         else if contains ''.'' (last ps) then
           (case parse_v4 (last ps) of
              None \<Rightarrow> None
            | Some w \<Rightarrow> Some (map Inl (butlast ps) @ [Inr (uint w div 65536), Inr (uint w mod 65536)]))
         else Some (map Inl ps))"

definition v6_of_groups :: "(string + int) list \<Rightarrow> int option" where
  "v6_of_groups ps =
     (if length ps > 9 then None
      else case filter (\<lambda>i. ps ! i = Inl []) [1..<length ps - 1] of
        [] \<Rightarrow> if length ps = 8 \<and> hd ps \<noteq> Inl [] \<and> last ps \<noteq> Inl [] then hextets 0 ps else None
      | [i] \<Rightarrow>
          let hi = (if hd ps = Inl [] then i - 1 else i);
              lo = (if last ps = Inl [] then length ps - i - 2 else length ps - i - 1)
          in if hd ps = Inl [] \<and> hi \<noteq> 0 \<or> last ps = Inl [] \<and> lo \<noteq> 0 \<or> hi + lo > 7 then None
             else (case hextets 0 (take hi ps) of
                     None \<Rightarrow> None
                   | Some h \<Rightarrow> hextets (h * 65536 ^ (8 - (hi + lo))) (drop (length ps - lo) ps))
      | _ \<Rightarrow> None)"

text \<open>A scope after \<open>%\<close> is allowed and plays no part in what follows.\<close>

definition parse_v6 :: "string \<Rightarrow> 128 word option" where
  "parse_v6 s =
     (case partition_at ''%'' s of
        (a, scope) \<Rightarrow>
          if (case scope of None \<Rightarrow> False | Some z \<Rightarrow> z = [] \<or> contains ''%'' z) \<or> contains ''/'' s then None
          else map_option word_of_int (Option.bind (v6_groups a) v6_of_groups))"

definition ip_address :: "string \<Rightarrow> ip option" where
  "ip_address s =
     (case parse_v4 s of Some w \<Rightarrow> Some (V4 w) | None \<Rightarrow> map_option V6 (parse_v6 s))"

text \<open>\<open>ip in ip_network(..)\<close> for a network of the same family.\<close>

definition v4_in :: "32 word \<Rightarrow> (int \<times> int \<times> int \<times> int) \<times> nat \<Rightarrow> bool" where
  "v4_in w = (\<lambda>((a, b, c, d), n).
     drop_bit (32 - n) w = drop_bit (32 - n) (word_of_int (((a * 256 + b) * 256 + c) * 256 + d)))"

definition v6_in :: "128 word \<Rightarrow> int \<times> nat \<Rightarrow> bool" where
  "v6_in w = (\<lambda>(p, n). drop_bit (128 - n) w = (word_of_int p :: 128 word))"

definition v4_private :: "((int \<times> int \<times> int \<times> int) \<times> nat) list" where
  "v4_private =
     [((0, 0, 0, 0), 8), ((10, 0, 0, 0), 8), ((127, 0, 0, 0), 8), ((169, 254, 0, 0), 16),
      ((172, 16, 0, 0), 12), ((192, 0, 0, 0), 24), ((192, 0, 2, 0), 24), ((192, 168, 0, 0), 16),
      ((198, 18, 0, 0), 15), ((198, 51, 100, 0), 24), ((203, 0, 113, 0), 24), ((240, 0, 0, 0), 4),
      ((255, 255, 255, 255), 32)]"

definition v4_private_exceptions :: "((int \<times> int \<times> int \<times> int) \<times> nat) list" where
  "v4_private_exceptions = [((192, 0, 0, 9), 32), ((192, 0, 0, 10), 32)]"

text \<open>The prefixes of IPv6 networks, as the number their leading bits spell.\<close>

definition v6_private :: "(int \<times> nat) list" where
  "v6_private =
     [(1, 128), (0, 128), (0xffff, 96), (0x0064ff9b0001, 48), (0x0100000000000000, 64),
      (0x2001 * 128, 23), (0x20010db8, 32), (0x2002, 16), (0x3fff * 16, 20), (126, 7), (0x3fa, 10)]"

definition v6_private_exceptions :: "(int \<times> nat) list" where
  "v6_private_exceptions =
     [(0x2001 * 2 ^ 112 + 2 ^ 96 + 1, 128), (0x2001 * 2 ^ 112 + 2 ^ 96 + 2, 128), (0x20010003, 32),
      (0x200100040112, 48), (0x2001002, 28), (0x2001003, 28)]"

fun ipv4_mapped :: "ip \<Rightarrow> ip option" where
  "ipv4_mapped (V6 w) = (if v6_in w (0xffff, 96) then Some (V4 (ucast w)) else None)"
| "ipv4_mapped (V4 w) = None"

definition v4_is_global :: "32 word \<Rightarrow> bool" where
  "v4_is_global w \<longleftrightarrow> \<not> v4_in w ((100, 64, 0, 0), 10) \<and>
     \<not> (list_ex (v4_in w) v4_private \<and> \<not> list_ex (v4_in w) v4_private_exceptions)"

fun is_global :: "ip \<Rightarrow> bool" where
  "is_global (V4 w) = v4_is_global w"
| "is_global (V6 w) =
     (if v6_in w (0xffff, 96) then v4_is_global (ucast w)
      else \<not> (list_ex (v6_in w) v6_private \<and> \<not> list_ex (v6_in w) v6_private_exceptions))"

fun is_multicast :: "ip \<Rightarrow> bool" where
  "is_multicast (V4 w) = v4_in w ((224, 0, 0, 0), 4)"
| "is_multicast (V6 w) = v6_in w (0xff, 8)"

section \<open>URLs\<close>

record url_parts =
  ul_scheme :: string
  ul_netloc :: string
  ul_path :: string
  ul_query :: string
  ul_fragment :: string

definition scheme_char :: "char \<Rightarrow> bool" where
  "scheme_char c = (is_ascii_letter c \<or> is_digit c \<or> c = CHR ''+'' \<or> c = CHR ''-'' \<or> c = CHR ''.'')"

definition split_scheme :: "string \<Rightarrow> string \<Rightarrow> string \<times> string" where
  "split_scheme dflt u =
     (case partition_at '':'' u of
        (s, Some r) \<Rightarrow>
          if s \<noteq> [] \<and> is_ascii_letter (hd s) \<and> list_all scheme_char s then (lower s, r) else (dflt, u)
      | _ \<Rightarrow> (dflt, u))"

definition bracketed_host_ok :: "string \<Rightarrow> bool" where
  "bracketed_host_ok h =
     (if startswith ''v'' h
      then (case partition_at ''.'' (tl h) of
              (x, Some r) \<Rightarrow> x \<noteq> [] \<and> list_all is_hex x \<and> r \<noteq> [] \<and> CHR 0x0A \<notin> set r | _ \<Rightarrow> False)
      else (case ip_address h of Some (V6 _) \<Rightarrow> True | _ \<Rightarrow> False))"

definition host_and_port :: "string \<Rightarrow> string" where
  "host_and_port netloc = (case rpartition_at ''@'' netloc of None \<Rightarrow> netloc | Some (_, h) \<Rightarrow> h)"

definition netloc_ok :: "string \<Rightarrow> bool" where
  "netloc_ok n =
     (if contains ''['' n \<noteq> contains '']'' n then False
      else if \<not> contains ''['' n then True
      else case partition_at ''['' (host_and_port n) of
             (pre, Some rest) \<Rightarrow>
               (case partition_at '']'' rest of
                  (h, p) \<Rightarrow> pre = [] \<and> (case p of None \<Rightarrow> True | Some q \<Rightarrow> q = [] \<or> startswith '':'' q) \<and>
                    bracketed_host_ok h)
           | (pre, None) \<Rightarrow> bracketed_host_ok (fst (partition_at '':'' pre)))"

text \<open>\<open>urlsplit(url, scheme)\<close>; a Latin-1 \<open>netloc\<close> always passes the check for Unicode look-alikes.\<close>

definition urlsplit_with :: "string \<Rightarrow> string \<Rightarrow> url_parts option" where
  "urlsplit_with dflt u0 =
     (let u1 = filter (\<lambda>c. c \<noteq> CHR 0x09 \<and> c \<noteq> CHR 0x0A \<and> c \<noteq> CHR 0x0D) (dropWhile (\<lambda>c. ordc c \<le> 32) u0);
          (scheme, u2) = split_scheme dflt u1;
          (netloc, u3) =
            (if startswith ''//'' u2
             then (takeWhile (\<lambda>c. c \<notin> set ''/?#'') (drop 2 u2), dropWhile (\<lambda>c. c \<notin> set ''/?#'') (drop 2 u2))
             else ([], u2));
          (u4, fragment) = partition_at ''#'' u3;
          (path, query) = partition_at ''?'' u4
      in if netloc_ok netloc
         then Some \<lparr>ul_scheme = scheme, ul_netloc = netloc, ul_path = path, ul_query = or_empty query,
                    ul_fragment = or_empty fragment\<rparr>
         else None)"

definition urlsplit :: "string \<Rightarrow> url_parts option" where
  "urlsplit u = urlsplit_with [] u"

definition hostinfo :: "url_parts \<Rightarrow> string \<times> string option" where
  "hostinfo p =
     (let h = host_and_port (ul_netloc p);
          (host, port) =
            (case partition_at ''['' h of
               (_, Some rest) \<Rightarrow>
                 (case partition_at '']'' rest of
                    (x, None) \<Rightarrow> (x, None) | (x, Some q) \<Rightarrow> (x, snd (partition_at '':'' q)))
             | (_, None) \<Rightarrow> partition_at '':'' h)
      in (host, case port of None \<Rightarrow> None | Some q \<Rightarrow> if q = [] then None else Some q))"

definition hostname :: "url_parts \<Rightarrow> string option" where
  "hostname p =
     (let h = fst (hostinfo p)
      in if h = [] then None
         else Some (case partition_at ''%'' h of
                      (a, None) \<Rightarrow> lower a | (a, Some z) \<Rightarrow> lower a @ ''%'' @ z))"

text \<open>\<open>port\<close> raises for text that is not a port number.\<close>

definition port_of :: "url_parts \<Rightarrow> int option option" where
  "port_of p =
     (case snd (hostinfo p) of
        None \<Rightarrow> Some None
      | Some q \<Rightarrow> if list_all is_digit q \<and> value_of 10 q \<le> 65535 then Some (Some (value_of 10 q)) else None)"

definition userinfo :: "url_parts \<Rightarrow> (string \<times> string option) option" where
  "userinfo p =
     (case rpartition_at ''@'' (ul_netloc p) of None \<Rightarrow> None | Some (u, _) \<Rightarrow> Some (partition_at '':'' u))"

definition uses_netloc :: "string list" where
  "uses_netloc = [[], ''ftp'', ''http'', ''gopher'', ''nntp'', ''telnet'', ''imap'', ''wais'', ''file'',
     ''mms'', ''https'', ''shttp'', ''snews'', ''prospero'', ''rtsp'', ''rtsps'', ''rtspu'', ''rsync'',
     ''svn'', ''svn+ssh'', ''sftp'', ''nfs'', ''git'', ''git+ssh'', ''ws'', ''wss'', ''itms-services'']"

definition urlunsplit :: "url_parts \<Rightarrow> string" where
  "urlunsplit p =
     (let path = ul_path p;
          u = (if ul_netloc p \<noteq> []
               then ''//'' @ ul_netloc p @ (if path \<noteq> [] \<and> hd path \<noteq> CHR ''/'' then ''/'' @ path else path)
               else if startswith ''//'' path then ''//'' @ path
               else if ul_scheme p \<noteq> [] \<and> ul_scheme p \<in> set uses_netloc \<and> (path = [] \<or> hd path = CHR ''/'')
               then ''//'' @ path else path);
          u = (if ul_scheme p \<noteq> [] then ul_scheme p @ '':'' @ u else u);
          u = (if ul_query p \<noteq> [] then u @ ''?'' @ ul_query p else u)
      in if ul_fragment p \<noteq> [] then u @ ''#'' @ ul_fragment p else u)"

text \<open>
  \<open>urljoin\<close>. The parameters after \<open>;\<close> in the last segment of the path are kept apart, as
  \<open>urlparse\<close> does, and \<open>urlunparse\<close> puts them back.
\<close>

definition uses_relative :: "string list" where
  "uses_relative = [[], ''ftp'', ''http'', ''gopher'', ''nntp'', ''imap'', ''wais'', ''file'', ''https'',
     ''shttp'', ''mms'', ''prospero'', ''rtsp'', ''rtsps'', ''rtspu'', ''sftp'', ''svn'', ''svn+ssh'', ''ws'', ''wss'']"

definition uses_params :: "string list" where
  "uses_params = [[], ''ftp'', ''hdl'', ''prospero'', ''http'', ''imap'', ''https'', ''shttp'', ''rtsp'',
     ''rtsps'', ''rtspu'', ''sip'', ''sips'', ''mms'', ''sftp'', ''tel'']"

definition split_params :: "string \<Rightarrow> string \<times> string" where
  "split_params path =
     (case rpartition_at ''/'' path of
        None \<Rightarrow> (case partition_at '';'' path of (a, b) \<Rightarrow> (a, or_empty b))
      | Some (dir, name) \<Rightarrow>
          (case partition_at '';'' name of (a, b) \<Rightarrow> (dir @ ''/'' @ a, or_empty b)))"

definition parse_params :: "url_parts \<Rightarrow> string \<times> string" where
  "parse_params p =
     (if ul_scheme p \<in> set uses_params \<and> contains '';'' (ul_path p) then split_params (ul_path p)
      else (ul_path p, []))"

definition unparse :: "url_parts \<Rightarrow> string \<Rightarrow> string \<Rightarrow> string" where
  "unparse p path params = urlunsplit (p\<lparr>ul_path := (if params \<noteq> [] then path @ '';'' @ params else path)\<rparr>)"

fun resolve_dots :: "string list \<Rightarrow> string list \<Rightarrow> string list" where
  "resolve_dots acc [] = acc"
| "resolve_dots acc (s # ss) =
     (if s = ''..'' then resolve_dots (butlast acc) ss
      else if s = ''.'' then resolve_dots acc ss else resolve_dots (acc @ [s]) ss)"

definition join_segments :: "string \<Rightarrow> string \<Rightarrow> string list" where
  "join_segments bpath path =
     (if startswith ''/'' path then split_on ''/'' path
      else let base = split_on ''/'' bpath;
               base' = (if last base \<noteq> [] then butlast base else base);
               segs = base' @ split_on ''/'' path
           in if length segs \<le> 2 then segs
              else hd segs # filter (\<lambda>x. x \<noteq> []) (butlast (tl segs)) @ [last segs])"

definition urljoin :: "string \<Rightarrow> string \<Rightarrow> string option" where
  "urljoin base u =
     (if base = [] then Some u
      else if u = [] then Some base
      else case urlsplit base of
             None \<Rightarrow> None
           | Some b \<Rightarrow>
        (case urlsplit_with (ul_scheme b) u of
             None \<Rightarrow> None
           | Some p \<Rightarrow>
               let (bpath, bparams) = parse_params b; (path, params) = parse_params p
               in Some (if ul_scheme p \<noteq> ul_scheme b \<or> ul_scheme p \<notin> set uses_relative then u
                  else if ul_scheme p \<in> set uses_netloc \<and> ul_netloc p \<noteq> [] then unparse p path params
                  else
                    let p' = (if ul_scheme p \<in> set uses_netloc then p\<lparr>ul_netloc := ul_netloc b\<rparr> else p)
                    in if path = [] \<and> params = []
                       then unparse (p'\<lparr>ul_query := (if ul_query p = [] then ul_query b else ul_query p)\<rparr>) bpath bparams
                       else
                         let segs = join_segments bpath path;
                             res = resolve_dots [] segs @ (if last segs = ''.'' \<or> last segs = ''..'' then [[]] else []);
                             joined = join ''/'' res
                         in unparse p' (if joined = [] then ''/'' else joined) params)))"

definition urldefrag :: "string \<Rightarrow> string option" where
  "urldefrag u =
     (if contains ''#'' u
      then map_option (\<lambda>p. case parse_params p of (path, params) \<Rightarrow> unparse (p\<lparr>ul_fragment := []\<rparr>) path params) (urlsplit u)
      else Some u)"

end
