(* ===== verification/Netguard.thy ===== *)
theory Netguard
  imports Py_Net
begin

text \<open>
  Which addresses the service may connect to, \<open>src/app/netguard.py\<close>. Name resolution
  (\<open>getaddrinfo\<close>) is an argument: for a host and port the addresses it answers, as text, or
  \<open>None\<close> for an \<open>OSError\<close>.
\<close>

section \<open>Definitions\<close>

definition EMBEDDED_V4 :: "(int \<times> nat) list" where
  "EMBEDDED_V4 = [(0x64ff9b * 2 ^ 64, 96), (0x64ff9b0001, 48), (0, 96), (0x2002, 16)]"

definition is_public :: "ip \<Rightarrow> bool" where
  "is_public a =
     (case ipv4_mapped a of
        Some m \<Rightarrow> is_global m \<and> \<not> is_multicast m
      | None \<Rightarrow>
          (case a of V6 w \<Rightarrow> \<not> list_ex (v6_in w) EMBEDDED_V4 | V4 _ \<Rightarrow> True) \<and>
          is_global a \<and> \<not> is_multicast a)"

datatype net_error = Private_Address string | Os_Error | Value_Error

type_synonym getaddrinfo = "string \<Rightarrow> int \<Rightarrow> string list option"

fun addresses :: "string list \<Rightarrow> ip list option" where
  "addresses [] = Some []"
| "addresses (s # ss) =
     (case (ip_address s, addresses ss) of (Some a, Some as) \<Rightarrow> Some (a # as) | _ \<Rightarrow> None)"

definition strip_brackets :: "string \<Rightarrow> string" where
  "strip_brackets s = strip_by (\<lambda>c. c = CHR ''['' \<or> c = CHR '']'') s"

definition resolve_public :: "getaddrinfo \<Rightarrow> string \<Rightarrow> int \<Rightarrow> net_error + ip list" where
  "resolve_public dns host port =
     (let check = (\<lambda>addrs. if addrs = [] then Inl Os_Error
                           else if \<not> list_all is_public addrs then Inl (Private_Address host)
                           else Inr addrs)
      in case ip_address (strip_brackets host) of
           Some a \<Rightarrow> check [a]
         | None \<Rightarrow>
             (case dns host port of
                None \<Rightarrow> Inl Os_Error
              | Some infos \<Rightarrow> (case addresses infos of None \<Rightarrow> Inl Value_Error | Some addrs \<Rightarrow> check addrs)))"

text \<open>\<open>parts.port or (443 if parts.scheme == "https" else 80)\<close>, once the port has been read.\<close>

definition effective_port :: "url_parts \<Rightarrow> int option \<Rightarrow> int" where
  "effective_port p port =
     (case port of
        Some n \<Rightarrow> if n \<noteq> 0 then n else if ul_scheme p = ''https'' then 443 else 80
      | None \<Rightarrow> if ul_scheme p = ''https'' then 443 else 80)"

section \<open>What a resolved host is\<close>

lemma resolve_public_all:
  assumes "resolve_public dns host port = Inr addrs"
  shows "addrs \<noteq> [] \<and> list_all is_public addrs \<and>
    (ip_address (strip_brackets host) = None \<longrightarrow> map_option addresses (dns host port) = Some (Some addrs))"
  using assms by (auto simp: resolve_public_def Let_def split: option.splits if_splits)

text \<open>The address families that reach the private side are all refused.\<close>

lemma public_v4_private:
  "is_public (V4 w) \<Longrightarrow> \<not> list_ex (v4_in w)
     [((10, 0, 0, 0), 8), ((127, 0, 0, 0), 8), ((169, 254, 0, 0), 16), ((172, 16, 0, 0), 12),
      ((192, 168, 0, 0), 16), ((100, 64, 0, 0), 10), ((224, 0, 0, 0), 4)] \<or>
     list_ex (v4_in w) v4_private_exceptions"
  by (auto simp: is_public_def v4_is_global_def v4_private_def)

end
