(* ===== verification/Fetch.thy ===== *)
theory Fetch
  imports Html_Scan Netguard Settings
begin

text \<open>
  The fetch layer, \<open>src/app/pipeline/fetch.py\<close>: error classes, the classification of statuses and
  of transport failures, challenge pages, the guarded redirect loop, the two backends, and the
  retry loop that feeds the breaker.

  The HTTP client and name resolution are arguments. What they answer may depend on everything
  requested before, so they take the list of earlier requests. Decoding of bytes is the
  argument \<open>codec\<close>: the text for an encoding, or \<open>None\<close> when it does not apply. The answer of the
  reader API is taken in its documented shape.
\<close>

section \<open>Errors and results\<close>

datatype error_class = TRANSIENT | PERMANENT | BLOCKED | PROVIDER_ACCOUNT | BUG

record fetch_error =
  fe_class :: error_class
  fe_reason :: string
  fe_detail :: string
  fe_status :: "int option"
  fe_retry_after :: "rat option"
  fe_provider :: bool

definition FetchError :: "error_class \<Rightarrow> string \<Rightarrow> string \<Rightarrow> int option \<Rightarrow> fetch_error" where
  "FetchError c reason detail st =
     \<lparr>fe_class = c, fe_reason = reason, fe_detail = detail, fe_status = st, fe_retry_after = None, fe_provider = False\<rparr>"

definition retryable :: "fetch_error \<Rightarrow> bool" where
  "retryable e = (fe_class e = TRANSIENT)"

record fetch_result =
  fr_url :: string
  fr_final_url :: string
  fr_status :: int
  fr_html :: string
  fr_bytes :: nat
  fr_jina_tokens :: "int option"

text \<open>
  What can end a call: the program's own errors, the exceptions of the HTTP client the code
  tells apart, any other exception with its type name and text, and the cancellation of the
  task, which no handler for \<open>Exception\<close> sees.
\<close>

datatype httpx_kind =
  Too_Many_Redirects | Connect_Error | Connect_Timeout | Pool_Timeout | Other_Http string

datatype exc = Httpx httpx_kind string | Other_Exc string string

datatype failure =
  Fetch_Err fetch_error
| Circuit_Open rat
| Raised exc
| Cancelled

fun kind_name :: "httpx_kind \<Rightarrow> string" where
  "kind_name Too_Many_Redirects = ''TooManyRedirects''"
| "kind_name Connect_Error = ''ConnectError''"
| "kind_name Connect_Timeout = ''ConnectTimeout''"
| "kind_name Pool_Timeout = ''PoolTimeout''"
| "kind_name (Other_Http n) = n"

section \<open>Classification\<close>

definition parse_retry_after :: "(string \<Rightarrow> rat option) \<Rightarrow> (string \<Rightarrow> rat option) \<Rightarrow> string option \<Rightarrow> rat option" where
  "parse_retry_after py_float date_delta value =
     (if \<not> truthy value then None
      else let v = strip (the value)
           in case py_float v of
                Some x \<Rightarrow> Some (max 0 (min x 30))
              | None \<Rightarrow> map_option (\<lambda>x. max 0 (min x 30)) (date_delta v))"

definition JSONLD_RE :: rx where
  "JSONLD_RE = seqs [ilit ''type'', star (Chr is_space), lit ''='', star (Chr is_space),
     opt (Chr (\<lambda>c. c = CHR 0x22 \<or> c = CHR 0x27)), ilit ''application/ld+json'']"

definition TAG_RE :: rx where
  "TAG_RE = seqs [lit ''<'', star (Chr (\<lambda>c. c \<noteq> CHR ''>'')), lit ''>'']"

definition BLOCK_TEXT_MARKERS :: "string list" where
  "BLOCK_TEXT_MARKERS = [''just a moment'', ''attention required'', ''captcha'', ''access denied'']"

definition BLOCK_MARKUP_MARKERS :: "string list" where
  "BLOCK_MARKUP_MARKERS = [''cf-chl'']"

definition keep_script :: "block \<Rightarrow> string \<Rightarrow> bool" where
  "keep_script b body = (rx_search JSONLD_RE (bl_attrs b) \<noteq> None \<or> looks_emailish body)"

definition strip_non_jsonld_scripts :: "string \<Rightarrow> string" where
  "strip_non_jsonld_scripts html =
     (let html = strip_blocks keep_script html ''script'';
          html = strip_blocks (\<lambda>_ _. False) html ''style''
      in strip_blocks (\<lambda>_ _. False) html ''svg'')"

definition looks_blocked :: "int \<Rightarrow> string \<Rightarrow> bool" where
  "looks_blocked status html =
     (let head = take 8000 html; low = lower head
      in if list_ex (\<lambda>m. contains m low) BLOCK_MARKUP_MARKERS then True
         else
           let shown = lower (rx_sub TAG_RE (\<lambda>_. '' '')
                 (strip_blocks (\<lambda>_ _. False) (strip_blocks (\<lambda>_ _. False) head ''script'') ''style''))
           in if list_ex (\<lambda>m. contains m shown) BLOCK_TEXT_MARKERS then True else status = 403)"

definition classify_site_status :: "int \<Rightarrow> string \<Rightarrow> error_class option" where
  "classify_site_status status html =
     (if 200 \<le> status \<and> status < 300 then None
      else if (status = 403 \<or> status = 503) \<and> looks_blocked status html then Some BLOCKED
      else if status = 429 \<or> 500 \<le> status \<and> status \<le> 599 then Some TRANSIENT
      else if status = 403 then Some BLOCKED
      else Some PERMANENT)"

definition classify_provider_status :: "int \<Rightarrow> error_class option" where
  "classify_provider_status status =
     (if 200 \<le> status \<and> status < 300 then None
      else if status = 401 \<or> status = 402 then Some PROVIDER_ACCOUNT
      else if status = 403 then Some BLOCKED
      else if status = 409 then Some PERMANENT
      else if status = 422 then Some PERMANENT
      else if status = 429 \<or> 500 \<le> status \<and> status \<le> 599 then Some TRANSIENT
      else Some PERMANENT)"

definition exc_to_fetch_error :: "bool \<Rightarrow> exc \<Rightarrow> fetch_error" where
  "exc_to_fetch_error provider x =
     (case x of
        Httpx Too_Many_Redirects msg \<Rightarrow> FetchError PERMANENT ''redirect_loop'' ''TooManyRedirects'' None
      | Httpx k msg \<Rightarrow>
          if k = Connect_Error \<and> contains ''certificate'' (lower msg)
          then FetchError PERMANENT ''ssl_error'' (take 120 msg) None
          else (FetchError TRANSIENT ''homepage'' (kind_name k) None)
                 \<lparr>fe_provider := provider \<and> k \<in> {Connect_Error, Connect_Timeout, Pool_Timeout}\<rparr>
      | Other_Exc n msg \<Rightarrow> FetchError BUG ''internal_error'' (take 200 (n @ '': '' @ msg)) None)"

section \<open>Requests\<close>

text \<open>The header names of a response are in lower case, as the client looks them up.\<close>

record response =
  rs_status :: int
  rs_headers :: "(string \<times> string) list"
  rs_url :: string
  rs_chunks :: "string list"
  rs_charset :: "string option"

type_synonym client = "string list \<Rightarrow> string \<Rightarrow> exc + response"
type_synonym resolver = "string list \<Rightarrow> getaddrinfo"

definition host_of :: "string \<Rightarrow> exc + string" where
  "host_of url =
     (case urlsplit url of
        None \<Rightarrow> Inl (Other_Exc ''ValueError'' ''Invalid IPv6 URL'')
      | Some p \<Rightarrow> Inr (lower (or_empty (hostname p))))"

definition decode_body :: "(string \<Rightarrow> string \<Rightarrow> string option) \<Rightarrow> (string \<Rightarrow> string) \<Rightarrow> string \<Rightarrow> response \<Rightarrow> string" where
  "decode_body codec utf8_replace raw r =
     (case List.map_filter (\<lambda>enc. if truthy enc then codec (the enc) raw else None)
             [rs_charset r, Some ''utf-8'', Some ''cp1252''] of
        t # _ \<Rightarrow> t | [] \<Rightarrow> utf8_replace raw)"

text \<open>
  \<open>guard_url\<close>: \<open>None\<close> when the URL may be requested. An unparsable URL raises, a name that does
  not resolve passes (the client reports it).
\<close>

definition guard_url :: "settings \<Rightarrow> getaddrinfo \<Rightarrow> string \<Rightarrow> failure option" where
  "guard_url cfg dns url =
     (if \<not> fetch_guard_private_addresses cfg then None
      else case urlsplit url of
             None \<Rightarrow> Some (Raised (Other_Exc ''ValueError'' ''Invalid IPv6 URL''))
           | Some p \<Rightarrow>
        (case hostname p of
             None \<Rightarrow> None
           | Some host \<Rightarrow>
        (case port_of p of
             None \<Rightarrow> None
           | Some port \<Rightarrow>
        (case resolve_public dns host (effective_port p port) of
             Inr _ \<Rightarrow> None
           | Inl (Private_Address h) \<Rightarrow> Some (Fetch_Err (FetchError PERMANENT ''private_address'' host None))
           | Inl Os_Error \<Rightarrow> None
           | Inl Value_Error \<Rightarrow> Some (Raised (Other_Exc ''ValueError'' ''not an address''))))))"

definition MAX_REDIRECTS :: nat where "MAX_REDIRECTS = 5"

definition REDIRECT_STATUSES :: "int list" where
  "REDIRECT_STATUSES = [301, 302, 303, 307, 308]"

fun read_chunks :: "int \<Rightarrow> nat \<Rightarrow> string list \<Rightarrow> string list" where
  "read_chunks cap n [] = []"
| "read_chunks cap n (c # cs) =
     (if int (n + length c) \<ge> cap then [c] else c # read_chunks cap (n + length c) cs)"

text \<open>\<open>_raw_get\<close> with the requests it made. One round per hop; the last one gives up.\<close>

fun raw_get_from ::
  "settings \<Rightarrow> resolver \<Rightarrow> client \<Rightarrow> nat \<Rightarrow> string list \<Rightarrow> string \<Rightarrow>
     (failure + response \<times> string) \<times> string list" where
  "raw_get_from cfg dns web 0 hist url =
     (Inl (Raised (Httpx Too_Many_Redirects ''more than 5 redirects'')), hist)"
| "raw_get_from cfg dns web (Suc hops) hist url =
     (case guard_url cfg (dns hist) url of
        Some f \<Rightarrow> (Inl f, hist)
      | None \<Rightarrow>
          let hist' = hist @ [url]
          in case web hist url of
               Inl x \<Rightarrow> (Inl (Raised x), hist')
             | Inr r \<Rightarrow>
                 if rs_status r \<in> set REDIRECT_STATUSES \<and> truthy (map_of (rs_headers r) ''location'')
                 then (case urljoin url (the (map_of (rs_headers r) ''location'')) of
                         None \<Rightarrow> (Inl (Raised (Other_Exc ''ValueError'' ''Invalid IPv6 URL'')), hist')
                       | Some url' \<Rightarrow> raw_get_from cfg dns web hops hist' url')
                 else (Inr (r, take (nat (max_page_bytes cfg)) (concat (read_chunks (max_page_bytes cfg) 0 (rs_chunks r)))), hist'))"

definition raw_get :: "settings \<Rightarrow> resolver \<Rightarrow> client \<Rightarrow> string list \<Rightarrow> string \<Rightarrow> (failure + response \<times> string) \<times> string list" where
  "raw_get cfg dns web hist url = raw_get_from cfg dns web (Suc MAX_REDIRECTS) hist url"

section \<open>The two backends\<close>

definition fails :: "error_class \<Rightarrow> string \<Rightarrow> string \<Rightarrow> int option \<Rightarrow> failure + 'a" where
  "fails c reason detail st = Inl (Fetch_Err (FetchError c reason detail st))"

text \<open>One call of the direct backend, for a page and for a text file.\<close>

definition httpx_html ::
  "settings \<Rightarrow> (string \<Rightarrow> response \<Rightarrow> string) \<Rightarrow> resolver \<Rightarrow> client \<Rightarrow> string list \<Rightarrow> string \<Rightarrow> (failure + fetch_result) \<times> string list" where
  "httpx_html cfg decode dns web hist url =
     (case raw_get cfg dns web hist url of
        (Inl f, h) \<Rightarrow> (Inl f, h)
      | (Inr (r, raw), h) \<Rightarrow>
          let ctype = or_empty (map_of (rs_headers r) ''content-type''); body = decode raw r
          in (case classify_site_status (rs_status r) body of
                Some c \<Rightarrow> fails c (if c = BLOCKED then ''blocked'' else ''homepage'') (''HTTP '' @ str_int (rs_status r)) (Some (rs_status r))
              | None \<Rightarrow>
                  if ctype \<noteq> [] \<and> \<not> contains ''html'' (lower ctype) \<and> \<not> contains ''xml'' (lower ctype)
                  then fails PERMANENT ''not_html'' ctype (Some (rs_status r))
                  else if looks_blocked (rs_status r) body
                  then fails BLOCKED ''blocked'' ''challenge page'' (Some (rs_status r))
                  else Inr \<lparr>fr_url = url, fr_final_url = rs_url r, fr_status = rs_status r,
                             fr_html = strip_non_jsonld_scripts body, fr_bytes = length raw, fr_jina_tokens = None\<rparr>, h))"

definition httpx_text ::
  "settings \<Rightarrow> (string \<Rightarrow> response \<Rightarrow> string) \<Rightarrow> resolver \<Rightarrow> client \<Rightarrow> string list \<Rightarrow> string \<Rightarrow> (failure + fetch_result) \<times> string list" where
  "httpx_text cfg decode dns web hist url =
     (case raw_get cfg dns web hist url of
        (Inl f, h) \<Rightarrow> (Inl f, h)
      | (Inr (r, raw), h) \<Rightarrow>
          let body = decode raw r
          in (case classify_site_status (rs_status r) body of
                Some c \<Rightarrow> fails c ''not_html'' (''HTTP '' @ str_int (rs_status r)) (Some (rs_status r))
              | None \<Rightarrow> Inr \<lparr>fr_url = url, fr_final_url = rs_url r, fr_status = rs_status r, fr_html = body,
                             fr_bytes = length raw, fr_jina_tokens = None\<rparr>, h))"

text \<open>The reader API: its own status, and the payload of a good answer.\<close>

record jina_data =
  ja_html :: string
  ja_http_status :: "int option"
  ja_url :: "string option"
  ja_tokens :: "int option"

datatype jina_payload = Not_Json | No_Data string | Data jina_data

record jina_answer =
  ja_status :: int
  ja_retry_after :: "rat option"
  ja_payload :: jina_payload

definition jina_refusal :: "int \<Rightarrow> error_class \<Rightarrow> rat option \<Rightarrow> fetch_error" where
  "jina_refusal status c retry_after =
     (if c = TRANSIENT \<and> status = 429
      then (FetchError c ''homepage'' ''jina 429'' (Some 429))\<lparr>fe_retry_after := retry_after\<rparr>
      else
        let permanent_reason = (if status = 409 then ''page_too_large'' else if status = 422 then ''not_html'' else ''homepage'');
            reason = (case c of PROVIDER_ACCOUNT \<Rightarrow> ''jina_account'' | BLOCKED \<Rightarrow> ''blocked''
                      | PERMANENT \<Rightarrow> permanent_reason | _ \<Rightarrow> ''homepage'')
        in (FetchError c reason (''jina HTTP '' @ str_int status) (Some status))
             \<lparr>fe_provider := (c = TRANSIENT \<or> c = PROVIDER_ACCOUNT)\<rparr>)"

text \<open>One call of the reader; the flag says that the bucket is to be slowed down.\<close>

definition jina_html :: "settings \<Rightarrow> string \<Rightarrow> exc + jina_answer \<Rightarrow> (failure + fetch_result) \<times> bool" where
  "jina_html cfg url ans =
     (case ans of
        Inl x \<Rightarrow> (Inl (Raised x), False)
      | Inr a \<Rightarrow>
          (case classify_provider_status (ja_status a) of
             Some c \<Rightarrow> (Inl (Fetch_Err (jina_refusal (ja_status a) c (ja_retry_after a))), c = TRANSIENT \<and> ja_status a = 429)
           | None \<Rightarrow>
               (case ja_payload a of
                  Not_Json \<Rightarrow> Inl (Fetch_Err ((FetchError TRANSIENT ''homepage'' ''jina non-json body'' None)\<lparr>fe_provider := True\<rparr>))
                | No_Data d \<Rightarrow> Inl (Fetch_Err ((FetchError TRANSIENT ''homepage'' (''jina payload '' @ d) None)\<lparr>fe_provider := True\<rparr>))
                | Data d \<Rightarrow>
                    let html = ja_html d;
                        site = (case ja_http_status d of None \<Rightarrow> 200 | Some n \<Rightarrow> if n = 0 then 200 else n)
                    in case classify_site_status site html of
                         Some c \<Rightarrow> fails c (if c = BLOCKED then ''blocked'' else ''homepage'') (''site HTTP '' @ str_int site) (Some site)
                       | None \<Rightarrow>
                           if strip html = [] then fails TRANSIENT ''homepage'' ''jina empty html'' None
                           else if looks_blocked site html then fails BLOCKED ''blocked'' ''challenge page'' (Some site)
                           else Inr \<lparr>fr_url = url, fr_final_url = (if truthy (ja_url d) then the (ja_url d) else url), fr_status = site,
                                      fr_html = take (nat (max_page_bytes cfg)) (strip_non_jsonld_scripts html),
                                      fr_bytes = length html, fr_jina_tokens = ja_tokens d\<rparr>, False)))"

section \<open>The retry loop\<close>

definition RETRY_DELAYS :: "rat list" where
  "RETRY_DELAYS = [1, 3]"

definition jittered :: "rat \<Rightarrow> rat \<Rightarrow> rat \<Rightarrow> rat" where
  "jittered base fraction rnd = base * (1 + rnd * fraction)"

text \<open>
  \<open>_attempt_with_retries\<close> from attempt \<open>k\<close> on, with the delays that are left. \<open>gate k\<close> is what waiting
  for a slot raises, if anything; \<open>fn k\<close> what the call then does; \<open>rnd k\<close> the random number of
  the sleep after it. The result comes with what was recorded in the breaker and with the
  sleeps. A cancellation leaves the loop past every handler.
\<close>

type_synonym attempts = "(failure + fetch_result) \<times> (bool \<times> string) list \<times> rat list"

fun attempt_from ::
  "bool \<Rightarrow> (nat \<Rightarrow> failure option) \<Rightarrow> (nat \<Rightarrow> failure + fetch_result) \<Rightarrow> (nat \<Rightarrow> rat) \<Rightarrow> nat \<Rightarrow> rat list \<Rightarrow> attempts" where
  "attempt_from backed gate fn rnd k delays =
     (let again = (\<lambda>e sleep.
            let fed = (if backed then [(\<not> fe_provider e, if fe_detail e \<noteq> [] then fe_detail e else fe_reason e)] else [])
            in case delays of
                 [] \<Rightarrow> (Inl (Fetch_Err e), fed, [])
               | d # ds \<Rightarrow>
                   if \<not> retryable e then (Inl (Fetch_Err e), fed, [])
                   else case attempt_from backed gate fn rnd (Suc k) ds of
                          (r, feeds, sleeps) \<Rightarrow> (r, fed @ feeds, sleep d # sleeps))
      in case (case gate k of Some f \<Rightarrow> Inl f | None \<Rightarrow> fn k) of
           Inr r \<Rightarrow> (Inr r, if backed then [(True, [])] else [], [])
         | Inl (Circuit_Open t) \<Rightarrow> (Inl (Circuit_Open t), [], [])
         | Inl Cancelled \<Rightarrow> (Inl Cancelled, [], [])
         | Inl (Fetch_Err e) \<Rightarrow>
             again e (\<lambda>d. case fe_retry_after e of
                            Some x \<Rightarrow> if x \<noteq> 0 then x else jittered d (1 / 2) (rnd k)
                          | None \<Rightarrow> jittered d (1 / 2) (rnd k))
         | Inl (Raised x) \<Rightarrow> again (exc_to_fetch_error backed x) (\<lambda>d. jittered d (1 / 2) (rnd k)))"

declare attempt_from.simps [simp del]

definition attempt_with_retries ::
  "bool \<Rightarrow> (nat \<Rightarrow> failure option) \<Rightarrow> (nat \<Rightarrow> failure + fetch_result) \<Rightarrow> (nat \<Rightarrow> rat) \<Rightarrow> attempts" where
  "attempt_with_retries backed gate fn rnd = attempt_from backed gate fn rnd 0 RETRY_DELAYS"

text \<open>What one attempt came to, the error as the caller sees it, and its entry in the breaker.\<close>

definition outcome_of :: "(nat \<Rightarrow> failure option) \<Rightarrow> (nat \<Rightarrow> failure + fetch_result) \<Rightarrow> nat \<Rightarrow> failure + fetch_result" where
  "outcome_of gate fn k = (case gate k of Some f \<Rightarrow> Inl f | None \<Rightarrow> fn k)"

fun seen :: "bool \<Rightarrow> failure + fetch_result \<Rightarrow> failure + fetch_result" where
  "seen backed (Inl (Raised x)) = Inl (Fetch_Err (exc_to_fetch_error backed x))"
| "seen backed r = r"

fun will_retry :: "failure + fetch_result \<Rightarrow> bool" where
  "will_retry (Inl (Fetch_Err e)) = retryable e"
| "will_retry r = False"

fun feed_of :: "failure + fetch_result \<Rightarrow> (bool \<times> string) list" where
  "feed_of (Inr r) = [(True, [])]"
| "feed_of (Inl (Fetch_Err e)) = [(\<not> fe_provider e, if fe_detail e \<noteq> [] then fe_detail e else fe_reason e)]"
| "feed_of (Inl f) = []"

lemma attempt_from_step:
  assumes "seen backed (outcome_of gate fn k) = oc"
  shows "will_retry oc \<Longrightarrow> delays = d # ds \<Longrightarrow> attempt_from backed gate fn rnd (Suc k) ds = (r, feeds, sleeps) \<Longrightarrow>
      \<exists>w. attempt_from backed gate fn rnd k delays = (r, (if backed then feed_of oc else []) @ feeds, w # sleeps)"
    and "\<not> will_retry oc \<or> delays = [] \<Longrightarrow> attempt_from backed gate fn rnd k delays = (oc, if backed then feed_of oc else [], [])"
proof -
  note eq = attempt_from.simps [of _ gate fn rnd k, folded outcome_of_def, unfolded Let_def]
  show "will_retry oc \<Longrightarrow> delays = d # ds \<Longrightarrow> attempt_from backed gate fn rnd (Suc k) ds = (r, feeds, sleeps) \<Longrightarrow>
      \<exists>w. attempt_from backed gate fn rnd k delays = (r, (if backed then feed_of oc else []) @ feeds, w # sleeps)"
    using assms by (cases "outcome_of gate fn k"; cases "projl (outcome_of gate fn k)") (auto simp: eq)
  show "\<not> will_retry oc \<or> delays = [] \<Longrightarrow> attempt_from backed gate fn rnd k delays = (oc, if backed then feed_of oc else [], [])"
    using assms [symmetric] by (cases "outcome_of gate fn k"; cases "projl (outcome_of gate fn k)"; cases delays) (auto simp: eq)
qed

lemma attempt_from_spec:
  assumes "attempt_from backed gate fn rnd k delays = (r, feeds, sleeps)"
  defines "oc \<equiv> \<lambda>i. seen backed (outcome_of gate fn i)" and "n \<equiv> length sleeps"
  shows "n \<le> length delays \<and> r = oc (k + n) \<and> (\<forall>i. k \<le> i \<and> i < k + n \<longrightarrow> will_retry (oc i)) \<and>
    (will_retry r \<longrightarrow> n = length delays) \<and>
    feeds = (if backed then concat (map (\<lambda>i. feed_of (oc i)) [k..<k + n + 1]) else [])"
  using assms(1) unfolding oc_def n_def
proof (induction delays arbitrary: k r feeds sleeps)
  case Nil
  then show ?case
    by (auto simp: attempt_from_step(2) [OF refl])
next
  case (Cons d ds)
  let ?o = "outcome_of gate fn k" and ?so = "\<lambda>i. seen backed (outcome_of gate fn i)"
  show ?case
  proof (cases "will_retry (seen backed ?o)")
    case False
    with Cons.prems show ?thesis by (auto simp: attempt_from_step(2) [OF refl])
  next
    case True
    obtain r' feeds' sleeps' where next_: "attempt_from backed gate fn rnd (Suc k) ds = (r', feeds', sleeps')"
      by (metis prod.exhaust)
    have "\<exists>w. attempt_from backed gate fn rnd k (d # ds) = (r', (if backed then feed_of (seen backed ?o) else []) @ feeds', w # sleeps')"
      by (rule attempt_from_step(1) [OF refl True refl next_])
    with Cons.prems obtain w where w: "r = r'" "feeds = (if backed then feed_of (seen backed ?o) else []) @ feeds'" "sleeps = w # sleeps'"
      by auto
    from Cons.IH [OF next_] have ih: "length sleeps' \<le> length ds" "r' = ?so (Suc k + length sleeps')"
      "\<And>i. Suc k \<le> i \<Longrightarrow> i < Suc k + length sleeps' \<Longrightarrow> will_retry (?so i)"
      "will_retry r' \<longrightarrow> length sleeps' = length ds"
      "feeds' = (if backed then concat (map (\<lambda>i. feed_of (?so i)) [Suc k..<Suc k + length sleeps' + 1]) else [])"
      by blast+
    have up: "[k..<k + length sleeps + 1] = k # [Suc k..<Suc k + length sleeps' + 1]"
      using w(3) by (simp add: upt_conv_Cons del: upt_Suc)
    have rt: "will_retry (?so i)" if "k \<le> i" "i < k + length sleeps" for i
      using that True ih(3) [of i] w(3) by (cases "i = k") simp_all
    have fd: "feeds = (if backed then concat (map (\<lambda>i. feed_of (?so i)) [k..<k + length sleeps + 1]) else [])"
      unfolding up w(2) ih(5) by simp
    have rs: "r = ?so (k + length sleeps)" using ih(2) w(1,3) by simp
    have "length sleeps \<le> length (d # ds)" "will_retry r \<longrightarrow> length sleeps = length (d # ds)"
      using ih(1,4) w(1,3) by simp_all
    moreover have "\<forall>i. k \<le> i \<and> i < k + length sleeps \<longrightarrow> will_retry (?so i)" using rt by blast
    ultimately show ?thesis using fd rs by (intro conjI)
  qed
qed


definition s_page :: fetch_result where
  "s_page = \<lparr>fr_url = ''https://a.com/'', fr_final_url = ''https://a.com/'', fr_status = 200, fr_html = ''x'',
     fr_bytes = 1, fr_jina_tokens = None\<rparr>"

definition s_calls :: "nat \<Rightarrow> failure + fetch_result" where
  "s_calls k = (if k = 0 then Inl (Raised (Httpx Connect_Timeout [])) else Inr s_page)"


text \<open>
  Too many requests (429) of the reader carries no blame of the provider, and so goes into the
  breaker as a success: it counts as a good probe of a half-open breaker.
\<close>

lemma rate_limited_counts_as_success:
  "jina_html cfg url (Inr \<lparr>ja_status = 429, ja_retry_after = ra, ja_payload = pl\<rparr>) = (Inl (Fetch_Err e), slow) \<Longrightarrow>
     slow \<and> feed_of (Inl (Fetch_Err e)) = [(True, ''jina 429'')]"
  by (auto simp: jina_html_def classify_provider_status_def jina_refusal_def FetchError_def)

section \<open>Redirects are guarded\<close>

lemma raw_get_from_guarded:
  assumes "raw_get_from cfg dns web hops hist url = (r, hist')"
  shows "\<exists>reqs. hist' = hist @ reqs \<and> length reqs \<le> hops \<and>
    (\<forall>i < length reqs. guard_url cfg (dns (hist @ take i reqs)) (reqs ! i) = None)"
  using assms
proof (induction hops arbitrary: hist url)
  case (Suc hops)
  show ?case
  proof (cases "guard_url cfg (dns hist) url")
    case None
    then have one: "\<exists>reqs. hist @ [url] = hist @ reqs \<and> length reqs \<le> Suc hops \<and>
        (\<forall>i < length reqs. guard_url cfg (dns (hist @ take i reqs)) (reqs ! i) = None)"
      by (intro exI [of _ "[url]"]) simp
    have more: "\<exists>reqs. hist' = hist @ reqs \<and> length reqs \<le> Suc hops \<and>
        (\<forall>i < length reqs. guard_url cfg (dns (hist @ take i reqs)) (reqs ! i) = None)"
      if rec: "raw_get_from cfg dns web hops (hist @ [url]) url' = (r, hist')" for url'
    proof -
      from Suc.IH [OF rec] obtain reqs where reqs: "hist' = hist @ url # reqs" "length reqs \<le> hops"
        "\<forall>i < length reqs. guard_url cfg (dns (hist @ url # take i reqs)) (reqs ! i) = None" by auto
      have "guard_url cfg (dns (hist @ take i (url # reqs))) ((url # reqs) ! i) = None" if "i < length (url # reqs)" for i
        using that None reqs(3) by (cases i) auto
      with reqs(1,2) show ?thesis by (intro exI [of _ "url # reqs"]) auto
    qed
    from Suc.prems None one more show ?thesis
      by (auto simp: Let_def split: sum.splits if_splits option.splits)
  qed (use Suc.prems in \<open>auto simp: Let_def\<close>)
qed auto


text \<open>A site on a public address that redirects to an address of the private network.\<close>

definition s_resolver :: resolver where
  "s_resolver hist host port = (if host = ''evil.com'' then Some [''93.184.216.34''] else None)"

definition s_web :: client where
  "s_web hist url = Inr \<lparr>rs_status = 302,
     rs_headers = [(''location'', ''http://[fd12::1]:8080/'')],
     rs_url = url, rs_chunks = [], rs_charset = None\<rparr>"

lemma s_guards:
  "guard_url settings_default (s_resolver []) ''http://evil.com/'' = None"
  "guard_url settings_default (s_resolver hist) ''http://[fd12::1]:8080/'' =
     Some (Fetch_Err (FetchError PERMANENT ''private_address'' ''fd12::1'' None))"
  "urljoin ''http://evil.com/'' ''http://[fd12::1]:8080/'' = Some ''http://[fd12::1]:8080/''"
  by code_simp+


end
