(* ===== verification/Webhook.thy ===== *)
theory Webhook
  imports Netguard Settings
begin

text \<open>
  Webhook delivery, \<open>src/app/webhook.py\<close>: which URLs are accepted, and the delivery loop, which
  resolves the host afresh for every attempt and connects to the address it has checked.

  Arguments stand for name resolution, for the keyed hash of the signature, for the clock, and
  for what the receiver answers. A request is a record of where it goes and of the headers that
  matter: the address and port it is pinned to, path and query, the host name for TLS, the
  \<open>Host\<close> header and the signature. The text of a pinned URL is not modelled, nor is the JSON
  encoding of a payload: \<open>body\<close> is its text.
\<close>

section \<open>Definitions\<close>

datatype hook_error = Rejected string | Hook_Value_Error

text \<open>\<open>parts.username or parts.password\<close>.\<close>

definition has_credentials :: "url_parts \<Rightarrow> bool" where
  "has_credentials parts = (case userinfo parts of None \<Rightarrow> False | Some (u, pw) \<Rightarrow> u \<noteq> [] \<or> truthy pw)"

definition resolve_hook :: "settings \<Rightarrow> getaddrinfo \<Rightarrow> string \<Rightarrow> hook_error + string \<times> ip \<times> int" where
  "resolve_hook cfg dns url =
     (case urlsplit url of
        None \<Rightarrow> Inl Hook_Value_Error
      | Some parts \<Rightarrow>
          if ul_scheme parts \<noteq> ''https'' \<and> ul_scheme parts \<noteq> ''http''
          then Inl (Rejected ''webhook_url must be an http(s) URL'')
          else if ul_scheme parts = ''http'' \<and> \<not> allow_http_webhooks cfg
          then Inl (Rejected ''webhook_url must use https'')
          else if has_credentials parts
          then Inl (Rejected ''webhook_url must not contain credentials'')
          else case hostname parts of
                 None \<Rightarrow> Inl (Rejected ''webhook_url has no host'')
               | Some host \<Rightarrow>
            (case port_of parts of
                 None \<Rightarrow> Inl (Rejected ''webhook_url has an invalid port'')
               | Some pt \<Rightarrow>
                   let port = effective_port parts pt
                   in case resolve_public dns host port of
                        Inr addrs \<Rightarrow> Inr (host, hd addrs, port)
                      | Inl (Private_Address _) \<Rightarrow> Inl (Rejected ''webhook_url must point at a public address'')
                      | Inl Os_Error \<Rightarrow> Inl (Rejected ''webhook_url host does not resolve'')
                      | Inl Value_Error \<Rightarrow> Inl Hook_Value_Error))"

definition validate_webhook_url :: "settings \<Rightarrow> getaddrinfo \<Rightarrow> string option \<Rightarrow> hook_error option" where
  "validate_webhook_url cfg dns url =
     (case url of
        None \<Rightarrow> None
      | Some u \<Rightarrow> (case resolve_hook cfg dns u of Inl e \<Rightarrow> Some e | Inr _ \<Rightarrow> None))"

definition sign :: "(string \<Rightarrow> string \<Rightarrow> string) \<Rightarrow> string \<Rightarrow> int \<Rightarrow> string \<Rightarrow> string" where
  "sign hmac body ts secret = ''t='' @ str_int ts @ '',v1='' @ hmac secret (str_int ts @ ''.'' @ body)"

record post =
  po_ip :: ip
  po_port :: int
  po_path :: string
  po_query :: string
  po_sni :: string
  po_host :: string
  po_signature :: "string option"

definition BACKOFF_S :: "rat list" where
  "BACKOFF_S = [2, 8, 30]"

datatype receiver = Answer int | Transport_Error string

fun deliver_from ::
  "settings \<Rightarrow> (string \<Rightarrow> string \<Rightarrow> string) \<Rightarrow> (nat \<Rightarrow> getaddrinfo) \<Rightarrow> (nat \<Rightarrow> int) \<Rightarrow> (nat \<Rightarrow> receiver) \<Rightarrow>
     string \<Rightarrow> string \<Rightarrow> nat \<Rightarrow> rat list \<Rightarrow> bool option \<times> post list" where
  "deliver_from cfg hmac dns clock recv url body k [] = (Some False, [])"
| "deliver_from cfg hmac dns clock recv url body k (delay # delays) =
     (case resolve_hook cfg (dns k) url of
        Inl (Rejected _) \<Rightarrow> (Some False, [])
      | Inl Hook_Value_Error \<Rightarrow> (None, [])
      | Inr (host, a, port) \<Rightarrow>
          let parts = the (urlsplit url);
              p = \<lparr>po_ip = a, po_port = port, po_path = (if ul_path parts = [] then ''/'' else ul_path parts),
                   po_query = ul_query parts, po_sni = host, po_host = host_and_port (ul_netloc parts),
                   po_signature = (if webhook_secret cfg \<noteq> []
                                   then Some (sign hmac body (clock k) (webhook_secret cfg)) else None)\<rparr>
          in case recv k of
               Answer st \<Rightarrow>
                 if 200 \<le> st \<and> st < 300 then (Some True, [p])
                 else (case deliver_from cfg hmac dns clock recv url body (Suc k) delays of
                         (r, ps) \<Rightarrow> (r, p # ps))
             | Transport_Error _ \<Rightarrow>
                 (case deliver_from cfg hmac dns clock recv url body (Suc k) delays of
                    (r, ps) \<Rightarrow> (r, p # ps)))"

text \<open>\<open>deliver\<close>: whether the receiver took it (\<open>None\<close> is an exception), and the requests made.\<close>

definition deliver ::
  "settings \<Rightarrow> (string \<Rightarrow> string \<Rightarrow> string) \<Rightarrow> (nat \<Rightarrow> getaddrinfo) \<Rightarrow> (nat \<Rightarrow> int) \<Rightarrow> (nat \<Rightarrow> receiver) \<Rightarrow>
     string \<Rightarrow> string \<Rightarrow> bool option \<times> post list" where
  "deliver cfg hmac dns clock recv url body =
     deliver_from cfg hmac dns clock recv url body 0 (0 # BACKOFF_S)"

section \<open>Which URLs are accepted\<close>

definition hook_url_ok :: "settings \<Rightarrow> getaddrinfo \<Rightarrow> string \<Rightarrow> bool" where
  "hook_url_ok cfg dns url \<longleftrightarrow> (\<exists>parts host pt addrs. urlsplit url = Some parts \<and>
     (ul_scheme parts = ''https'' \<or> ul_scheme parts = ''http'' \<and> allow_http_webhooks cfg) \<and>
     \<not> has_credentials parts \<and>
     hostname parts = Some host \<and> port_of parts = Some pt \<and>
     resolve_public dns host (effective_port parts pt) = Inr addrs)"

lemma resolve_hook_Inr:
  assumes "resolve_hook cfg dns url = Inr (host, a, port)"
  shows "hook_url_ok cfg dns url \<and> is_public a \<and>
    (\<exists>addrs. resolve_public dns host port = Inr addrs \<and> addrs \<noteq> [] \<and> a = hd addrs)"
proof -
  from assms obtain parts pt addrs where p: "urlsplit url = Some parts"
      "ul_scheme parts = ''https'' \<or> ul_scheme parts = ''http'' \<and> allow_http_webhooks cfg"
      "\<not> has_credentials parts"
      "hostname parts = Some host" "port_of parts = Some pt" "port = effective_port parts pt"
      "resolve_public dns host port = Inr addrs" "a = hd addrs"
    unfolding resolve_hook_def Let_def
    by (auto split: option.splits if_splits sum.splits net_error.splits)
  then have "hook_url_ok cfg dns url" unfolding hook_url_ok_def by blast
  moreover have "addrs \<noteq> []" "is_public a"
    using resolve_public_all [OF p(7)] p(8) by (cases addrs; simp)+
  ultimately show ?thesis using p(7,8) by blast
qed

lemma hook_ok_resolves: "hook_url_ok cfg dns url \<Longrightarrow> \<exists>x. resolve_hook cfg dns url = Inr x"
  unfolding hook_url_ok_def resolve_hook_def by (auto simp: Let_def split: option.splits)

lemma resolve_hook_Value:
  "resolve_hook cfg dns url = Inl Hook_Value_Error \<Longrightarrow>
     urlsplit url = None \<or> (\<exists>host port. resolve_public dns host port = Inl Value_Error)"
  unfolding resolve_hook_def Let_def
  by (auto split: option.splits if_splits sum.splits net_error.splits)

text \<open>
  C38: A webhook URL is accepted exactly when it is an https URL (or http where that is allowed)
  without credentials, with a host and a valid port, all of whose addresses are public. Every
  other URL that can be parsed is refused with a message, if the resolver answers addresses.
  A URL with a malformed bracketed host is not refused but makes the check itself fail with an
  exception.
\<close>

theorem webhook_url_checked:
  assumes "\<And>host port infos. dns host port = Some infos \<Longrightarrow> addresses infos \<noteq> None"
  shows "(validate_webhook_url cfg dns (Some url) = None \<longleftrightarrow> hook_url_ok cfg dns url) \<and>
    (urlsplit url \<noteq> None \<and> \<not> hook_url_ok cfg dns url \<longrightarrow>
       (\<exists>msg. validate_webhook_url cfg dns (Some url) = Some (Rejected msg))) \<and>
    (validate_webhook_url cfg dns (Some url) = Some Hook_Value_Error \<longleftrightarrow> urlsplit url = None)"
proof -
  have nv: "resolve_public dns host port \<noteq> Inl Value_Error" for host port
    using assms [of host port] by (cases "dns host port") (auto simp: resolve_public_def Let_def split: option.splits)
  have none: "urlsplit url = None \<Longrightarrow> resolve_hook cfg dns url = Inl Hook_Value_Error"
    by (simp add: resolve_hook_def)
  show ?thesis
  proof (cases "resolve_hook cfg dns url")
    case (Inr x)
    then obtain host a port where "resolve_hook cfg dns url = Inr (host, a, port)" by (cases x) auto
    with resolve_hook_Inr none show ?thesis by (fastforce simp: validate_webhook_url_def)
  next
    case (Inl e)
    then have "\<not> hook_url_ok cfg dns url" using hook_ok_resolves by fastforce
    moreover have "e = Hook_Value_Error \<longleftrightarrow> urlsplit url = None"
      using Inl none nv resolve_hook_Value [of cfg dns url] by auto
    ultimately show ?thesis using Inl by (cases e) (auto simp: validate_webhook_url_def)
  qed
qed

theorem webhook_url_checked_witness:
  "validate_webhook_url settings_default (\<lambda>_ _. Some [''93.184.216.34'']) (Some ''https://[::1'') = Some Hook_Value_Error"
proof -
  have "addresses [''93.184.216.34''] \<noteq> None" "urlsplit ''https://[::1'' = None" by code_simp+
  then show ?thesis
    using webhook_url_checked [of "\<lambda>_ _. Some [''93.184.216.34'']" settings_default "''https://[::1''"] by auto
qed

section \<open>Delivery\<close>

definition delivered :: "receiver \<Rightarrow> bool" where
  "delivered a = (case a of Answer st \<Rightarrow> 200 \<le> st \<and> st < 300 | Transport_Error _ \<Rightarrow> False)"

definition pinned :: "getaddrinfo \<Rightarrow> post \<Rightarrow> bool" where
  "pinned dns p \<longleftrightarrow> is_public (po_ip p) \<and>
     (\<exists>addrs. resolve_public dns (po_sni p) (po_port p) = Inr addrs \<and> addrs \<noteq> [] \<and> po_ip p = hd addrs)"

lemma deliver_from_spec:
  assumes "deliver_from cfg hmac dns clock recv url body k delays = (r, ps)"
  shows "length ps \<le> length delays \<and> (\<forall>i < length ps. pinned (dns (k + i)) (ps ! i)) \<and>
    (\<forall>i. Suc i < length ps \<longrightarrow> \<not> delivered (recv (k + i))) \<and>
    (r = Some True \<longleftrightarrow> ps \<noteq> [] \<and> delivered (recv (k + length ps - 1)))"
  using assms
proof (induction delays arbitrary: k r ps)
  case (Cons d ds)
  show ?case
  proof (cases "resolve_hook cfg (dns k) url")
    case (Inl e)
    with Cons.prems show ?thesis by (cases e) auto
  next
    case (Inr x)
    then obtain host a port where x: "resolve_hook cfg (dns k) url = Inr (host, a, port)" by (cases x) auto
    obtain r' ps' where next_: "deliver_from cfg hmac dns clock recv url body (Suc k) ds = (r', ps')" by force
    from x Cons.prems next_ obtain p where p: "po_ip p = a" "po_port p = port" "po_sni p = host"
      "(r, ps) = (if delivered (recv k) then (Some True, [p]) else (r', p # ps'))"
      by (simp add: Let_def delivered_def split: receiver.splits if_splits) (metis post.select_convs)+
    have pin: "pinned (dns k) p" using resolve_hook_Inr [OF x] p by (auto simp: pinned_def)
    show ?thesis
    proof (cases "delivered (recv k)")
      case True
      with p(4) pin show ?thesis by simp
    next
      case False
      with p(4) have ps: "r = r'" "ps = p # ps'" by auto
      from Cons.IH [OF next_] have ih: "length ps' \<le> length ds" "\<And>i. i < length ps' \<Longrightarrow> pinned (dns (Suc k + i)) (ps' ! i)"
        "\<And>i. Suc i < length ps' \<Longrightarrow> \<not> delivered (recv (Suc k + i))"
        "r' = Some True \<longleftrightarrow> ps' \<noteq> [] \<and> delivered (recv (Suc k + length ps' - 1))" by blast+
      have "pinned (dns (k + i)) (ps ! i)" if "i < length ps" for i
        using that pin ih(2) [of "i - 1"] ps(2) by (cases i) auto
      moreover have "\<not> delivered (recv (k + i))" if "Suc i < length ps" for i
        using that False ih(3) [of "i - 1"] ps(2) by (cases i) auto
      moreover have "r = Some True \<longleftrightarrow> ps \<noteq> [] \<and> delivered (recv (k + length ps - 1))"
        using ih(4) ps False by (cases ps') auto
      ultimately show ?thesis using ih(1) ps(2) by simp
    qed
  qed
qed simp

text \<open>
  C13: A delivery goes only where it was checked to go. At most four requests are made; each is
  pinned to a public address that resolving the receiver's host for that very attempt gave,
  whatever the name server says in between; the attempts stop with the first 2xx answer, and
  the delivery counts as done exactly then.
\<close>

theorem deliver_pinned:
  assumes "deliver cfg hmac dns clock recv url body = (r, ps)"
  shows "length ps \<le> 4 \<and> (\<forall>i < length ps. pinned (dns i) (ps ! i)) \<and>
    (\<forall>i. Suc i < length ps \<longrightarrow> \<not> delivered (recv i)) \<and>
    (r = Some True \<longleftrightarrow> ps \<noteq> [] \<and> delivered (recv (length ps - 1)))"
proof -
  have four: "length ((0::rat) # BACKOFF_S) = 4" by (simp add: BACKOFF_S_def)
  show ?thesis
    using deliver_from_spec [OF assms [unfolded deliver_def]] unfolding four add_0 .
qed

text \<open>A name server that turns to a private address after the first attempt.\<close>

definition s_rebind :: "nat \<Rightarrow> getaddrinfo" where
  "s_rebind k host port = Some [if k = 0 then ''93.184.216.34'' else ''10.0.0.5'']"

theorem deliver_pinned_witness:
  "fst (deliver settings_default (\<lambda>_ _. []) s_rebind (\<lambda>_. 7) (\<lambda>_. Answer 500) ''https://h.com/in'' ''{}'') = Some False \<and>
   map po_ip (snd (deliver settings_default (\<lambda>_ _. []) s_rebind (\<lambda>_. 7) (\<lambda>_. Answer 500) ''https://h.com/in'' ''{}'')) = [V4 1572395042] \<and>
   is_public (V4 1572395042)"
proof -
  let ?d = "deliver settings_default (\<lambda>_ _. []) s_rebind (\<lambda>_. 7) (\<lambda>_. Answer 500) ''https://h.com/in'' ''{}''"
  have "(fst ?d, map po_ip (snd ?d)) = (Some False, [V4 1572395042])" by code_simp
  then have e: "fst ?d = Some False" "map po_ip (snd ?d) = [V4 1572395042]" by simp_all
  then obtain p where p: "snd ?d = [p]" "po_ip p = V4 1572395042" by auto
  then have d: "?d = (fst ?d, [p])" by (metis prod.collapse)
  have "pinned (s_rebind 0) p" using deliver_pinned [OF d] by simp
  with p e show ?thesis by (simp add: pinned_def)
qed

end
