(* ===== verification/Fetch_Gate.thy ===== *)
theory Fetch_Gate
  imports Breaker
begin

text \<open>
  The gate every fetch passes, \<open>FetchGate\<close> of \<open>src/app/ratelimit.py\<close>: entering a slot waits for the
  breaker (napping, up to a bound), takes a permit of the whole process and one of its domain,
  and then tokens; leaving it, or failing on the way in, gives the permits back.

  The gate is shared by concurrent tasks, so it is a step relation: each step is what one task
  does between two points at which it can be suspended. A semaphore is the number of its free
  permits; a task waiting for one is a task whose next step is not enabled. Tasks may be
  cancelled wherever they wait.
\<close>

section \<open>Definitions\<close>

datatype slot_pc = Checking rat | Want_Global | Want_Domain | Want_Tokens | Inside | Out

record gate =
  g_breaker :: breaker
  g_size :: nat
  g_free :: nat
  g_limit :: nat
  g_sems :: "string \<Rightarrow> nat option"
  g_tasks :: "(string \<times> slot_pc) list"

definition MAX_BREAKER_WAIT_S :: rat where
  "MAX_BREAKER_WAIT_S = 30"

definition nap :: "rat \<Rightarrow> rat \<Rightarrow> rat" where
  "nap retry_in rnd = min (max retry_in (1 / 2)) 5 * (1 + rnd * (1 / 2))"

text \<open>\<open>_domain_sem\<close> makes the semaphore of a domain when it is first needed.\<close>

definition domain_sem :: "string \<Rightarrow> gate \<Rightarrow> nat" where
  "domain_sem dm g = (case g_sems g dm of None \<Rightarrow> g_limit g | Some n \<Rightarrow> n)"

definition put_sem :: "string \<Rightarrow> nat \<Rightarrow> gate \<Rightarrow> gate" where
  "put_sem dm n g = g\<lparr>g_sems := (g_sems g)(dm \<mapsto> n)\<rparr>"

definition release_domain :: "string \<Rightarrow> gate \<Rightarrow> gate" where
  "release_domain dm g =
     (if g_sems g dm = Some (g_limit g) then g\<lparr>g_sems := (g_sems g)(dm := None)\<rparr> else g)"

definition set_pc :: "nat \<Rightarrow> slot_pc \<Rightarrow> gate \<Rightarrow> gate" where
  "set_pc i pc g = g\<lparr>g_tasks := (g_tasks g)[i := (fst (g_tasks g ! i), pc)]\<rparr>"

definition at_pc :: "nat \<Rightarrow> string \<Rightarrow> slot_pc \<Rightarrow> gate \<Rightarrow> bool" where
  "at_pc i dm pc g \<longleftrightarrow> i < length (g_tasks g) \<and> g_tasks g ! i = (dm, pc)"

text \<open>One look at the breaker: on, asleep for a nap, or giving up.\<close>

definition look :: "time \<Rightarrow> rat \<Rightarrow> nat \<Rightarrow> rat \<Rightarrow> gate \<Rightarrow> gate" where
  "look now rnd i waited g =
     (let (b, refused) = breaker_check now (g_breaker g); g' = g\<lparr>g_breaker := b\<rparr>
      in case refused of
           None \<Rightarrow> set_pc i Want_Global g'
         | Some retry_in \<Rightarrow>
             if waited + nap retry_in rnd > MAX_BREAKER_WAIT_S then set_pc i Out g'
             else set_pc i (Checking (waited + nap retry_in rnd)) g')"

definition give_back_global :: "gate \<Rightarrow> gate" where
  "give_back_global g = g\<lparr>g_free := g_free g + 1\<rparr>"

definition give_back_domain :: "string \<Rightarrow> gate \<Rightarrow> gate" where
  "give_back_domain dm g = put_sem dm (domain_sem dm g + 1) g"

inductive gate_step :: "gate \<Rightarrow> gate \<Rightarrow> bool" where
  arrive: "gate_step g (g\<lparr>g_tasks := g_tasks g @ [(dm, Checking 0)]\<rparr>)"
| look: "at_pc i dm (Checking w) g \<Longrightarrow> 0 \<le> rnd \<Longrightarrow> rnd < 1 \<Longrightarrow> gate_step g (look now rnd i w g)"
| take_global: "at_pc i dm Want_Global g \<Longrightarrow> 0 < g_free g \<Longrightarrow>
    gate_step g (set_pc i Want_Domain (g\<lparr>g_free := g_free g - 1\<rparr>))"
| take_domain: "at_pc i dm Want_Domain g \<Longrightarrow> 0 < domain_sem dm g \<Longrightarrow>
    gate_step g (set_pc i Want_Tokens (put_sem dm (domain_sem dm g - 1) g))"
| make_domain: "at_pc i dm Want_Domain g \<Longrightarrow> gate_step g (put_sem dm (domain_sem dm g) g)"
| tokens: "at_pc i dm Want_Tokens g \<Longrightarrow> gate_step g (set_pc i Inside g)"
| leave: "at_pc i dm Inside g \<Longrightarrow>
    gate_step g (set_pc i Out (give_back_global (give_back_domain dm g)))"
| fail_tokens: "at_pc i dm Want_Tokens g \<Longrightarrow>
    gate_step g (set_pc i Out (give_back_global (give_back_domain dm g)))"
| fail_domain: "at_pc i dm Want_Domain g \<Longrightarrow> gate_step g (set_pc i Out (give_back_global g))"
| cancel: "at_pc i dm (Checking w) g \<or> at_pc i dm Want_Global g \<Longrightarrow> gate_step g (set_pc i Out g)"
| record_result: "gate_step g (g\<lparr>g_breaker := fst (breaker_record now ok why (g_breaker g))\<rparr>)"
| drop_domain: "gate_step g (release_domain dm g)"

inductive_cases gate_stepE: "gate_step g g'"

definition gate_start :: "gate \<Rightarrow> bool" where
  "gate_start g \<longleftrightarrow> g_free g = g_size g \<and> g_sems g = (\<lambda>_. None) \<and> g_tasks g = [] \<and> 0 < g_limit g"

section \<open>Permits are conserved\<close>

fun holds_global :: "slot_pc \<Rightarrow> bool" where
  "holds_global Want_Domain = True"
| "holds_global Want_Tokens = True"
| "holds_global Inside = True"
| "holds_global _ = False"

fun holds_domain :: "slot_pc \<Rightarrow> bool" where
  "holds_domain Want_Tokens = True"
| "holds_domain Inside = True"
| "holds_domain _ = False"

fun patient :: "slot_pc \<Rightarrow> bool" where
  "patient (Checking w) = (0 \<le> w \<and> w \<le> MAX_BREAKER_WAIT_S)"
| "patient _ = True"

definition in_domain :: "string \<Rightarrow> string \<times> slot_pc \<Rightarrow> bool" where
  "in_domain dm t = (fst t = dm \<and> holds_domain (snd t))"

definition gate_inv :: "gate \<Rightarrow> bool" where
  "gate_inv g \<longleftrightarrow> 0 < g_limit g \<and>
     g_free g + count_where (\<lambda>t. holds_global (snd t)) (g_tasks g) = g_size g \<and>
     (\<forall>dm. domain_sem dm g + count_where (in_domain dm) (g_tasks g) = g_limit g) \<and>
     (\<forall>t \<in> set (g_tasks g). patient (snd t))"

lemma domain_sem_upd [simp]:
  "domain_sem d (g\<lparr>g_tasks := ts\<rparr>) = domain_sem d g"
  "domain_sem d (g\<lparr>g_free := n\<rparr>) = domain_sem d g"
  "domain_sem d (g\<lparr>g_breaker := b\<rparr>) = domain_sem d g"
  by (simp_all add: domain_sem_def split: option.split)

text \<open>A task moves from one point to another and takes or gives back what that means.\<close>

lemma move_inv:
  assumes inv: "gate_inv g" and pc: "at_pc i dm pc g" and pt: "patient pc'"
    and same: "g_tasks g' = g_tasks g" "g_limit g' = g_limit g" "g_size g' = g_size g"
    and gl: "g_free g' + (if holds_global pc' then 1 else 0) = g_free g + (if holds_global pc then 1 else 0)"
    and dom: "\<And>d. domain_sem d g' + (if d = dm \<and> holds_domain pc' then 1 else 0) =
      domain_sem d g + (if d = dm \<and> holds_domain pc then 1 else 0)"
  shows "gate_inv (set_pc i pc' g')"
proof -
  let ?g = "set_pc i pc' g'"
  have i: "i < length (g_tasks g)" "g_tasks g ! i = (dm, pc)" using pc by (simp_all add: at_pc_def)
  have t: "g_tasks ?g = (g_tasks g)[i := (dm, pc')]" using i same by (simp add: set_pc_def)
  have other: "g_limit ?g = g_limit g" "g_size ?g = g_size g" "g_free ?g = g_free g'"
    "domain_sem d ?g = domain_sem d g'" for d
    using same by (simp_all add: set_pc_def)
  have c: "count_where P (g_tasks ?g) + (if P (dm, pc) then 1 else 0) = count_where P (g_tasks g) + (if P (dm, pc') then 1 else 0)" for P
    using count_list_update [OF i(1), of P "(dm, pc')"] unfolding i(2) t .
  have "g_free ?g + count_where (\<lambda>t. holds_global (snd t)) (g_tasks ?g) = g_size ?g"
    using c [of "\<lambda>t. holds_global (snd t)"] gl inv by (simp add: other gate_inv_def split: if_splits)
  moreover have "domain_sem d ?g + count_where (in_domain d) (g_tasks ?g) = g_limit ?g" for d
  proof -
    have "domain_sem d g + count_where (in_domain d) (g_tasks g) = g_limit g" using inv by (simp add: gate_inv_def)
    with c [of "in_domain d"] dom [of d] show ?thesis
      by (auto simp: other in_domain_def split: if_splits)
  qed
  moreover have "\<forall>t \<in> set (g_tasks ?g). patient (snd t)"
    using inv pt set_update_subset_insert [of "g_tasks g" i "(dm, pc')"] by (auto simp: t gate_inv_def)
  moreover have "0 < g_limit ?g" using inv by (simp add: other gate_inv_def)
  ultimately show ?thesis by (simp add: gate_inv_def)
qed

lemma nap_pos: "0 \<le> rnd \<Longrightarrow> 1 / 2 \<le> nap retry_in rnd"
proof -
  assume "0 \<le> rnd"
  then have "1 / 2 * 1 \<le> min (max retry_in (1 / 2)) 5 * (1 + rnd * (1 / 2))"
    by (intro mult_mono) auto
  then show ?thesis by (simp add: nap_def)
qed

lemma look_inv:
  assumes "gate_inv g" and "at_pc i dm (Checking w) g" and "0 \<le> rnd"
  shows "gate_inv (look now rnd i w g)"
proof -
  obtain b r where br: "breaker_check now (g_breaker g) = (b, r)" by force
  have "(dm, Checking w) \<in> set (g_tasks g)" using assms(2) by (metis at_pc_def nth_mem)
  then have "0 \<le> w" using assms(1) by (auto simp: gate_inv_def)
  have step: "gate_inv (set_pc i pc' (g\<lparr>g_breaker := b\<rparr>))" if "patient pc'" "\<not> holds_global pc'" "\<not> holds_domain pc'" for pc'
    using that by (intro move_inv [OF assms(1,2)]) simp_all
  have "patient (Checking (w + nap ra rnd))" if "\<not> w + nap ra rnd > MAX_BREAKER_WAIT_S" for ra
    using that \<open>0 \<le> w\<close> nap_pos [OF assms(3), of ra] by simp
  then show ?thesis using br by (auto simp: look_def Let_def intro!: step split: option.splits)
qed

lemma keep_inv:
  "\<lbrakk> gate_inv g; g_tasks g' = g_tasks g; g_limit g' = g_limit g; g_size g' = g_size g; g_free g' = g_free g;
     \<And>d. domain_sem d g' = domain_sem d g \<rbrakk> \<Longrightarrow> gate_inv g'"
  by (simp add: gate_inv_def)

lemma domain_sem_put: "domain_sem d (put_sem dm n g) = (if d = dm then n else domain_sem d g)"
  by (simp add: domain_sem_def put_sem_def split: option.split)

lemma put_sem_simps [simp]:
  "g_tasks (put_sem dm n g) = g_tasks g" "g_limit (put_sem dm n g) = g_limit g"
  "g_size (put_sem dm n g) = g_size g" "g_free (put_sem dm n g) = g_free g"
  by (simp_all add: put_sem_def)

lemma arrive_inv: "gate_inv g \<Longrightarrow> gate_inv (g\<lparr>g_tasks := g_tasks g @ [(dm, Checking 0)]\<rparr>)"
  by (simp add: gate_inv_def count_where_def in_domain_def MAX_BREAKER_WAIT_S_def)

lemma gate_step_inv: "gate_step g g' \<Longrightarrow> gate_inv g \<Longrightarrow> gate_inv g'"
proof (induction rule: gate_step.induct)
  case (arrive g dm)
  then show ?case by (rule arrive_inv)
next
  case (look i dm w g rnd now)
  then show ?case by (intro look_inv)
next
  case (take_global i dm g)
  then show ?case by (intro move_inv [OF _ take_global(1)]) simp_all
next
  case (take_domain i dm g)
  then show ?case by (intro move_inv [OF _ take_domain(1)]) (simp_all add: domain_sem_put)
next
  case (make_domain i dm g)
  then show ?case by (elim keep_inv) (simp_all add: domain_sem_put)
next
  case (tokens i dm g)
  then show ?case by (intro move_inv [OF _ tokens(1)]) simp_all
next
  case (leave i dm g)
  then show ?case
    by (intro move_inv [OF _ leave(1)]) (simp_all add: give_back_global_def give_back_domain_def domain_sem_put)
next
  case (fail_tokens i dm g)
  then show ?case
    by (intro move_inv [OF _ fail_tokens(1)]) (simp_all add: give_back_global_def give_back_domain_def domain_sem_put)
next
  case (fail_domain i dm g)
  then show ?case by (intro move_inv [OF _ fail_domain(1)]) (simp_all add: give_back_global_def)
next
  case (cancel i dm w g)
  from cancel(1) show ?case
    by (elim disjE) (rule move_inv [OF cancel(2)], assumption, simp_all)+
next
  case (record_result g now ok why)
  then show ?case by (elim keep_inv) simp_all
next
  case (drop_domain g dm)
  then show ?case by (elim keep_inv) (simp_all add: release_domain_def domain_sem_def split: option.split)
qed

interpretation gt: invariant_system gate_start gate_step gate_inv
proof unfold_locales
  show "gate_inv g" if "gate_start g" for g
    using that by (simp add: gate_start_def gate_inv_def count_where_def domain_sem_def)
qed (rule gate_step_inv)

lemma count_le: "(\<And>x. P x \<Longrightarrow> Q x) \<Longrightarrow> count_where P xs \<le> count_where Q xs"
  by (induction xs) (auto simp: count_where_def)

text \<open>
  C12: The gate keeps its limits. However tasks arrive, wait, fail, are cancelled and leave, and
  however often the bookkeeping of a finished domain is dropped, never more fetches run than the
  process allows and never more on one domain than its limit; the free permits are exactly those
  nobody holds, so none leaks; and no task naps more than 30 seconds in all for the breaker.
\<close>

theorem gate_limits:
  assumes "reachable gate_start gate_step g"
  shows "count_where (\<lambda>t. snd t = Inside) (g_tasks g) \<le> g_size g \<and>
    count_where (\<lambda>t. t = (dm, Inside)) (g_tasks g) \<le> g_limit g \<and>
    (count_where (\<lambda>t. holds_global (snd t)) (g_tasks g) = 0 \<longrightarrow> g_free g = g_size g \<and> domain_sem dm g = g_limit g) \<and>
    ((dm, Checking w) \<in> set (g_tasks g) \<longrightarrow> w \<le> MAX_BREAKER_WAIT_S)"
proof -
  let ?n = "count_where (\<lambda>t. holds_global (snd t)) (g_tasks g)" and ?d = "count_where (in_domain dm) (g_tasks g)"
  from gt.inv_reachable [OF assms] have inv: "g_free g + ?n = g_size g" "domain_sem dm g + ?d = g_limit g"
    "\<forall>t \<in> set (g_tasks g). patient (snd t)" by (simp_all add: gate_inv_def)
  have "count_where (\<lambda>t. snd t = Inside) (g_tasks g) \<le> ?n" by (rule count_le) simp
  moreover have "count_where (\<lambda>t. t = (dm, Inside)) (g_tasks g) \<le> ?d" by (rule count_le) (auto simp: in_domain_def)
  moreover have "?d \<le> ?n"
  proof (rule count_le)
    show "holds_global (snd t)" if "in_domain dm t" for t
      using that by (cases "snd t") (auto simp: in_domain_def)
  qed
  moreover have "w \<le> MAX_BREAKER_WAIT_S" if "(dm, Checking w) \<in> set (g_tasks g)" using inv(3) that by force
  ultimately show ?thesis using inv(1,2) by auto
qed

definition s_gate :: gate where
  "s_gate = \<lparr>g_breaker = CircuitBreaker, g_size = 2, g_free = 2, g_limit = 1, g_sems = (\<lambda>_. None), g_tasks = []\<rparr>"

theorem gate_limits_witness:
  "\<exists>g. reachable gate_start gate_step g \<and> g_tasks g = [(''a.com'', Checking 0)] \<and>
     count_where (\<lambda>t. snd t = Inside) (g_tasks g) \<le> 2"
proof -
  let ?g = "s_gate\<lparr>g_tasks := g_tasks s_gate @ [(''a.com'', Checking 0)]\<rparr>"
  have "gate_start s_gate" by (simp add: s_gate_def gate_start_def)
  then have "reachable gate_start gate_step s_gate" by (rule reachable.init)
  then have "reachable gate_start gate_step ?g" by (rule reachable.step) (rule arrive)
  with gate_limits [OF this] show ?thesis by (intro exI [of _ ?g]) (simp add: s_gate_def)
qed

end
