(* ===== verification/Emails.thy ===== *)
theory Emails
  imports Html_Scan Py_Net Models
begin

unbundle bit_operations_syntax

text \<open>
  Finding addresses on a page, \<open>src/app/pipeline/extract/\<close>: the address pattern, decoding of
  protected addresses, normalisation of obfuscated ones, JSON-LD, and \<open>extract_page\<close>, which
  merges the sources of a page by precedence, and \<open>merge_pages\<close> over several.

  The HTML parser, the parser of JSON, percent-decoding and the public suffix list are not part
  of the program; a record of functions stands for them. What the DOM based helpers return for
  a page (the link targets, the attribute values, the visible text and the title) is taken from
  that record as well.
\<close>

section \<open>What other packages provide\<close>

datatype jval =
  JNull | JBool bool | JNum rat | JStr string | JList "jval list" | JObj "(string \<times> jval) list"

record tld_lib =
  tx_domain :: "string \<Rightarrow> string"
  tx_suffix :: "string \<Rightarrow> string"
  tx_registered :: "string \<Rightarrow> string"

record page_lib =
  pl_hrefs :: "string \<Rightarrow> string list option"
  pl_attrs :: "string \<Rightarrow> string list"
  pl_text :: "string \<Rightarrow> string"
  pl_title :: "string \<Rightarrow> string"
  pl_json :: "string \<Rightarrow> jval option"
  pl_unquote :: "string \<Rightarrow> string"
  pl_tld :: tld_lib

section \<open>The pattern\<close>

definition local_char :: "char \<Rightarrow> bool" where
  "local_char c = (is_ascii_letter c \<or> is_digit c \<or> c \<in> set ''._%+-'')"

definition host_char :: "char \<Rightarrow> bool" where
  "host_char c = (is_ascii_letter c \<or> is_digit c \<or> c = CHR ''-'')"

definition ascii_alnum :: "char \<Rightarrow> bool" where
  "ascii_alnum c = (is_ascii_letter c \<or> is_digit c)"

definition ADDRESS :: rx where
  "ADDRESS = seqs
     [Chr ascii_alnum, opt (Seq (rep 0 62 (Chr local_char)) (Chr ascii_alnum)),
      lit ''@'',
      plus (seqs [Chr ascii_alnum, opt (Seq (star (Chr host_char)) (Chr ascii_alnum)), lit ''.'']),
      rep 2 24 (Chr is_ascii_letter)]"

definition EMAIL_RX :: rx where
  "EMAIL_RX = seqs [Behind False (\<lambda>c. local_char c \<or> c = CHR ''@''), ADDRESS, Look False (Chr host_char)]"

definition EMAIL_FULL :: rx where
  "EMAIL_FULL = seqs [Bol, ADDRESS, Eol]"

definition trailing_punct :: "char \<Rightarrow> bool" where
  "trailing_punct c = (c \<in> set ''.,;:!?)]}>'' \<or> c = CHR 0x22 \<or> c = CHR 0x27)"

definition clean :: "string \<Rightarrow> string" where
  "clean e = lower (strip_by trailing_punct (strip e))"

section \<open>Protected addresses\<close>

fun hex_bytes :: "string \<Rightarrow> int list option" where
  "hex_bytes [] = Some []"
| "hex_bytes [a] = (if is_hex a then Some [digit_value a] else None)"
| "hex_bytes (a # b # s) =
     (if is_hex a \<and> is_hex b then map_option (Cons (digit_value a * 16 + digit_value b)) (hex_bytes s) else None)"

definition decode_cf :: "string \<Rightarrow> string option" where
  "decode_cf h =
     (case hex_bytes h of
        Some (key # bs) \<Rightarrow>
          let out = strip (map (\<lambda>b. char_of (nat (b XOR key))) bs)
          in if rx_fullmatch EMAIL_FULL out then Some (lower out) else None
      | _ \<Rightarrow> None)"

definition HEX5 :: rx where
  "HEX5 = Grp 1 (Rep 5 None True (Seq (Chr is_hex) (Chr is_hex)))"

definition not_angle :: "char \<Rightarrow> bool" where
  "not_angle c = (c \<noteq> CHR ''<'' \<and> c \<noteq> CHR ''>'')"

definition CARRIER :: rx where
  "CARRIER = seqs [lit ''<'', star (Chr not_angle), ilit ''data-cfemail'', star (Chr is_space), lit ''='',
     star (Chr is_space), lit [CHR 0x22], HEX5, lit [CHR 0x22], star (Chr not_angle), lit ''>'']"

definition CF_LINK :: rx where
  "CF_LINK = Seq (ilit ''/cdn-cgi/l/email-protection#'') HEX5"

definition cf_of :: "rx_match \<Rightarrow> string option" where
  "cf_of m = decode_cf (or_empty (group 1 m))"

definition decode_html :: "string \<Rightarrow> string \<times> string list" where
  "decode_html html =
     (if html = [] \<or> \<not> contains ''cfemail'' (lower html) \<and> \<not> contains ''email-protection'' (lower html)
      then (html, [])
      else
        let carrier = (\<lambda>m. case cf_of m of None \<Rightarrow> m_text m | Some e \<Rightarrow> m_text m @ '' '' @ e @ '' '');
            out = rx_sub CARRIER carrier html;
            link = (\<lambda>m. case cf_of m of None \<Rightarrow> m_text m | Some e \<Rightarrow> ''mailto:'' @ e)
        in (rx_sub CF_LINK link out,
            List.map_filter cf_of (rx_finditer CARRIER html) @ List.map_filter cf_of (rx_finditer CF_LINK out)))"

section \<open>Obfuscated addresses\<close>

definition U_AT :: rx where
  "U_AT = Alt (ilit (CHR 0x5C # ''u0040'')) (ilit (CHR 0x5C # ''x40''))"

definition U_DOT :: rx where
  "U_DOT = Alt (ilit (CHR 0x5C # ''u002e'')) (ilit (CHR 0x5C # ''x2e''))"

definition entity :: "string \<Rightarrow> string \<Rightarrow> string \<Rightarrow> rx" where
  "entity decimal hex name =
     alts [seqs [lit ''&#'', star (lit ''0''), lit decimal, lit '';''],
           seqs [ilit ''&#x'', star (lit ''0''), ilit hex, lit '';''],
           ilit (''&'' @ name @ '';'')]"

definition bracketed :: "string \<Rightarrow> rx" where
  "bracketed w = seqs [star (Chr is_space), chars_in ''[({'', star (Chr is_space), ilit w,
     star (Chr is_space), chars_in '')]}'', star (Chr is_space)]"

text \<open>Of the zero width characters only the soft hyphen is in the Latin-1 block.\<close>

definition ZERO_WIDTH :: rx where
  "ZERO_WIDTH = Chr (\<lambda>c. c = CHR 0xAD)"

definition CUE :: rx where
  "CUE = seqs [Wordb, alts
     [seqs [ilit ''e'', opt (lit ''-''), ilit ''mail''], ilit ''mail'', ilit ''contact'',
      seqs [ilit ''reach'', plus (Chr is_space), ilit ''us''],
      seqs [ilit ''write'', plus (Chr is_space), ilit ''to''],
      seqs [ilit ''enquir'', Alt (ilit ''y'') (ilit ''ies'')],
      seqs [ilit ''inquir'', Alt (ilit ''y'') (ilit ''ies'')]], Wordb]"

definition SPELLED :: rx where
  "SPELLED = seqs
     [Grp 1 (seqs [CUE, Rep 0 (Some 40) False (Chr not_angle), Wordb]),
      Grp 2 (plus (Chr local_char)), plus (Chr is_space), ilit ''at'', plus (Chr is_space),
      Grp 3 (plus (Chr host_char)), plus (Chr is_space), ilit ''dot'', plus (Chr is_space),
      Grp 4 (alts (map ilit [''com'', ''net'', ''org'', ''us'', ''co'', ''biz'', ''info'', ''io''])), Wordb]"

definition normalise_fragment :: "string \<Rightarrow> string" where
  "normalise_fragment t0 =
     (let t1 = rx_sub U_AT (\<lambda>_. ''@'') t0;
          t2 = rx_sub U_DOT (\<lambda>_. ''.'') t1;
          t3 = rx_sub (entity ''64'' ''40'' ''commat'') (\<lambda>_. ''@'') t2;
          t4 = rx_sub (entity ''46'' ''2e'' ''period'') (\<lambda>_. ''.'') t3;
          t5 = rx_sub (lit ''%40'') (\<lambda>_. ''@'') t4;
          t6 = rx_sub ZERO_WIDTH (\<lambda>_. []) t5;
          t7 = rx_sub (bracketed ''at'') (\<lambda>_. ''@'') t6;
          t8 = rx_sub (bracketed ''dot'') (\<lambda>_. ''.'') t7
      in rx_sub SPELLED (\<lambda>m. or_empty (group 1 m) @ or_empty (group 2 m) @ ''@'' @
           or_empty (group 3 m) @ ''.'' @ or_empty (group 4 m)) t8)"

definition JSONLD_TYPE :: rx where
  "JSONLD_TYPE = seqs [ilit ''type'', star (Chr is_space), lit ''='', star (Chr is_space),
     opt (chars_in [CHR 0x22, CHR 0x27]), ilit ''application/ld+json'']"

definition is_jsonld :: "block \<Rightarrow> bool" where
  "is_jsonld b = (rx_search JSONLD_TYPE (bl_attrs b) \<noteq> None)"

fun normalize_from :: "string \<Rightarrow> nat \<Rightarrow> block list \<Rightarrow> string" where
  "normalize_from html pos [] = normalise_fragment (drop pos html)"
| "normalize_from html pos (b # bs) =
     (if \<not> is_jsonld b then normalize_from html pos bs
      else normalise_fragment (Html_Scan.slice pos (bl_start b) html) @ Html_Scan.slice (bl_start b) (bl_end b) html @
        normalize_from html (bl_end b) bs)"

definition normalize_html :: "string \<Rightarrow> string" where
  "normalize_html html = (if html = [] then [] else normalize_from html 0 (iter_blocks html ''script''))"

section \<open>JSON-LD\<close>

fun str_of :: "jval \<Rightarrow> string option" where
  "str_of (JStr s) = Some s"
| "str_of _ = None"

fun jsonld_walk :: "jval \<Rightarrow> string list"
and jsonld_item :: "string \<times> jval \<Rightarrow> string list" where
  "jsonld_walk (JObj items) = concat (map jsonld_item items)"
| "jsonld_walk (JList vs) = concat (map jsonld_walk vs)"
| "jsonld_walk _ = []"
| "jsonld_item (key, value) =
     (if lower key = ''email''
      then (case value of JStr s \<Rightarrow> [s] | JList vs \<Rightarrow> List.map_filter str_of vs | _ \<Rightarrow> [])
      else jsonld_walk value)"

definition jsonld_blocks :: "string \<Rightarrow> string list" where
  "jsonld_blocks html =
     map (\<lambda>b. Html_Scan.slice (bl_body_start b) (bl_body_end b) html) (filter is_jsonld (iter_blocks html ''script''))"

definition TRAILING_COMMA :: rx where
  "TRAILING_COMMA = seqs [lit '','', star (Chr is_space), Grp 1 (chars_in ''}]'')]"

definition jsonld_value :: "string \<Rightarrow> string" where
  "jsonld_value raw =
     (let v = strip raw;
          w = if startswith ''mailto:'' (lower v) then drop 7 v else v
      in clean (fst (partition_at ''?'' w)))"

definition emails_from_block :: "page_lib \<Rightarrow> string \<Rightarrow> string list option" where
  "emails_from_block lib body =
     (let found = (\<lambda>v. Some (filter (\<lambda>e. e \<noteq> []) (map jsonld_value (jsonld_walk v))))
      in case pl_json lib body of
           Some v \<Rightarrow> found v
         | None \<Rightarrow>
             (case pl_json lib (rx_sub TRAILING_COMMA (\<lambda>m. or_empty (group 1 m)) body) of
                Some v \<Rightarrow> found v
              | None \<Rightarrow> None))"

definition jsonld_extract :: "page_lib \<Rightarrow> string \<Rightarrow> string list \<times> string list" where
  "jsonld_extract lib html =
     (let bs = jsonld_blocks html
      in (concat (List.map_filter (emails_from_block lib) bs),
          filter (\<lambda>b. emails_from_block lib b = None) bs))"

definition regex_emails :: "string \<Rightarrow> string list" where
  "regex_emails text = map clean (rx_findall EMAIL_RX text)"

section \<open>Accepting an address\<close>

primrec method_rank :: "extraction_method \<Rightarrow> nat" where
  "method_rank Mailto = 0"
| "method_rank Jsonld = 1"
| "method_rank Cloudflare = 2"
| "method_rank Text = 3"
| "method_rank Attribute = 4"
| "method_rank Script = 5"

record email_candidate =
  ec_email :: string
  ec_method :: extraction_method
  ec_source_urls :: "string list"
  ec_context :: string
  ec_order :: nat

definition TRIM_TARGETS :: "string list" where
  "TRIM_TARGETS = [''com'', ''net'', ''org'', ''edu'', ''gov'', ''mil'', ''int'', ''io'', ''co'', ''us'', ''biz'', ''info'']"

definition ASSET_TAIL :: rx where
  "ASSET_TAIL = seqs [lit ''.'', alts
     [ilit ''png'', seqs [ilit ''jp'', opt (ilit ''e''), ilit ''g''], ilit ''gif'', ilit ''webp'', ilit ''svg'',
      ilit ''bmp'', ilit ''ico'', ilit ''css'', ilit ''js'', ilit ''json'', Seq (ilit ''woff'') (opt (lit ''2'')),
      ilit ''ttf'', ilit ''eot'', ilit ''mp4'', ilit ''webm'', ilit ''avif'', Seq (ilit ''tif'') (opt (ilit ''f''))], Eol]"

definition is_upper_az :: "char \<Rightarrow> bool" where
  "is_upper_az c = (let n = ordc c in 65 \<le> n \<and> n \<le> 90)"

definition is_lower_az :: "char \<Rightarrow> bool" where
  "is_lower_az c = (let n = ordc c in 97 \<le> n \<and> n \<le> 122)"

definition GLUED_SENTENCE :: rx where
  "GLUED_SENTENCE = seqs [Bol,
     Grp 1 (seqs [plus (Chr (\<lambda>c. c \<noteq> CHR 0x0A)), lit ''.'', alts (map lit TRIM_TARGETS)]),
     lit ''.'', Chr is_upper_az, plus (Chr is_lower_az), Eol]"

definition unglue_sentence :: "string \<Rightarrow> string" where
  "unglue_sentence raw =
     (case rx_match GLUED_SENTENCE (strip_by trailing_punct (strip raw)) of
        None \<Rightarrow> raw | Some m \<Rightarrow> or_empty (group 1 m))"

text \<open>\<open>str.isdigit\<close> and \<open>str.isalpha\<close>.\<close>

definition isdigit :: "string \<Rightarrow> bool" where
  "isdigit s = (s \<noteq> [] \<and> list_all (\<lambda>c. is_digit c \<or> ordc c \<in> {178, 179, 185}) s)"

definition isalpha :: "string \<Rightarrow> bool" where
  "isalpha s = (s \<noteq> [] \<and>
     list_all (\<lambda>c. is_alnum c \<and> \<not> is_digit c \<and> ordc c \<notin> {178, 179, 185, 188, 189, 190}) s)"

definition version_like :: "string \<Rightarrow> bool" where
  "version_like domain =
     (let body = butlast (split_on ''.'' domain)
      in 2 \<le> length body \<and> list_ex isdigit body)"

definition trims :: "tld_lib \<Rightarrow> string list \<Rightarrow> string \<Rightarrow> string option" where
  "trims tx labels target =
     (let tld = lower (List.last labels);
          tail = drop (length target) tld;
          cand = join ''.'' (butlast labels @ [target])
      in if startswith target tld \<and> 2 \<le> length tail \<and> isalpha tail \<and> tx_suffix tx cand \<noteq> []
         then Some cand else None)"

fun first_trim :: "tld_lib \<Rightarrow> string list \<Rightarrow> string list \<Rightarrow> string option" where
  "first_trim tx labels [] = None"
| "first_trim tx labels (t # ts) =
     (case trims tx labels t of Some cand \<Rightarrow> Some cand | None \<Rightarrow> first_trim tx labels ts)"

definition fix_tld :: "tld_lib \<Rightarrow> string \<Rightarrow> string option" where
  "fix_tld tx email =
     (case rpartition_at ''@'' email of
        None \<Rightarrow> None
      | Some (loc, domain) \<Rightarrow>
          if loc = [] \<or> domain = [] then None
          else if rx_search ASSET_TAIL domain \<noteq> None \<or> version_like domain then None
          else if tx_suffix tx domain \<noteq> [] then Some email
          else map_option (\<lambda>cand. loc @ ''@'' @ cand) (first_trim tx (split_on ''.'' domain) TRIM_TARGETS))"

definition accept :: "tld_lib \<Rightarrow> string \<Rightarrow> string option" where
  "accept tx raw =
     (let email = clean (unglue_sentence raw)
      in if email = [] \<or> \<not> rx_fullmatch EMAIL_FULL email then None else fix_tld tx email)"

definition split_list :: "string \<Rightarrow> string list" where
  "split_list s = rx_split (chars_in '',;'') s"

definition recipients :: "page_lib \<Rightarrow> string \<Rightarrow> string \<Rightarrow> string list" where
  "recipients lib query key =
     concat (map (\<lambda>v. split_list (pl_unquote lib v))
       (rx_findall1 (seqs [Wordb, ilit key, Grp 1 (plus (Chr (\<lambda>c. c \<noteq> CHR ''&'')))]) query))"

definition mailto_addresses :: "page_lib \<Rightarrow> string \<Rightarrow> string list" where
  "mailto_addresses lib href =
     (let body = strip (pl_unquote lib (if lower (take 7 href) = ''mailto:'' then drop 7 href else href));
          (head, query) = partition_at ''?'' body;
          q = or_empty query;
          parts = filter (\<lambda>p. strip p \<noteq> []) (split_list head) @
            recipients lib q ''cc='' @ recipients lib q ''bcc='' @ recipients lib q ''to=''
      in filter (\<lambda>p. p \<noteq> []) (map strip parts))"

section \<open>One page\<close>

text \<open>
  \<open>add\<close>: a list of candidates in the order in which their addresses came up stands for the
  dictionary \<open>found\<close>, whose size is the counter.
\<close>

fun improve :: "string \<Rightarrow> extraction_method \<Rightarrow> email_candidate list \<Rightarrow> email_candidate list" where
  "improve email m [] = []"
| "improve email m (c # cs) =
     (if ec_email c = email
      then (if method_rank m < method_rank (ec_method c) then c\<lparr>ec_method := m\<rparr> else c) # cs
      else c # improve email m cs)"

definition add_raw ::
  "tld_lib \<Rightarrow> string list \<Rightarrow> string \<Rightarrow> string \<times> extraction_method \<Rightarrow> email_candidate list \<Rightarrow> email_candidate list" where
  "add_raw tx cf url rm found =
     (case accept tx (fst rm) of
        None \<Rightarrow> found
      | Some email \<Rightarrow>
          if email = [] then found
          else
            let m = if email \<in> set cf \<and> snd rm \<in> {Text, Mailto, Attribute, Script}
                    then Cloudflare else snd rm
            in if email \<in> ec_email ` set found then improve email m found
               else found @ [\<lparr>ec_email = email, ec_method = m, ec_source_urls = [url], ec_context = [],
                              ec_order = Suc (length found)\<rparr>])"

definition CONTEXT_CHARS :: nat where "CONTEXT_CHARS = 120"

definition context_for :: "string \<Rightarrow> string \<Rightarrow> string" where
  "context_for text email =
     (if text = [] \<or> email = [] then []
      else case find_at (lower email) (lower text) 0 of
             None \<Rightarrow> []
           | Some i \<Rightarrow> strip (Html_Scan.slice (i - CONTEXT_CHARS) (min (length text) (i + length email + CONTEXT_CHARS)) text))"

definition page_sources :: "page_lib \<Rightarrow> string \<Rightarrow> string \<Rightarrow> (string \<times> extraction_method) list" where
  "page_sources lib html text =
     (let tag = (\<lambda>m. map (\<lambda>a. (a, m)));
          hrefs = (case pl_hrefs lib html of None \<Rightarrow> [] | Some hs \<Rightarrow> map strip hs);
          mailtos = filter (\<lambda>h. lower (take 7 h) = ''mailto:'') hrefs;
          (good, failed) = jsonld_extract lib html;
          attrs = (case pl_hrefs lib html of
                     None \<Rightarrow> [] | Some _ \<Rightarrow> filter (\<lambda>v. CHR ''@'' \<in> set v) (pl_attrs lib html))
      in tag Mailto (concat (map (mailto_addresses lib) mailtos)) @
         tag Jsonld good @
         tag Script (concat (map regex_emails failed)) @
         tag Text (rx_findall EMAIL_RX text) @
         tag Attribute (concat (map (rx_findall EMAIL_RX) attrs)) @
         tag Script (concat (map (rx_findall EMAIL_RX) (bodies html ''script''))))"

definition extract_page ::
  "page_lib \<Rightarrow> string \<Rightarrow> string \<Rightarrow> email_candidate list \<times> string \<times> string" where
  "extract_page lib html url =
     (if html = [] then ([], [], [])
      else
        let (decoded, cf) = decode_html html;
            normalised = normalize_html decoded;
            text = pl_text lib normalised;
            found = fold (add_raw (pl_tld lib) cf url) (page_sources lib normalised text) [];
            candidates = sort_key ec_order found
        in (map (\<lambda>c. c\<lparr>ec_context := context_for text (ec_email c)\<rparr>) candidates, text, pl_title lib normalised))"

section \<open>All pages\<close>

definition add_urls :: "string list \<Rightarrow> string list \<Rightarrow> string list" where
  "add_urls new old = fold (\<lambda>u us. if u \<in> set us then us else us @ [u]) new old"

definition absorb :: "email_candidate \<Rightarrow> email_candidate \<Rightarrow> email_candidate" where
  "absorb c e = e\<lparr>
     ec_source_urls := add_urls (ec_source_urls c) (ec_source_urls e),
     ec_method := (if method_rank (ec_method c) < method_rank (ec_method e) then ec_method c else ec_method e),
     ec_context := (if ec_context e = [] \<and> ec_context c \<noteq> [] then ec_context c else ec_context e)\<rparr>"

fun merge_one :: "nat \<Rightarrow> email_candidate \<Rightarrow> email_candidate list \<Rightarrow> email_candidate list" where
  "merge_one i c [] = [c\<lparr>ec_order := i * 10000 + ec_order c\<rparr>]"
| "merge_one i c (e # es) = (if ec_email e = ec_email c then absorb c e # es else e # merge_one i c es)"

definition merge_pages :: "email_candidate list list \<Rightarrow> email_candidate list" where
  "merge_pages per_page =
     sort_key ec_order (fold (\<lambda>(i, cs). fold (merge_one i) cs) (enumerate 0 per_page) [])"

end
