(* ===== verification/Emails_Props.thy ===== *)
theory Emails_Props
  imports Emails "HOL-Library.Multiset"
begin

text \<open>
  What extraction promises: the addresses it returns are well formed, and every one of them
  names the pages it was read from.
\<close>

section \<open>The form of an accepted address\<close>

definition local_part :: "string \<Rightarrow> bool" where
  "local_part l = (l \<noteq> [] \<and> length l \<le> 64 \<and> list_all local_char l \<and> ascii_alnum (hd l) \<and> ascii_alnum (List.last l))"

definition host_or_dot :: "char \<Rightarrow> bool" where
  "host_or_dot c = (host_char c \<or> c = CHR ''.'')"

definition well_formed :: "tld_lib \<Rightarrow> string \<Rightarrow> bool" where
  "well_formed tx e =
     (case rpartition_at ''@'' e of
        None \<Rightarrow> False
      | Some (l, d) \<Rightarrow> local_part l \<and> d \<noteq> [] \<and> list_all host_or_dot d \<and> tx_suffix tx d \<noteq> [] \<and> lower e = e)"

lemma not_at [simp]: "\<not> host_or_dot (CHR ''@'')" "\<not> local_char (CHR ''@'')"
  by code_simp+

lemma alnum_chars: "ascii_alnum c \<Longrightarrow> local_char c" "ascii_alnum c \<Longrightarrow> host_or_dot c"
    "host_char c \<Longrightarrow> host_or_dot c" "is_ascii_letter c \<Longrightarrow> host_or_dot c" "host_or_dot (CHR ''.'')"
  by (auto simp: ascii_alnum_def local_char_def host_or_dot_def host_char_def)

lemma spells_lit [simp]: "spells (lit s) w \<longleftrightarrow> w = s"
  by (induction s arbitrary: w) (auto simp: lit_def)

lemma spells_seqs [simp]:
  "spells (seqs []) w \<longleftrightarrow> w = []"
  "spells (seqs (x # xs)) w \<longleftrightarrow> (\<exists>u v. w = u @ v \<and> spells x u \<and> spells (seqs xs) v)"
  by (simp_all add: seqs_def)

lemma rounds_chars:
  assumes "\<forall>u \<in> set us. \<exists>c. u = [c] \<and> P c"
  shows "list_all P (concat us) \<and> length (concat us) = length us"
  using assms by (induction us) auto

lemma spells_opt: "spells (opt a) w \<Longrightarrow> w = [] \<or> spells a w"
proof -
  assume "spells (opt a) w"
  then obtain us where us: "w = concat us" "\<forall>u \<in> set us. spells a u" "length us \<le> 1" by auto
  then show ?thesis by (cases us) auto
qed

lemma spells_rep_chr: "spells (Rep m x g (Chr P)) w \<Longrightarrow> list_all P w"
  using rounds_chars by auto

lemma spells_rep_len: "spells (Rep m (Some n) g (Chr P)) w \<Longrightarrow> length w \<le> max m n"
  using rounds_chars by fastforce

lemma spells_rep_min: "spells (Rep m x g (Chr P)) w \<Longrightarrow> m \<le> length w"
  using rounds_chars by fastforce

lemma local_spells:
  assumes "spells (Chr ascii_alnum) u"
    and "spells (opt (Seq (rep 0 62 (Chr local_char)) (Chr ascii_alnum))) v"
  shows "local_part (u @ v)"
proof -
  from assms(1) obtain a where a: "u = [a]" "ascii_alnum a" by auto
  from spells_opt [OF assms(2)] consider "v = []"
    | w b where "v = w @ [b]" "spells (rep 0 62 (Chr local_char)) w" "ascii_alnum b"
    by (auto simp del: spells.simps(5))
  then show ?thesis
  proof cases
    case 1
    with a show ?thesis by (simp add: local_part_def alnum_chars)
  next
    case 2
    with spells_rep_chr [OF 2(2)] spells_rep_len [OF 2(2)] a show ?thesis
      by (simp add: local_part_def alnum_chars)
  qed
qed

lemma label_spells:
  assumes "spells (seqs [Chr ascii_alnum, opt (Seq (star (Chr host_char)) (Chr ascii_alnum)), lit ''.'']) w"
  shows "list_all host_or_dot w"
proof -
  from assms obtain a v where w: "w = a # v @ ''.''" "ascii_alnum a"
    and v: "spells (opt (Seq (star (Chr host_char)) (Chr ascii_alnum))) v"
    by (auto simp del: spells.simps(5))
  from spells_opt [OF v] have "v = [] \<or> (\<exists>x b. v = x @ [b] \<and> spells (star (Chr host_char)) x \<and> ascii_alnum b)"
    by (auto simp del: spells.simps(5))
  then have "list_all host_or_dot v"
    using spells_rep_chr [of 0 None True host_char]
    by (auto simp: list_all_iff alnum_chars simp del: spells.simps(5))
  with w show ?thesis by (simp add: alnum_chars)
qed

lemma plus_labels:
  assumes "\<forall>u \<in> set us. list_all P u"
  shows "list_all P (concat us)"
  using assms by (induction us) auto

lemma address_spells:
  assumes "spells ADDRESS w"
  shows "\<exists>l d. w = l @ ''@'' @ d \<and> local_part l \<and> d \<noteq> [] \<and> list_all host_or_dot d"
proof -
  from assms obtain a v ls t where w: "w = a # v @ ''@'' @ ls @ t"
    and a: "ascii_alnum a" and v: "spells (opt (Seq (rep 0 62 (Chr local_char)) (Chr ascii_alnum))) v"
    and ls: "spells (plus (seqs [Chr ascii_alnum, opt (Seq (star (Chr host_char)) (Chr ascii_alnum)), lit ''.''])) ls"
    and t: "spells (rep 2 24 (Chr is_ascii_letter)) t"
    unfolding ADDRESS_def spells_seqs spells_lit append.simps by (auto simp del: spells.simps(5))
  from ls obtain us where us: "ls = concat us"
    "\<forall>u \<in> set us. spells (seqs [Chr ascii_alnum, opt (Seq (star (Chr host_char)) (Chr ascii_alnum)), lit ''.'']) u"
    unfolding spells.simps(5) by blast
  from us(2) have "\<forall>u \<in> set us. list_all host_or_dot u" using label_spells by blast
  then have "list_all host_or_dot ls" unfolding us(1) by (rule plus_labels)
  moreover have "list_all host_or_dot t"
    using spells_rep_chr [OF t] by (auto simp: list_all_iff alnum_chars)
  moreover have "t \<noteq> []" using spells_rep_min [OF t] by auto
  ultimately show ?thesis
    using w local_spells [OF _ v, of "[a]"] a by (intro exI [of _ "a # v"] exI [of _ "ls @ t"]) simp
qed

lemma email_full_spells:
  assumes "rx_fullmatch EMAIL_FULL e"
  shows "\<exists>l d. e = l @ ''@'' @ d \<and> local_part l \<and> d \<noteq> [] \<and> list_all host_or_dot d"
proof (rule address_spells)
  from fullmatch_spells [OF assms] show "spells ADDRESS e" by (auto simp: EMAIL_FULL_def)
qed

lemma split_on_parts: "x \<in> set (split_on sep s) \<Longrightarrow> set x \<subseteq> set s"
proof (induction sep s rule: split_on.induct)
  case (1 sep s)
  obtain a b where p: "partition_at sep s = (a, b)" by force
  show ?case
  proof (cases b)
    case None
    with 1 p partition_at_None [of sep s a] show ?thesis
      by (auto simp: split_on.simps [of sep s] split: if_splits)
  next
    case (Some b')
    show ?thesis
    proof (cases "sep = []")
      case True
      with "1.prems" show ?thesis by (simp add: split_on.simps)
    next
      case False
      with p Some have "split_on sep s = a # split_on sep b'" by (subst split_on.simps) simp
      with "1.prems" have "x = a \<or> x \<in> set (split_on sep b')" by simp
      moreover have "x \<in> set (split_on sep b') \<Longrightarrow> set x \<subseteq> set b'"
        using "1.IH" [OF False p [symmetric]] Some by simp
      ultimately show ?thesis using partition_at_Some [of sep s a b'] p Some by auto
    qed
  qed
qed

lemma join_chars: "set (join sep xs) \<subseteq> set sep \<union> (\<Union>x \<in> set xs. set x)"
  by (auto simp: join_def split: list.split)

lemma lower_fixed: "lower e = e \<longleftrightarrow> list_all (\<lambda>c. lower_char c = c) e"
  by (induction e) (auto simp: lower_def)

lemma trim_target_chars: "t \<in> set TRIM_TARGETS \<Longrightarrow> t \<noteq> [] \<and> list_all host_or_dot t \<and> lower t = t"
proof -
  have "list_all (\<lambda>t. t \<noteq> [] \<and> list_all host_or_dot t \<and> lower t = t) TRIM_TARGETS" by code_simp
  then show "t \<in> set TRIM_TARGETS \<Longrightarrow> ?thesis" by (simp add: list_all_iff)
qed

lemma first_trim_Some:
  "first_trim tx labels ts = Some cand \<Longrightarrow>
   \<exists>t \<in> set ts. cand = join ''.'' (butlast labels @ [t]) \<and> tx_suffix tx cand \<noteq> []"
  by (induction ts) (auto simp: trims_def Let_def split: option.splits if_splits)

lemma trimmed_host:
  assumes "first_trim tx (split_on ''.'' d) TRIM_TARGETS = Some cand"
    and d: "list_all P d" and p: "P (CHR ''.'')" and "\<And>t. t \<in> set TRIM_TARGETS \<Longrightarrow> list_all P t"
  shows "cand \<noteq> [] \<and> list_all P cand \<and> tx_suffix tx cand \<noteq> []"
proof -
  from first_trim_Some [OF assms(1)] obtain t where t: "t \<in> set TRIM_TARGETS"
    and c: "cand = join ''.'' (butlast (split_on ''.'' d) @ [t])" "tx_suffix tx cand \<noteq> []" by blast
  have "set cand \<subseteq> {CHR ''.''} \<union> set d \<union> set t"
    using join_chars [of "''.''" "butlast (split_on ''.'' d) @ [t]"] split_on_parts [of _ "''.''" d] c(1)
    by (fastforce dest: in_set_butlastD)
  moreover have "cand \<noteq> []"
    using c(1) trim_target_chars [OF t] by (auto simp: join_def split: list.splits)
  ultimately show ?thesis using d p assms(4) [OF t] c(2) by (auto simp: list_all_iff)
qed

lemma accept_well_formed:
  assumes "accept tx raw = Some e"
  shows "well_formed tx e"
proof -
  define email where "email = clean (unglue_sentence raw)"
  from assms have full: "rx_fullmatch EMAIL_FULL email" and fixed: "fix_tld tx email = Some e"
    by (auto simp: accept_def email_def Let_def split: if_splits)
  from email_full_spells [OF full] obtain l d where ld: "email = l @ ''@'' @ d" "local_part l"
    "d \<noteq> []" "list_all host_or_dot d" by blast
  then have no_at: "CHR ''@'' \<notin> set d" by (auto simp: list_all_iff)
  have low: "lower email = email" by (simp add: email_def clean_def)
  have part: "rpartition_at ''@'' email = Some (l, d)" using ld(1) rpartition_char [OF no_at] by simp
  from fixed part consider "e = email" "tx_suffix tx d \<noteq> []"
    | cand where "e = l @ ''@'' @ cand" "first_trim tx (split_on ''.'' d) TRIM_TARGETS = Some cand"
    by (auto simp: fix_tld_def split: if_splits)
  then show ?thesis
  proof cases
    case 1
    with part low ld show ?thesis by (simp add: well_formed_def)
  next
    case 2
    from low ld(1) have lc: "list_all (\<lambda>c. lower_char c = c) l" "list_all (\<lambda>c. lower_char c = c) d"
      and a: "lower_char (CHR ''@'') = CHR ''@''" by (simp_all add: lower_fixed)
    have "cand \<noteq> [] \<and> list_all host_or_dot cand \<and> tx_suffix tx cand \<noteq> []"
      using trimmed_host [OF 2(2) ld(4)] trim_target_chars by (simp add: alnum_chars)
    moreover have "list_all (\<lambda>c. lower_char c = c) cand"
    proof -
      have "lower_char (CHR ''.'') = CHR ''.''" by code_simp
      then show ?thesis using trimmed_host [OF 2(2) lc(2)] trim_target_chars by (simp add: lower_fixed)
    qed
    moreover have "CHR ''@'' \<notin> set cand" using calculation(1) by (auto simp: list_all_iff)
    ultimately show ?thesis
      using ld(2) lc(1) a 2(1) rpartition_char [of "CHR ''@''" cand l] by (simp add: well_formed_def lower_fixed)
  qed
qed

section \<open>One page\<close>

definition page_ok :: "tld_lib \<Rightarrow> string \<Rightarrow> email_candidate list \<Rightarrow> bool" where
  "page_ok tx url cs = (distinct (map ec_email cs) \<and>
     list_all (\<lambda>c. well_formed tx (ec_email c) \<and> ec_source_urls c = [url]) cs)"

lemma improve_keeps [simp]:
  "map ec_email (improve e m cs) = map ec_email cs"
  "map ec_source_urls (improve e m cs) = map ec_source_urls cs"
  by (induction cs) auto

lemma page_ok_maps:
  "page_ok tx url cs = (distinct (map ec_email cs) \<and> list_all (well_formed tx) (map ec_email cs) \<and>
     list_all (\<lambda>us. us = [url]) (map ec_source_urls cs))"
  by (auto simp: page_ok_def list_all_iff)

lemma add_raw_ok: "page_ok tx url found \<Longrightarrow> page_ok tx url (add_raw tx cf url rm found)"
  using accept_well_formed [of tx "fst rm"]
  by (auto simp: page_ok_maps add_raw_def Let_def split: option.split)

lemma fold_add_ok: "page_ok tx url found \<Longrightarrow> page_ok tx url (fold (add_raw tx cf url) rs found)"
  by (induction rs arbitrary: found) (auto intro: add_raw_ok)

lemma page_ok_set:
  assumes "mset (map ec_email cs') = mset (map ec_email cs)" and "set (map ec_source_urls cs') = set (map ec_source_urls cs)"
  shows "page_ok tx url cs' = page_ok tx url cs"
  using assms mset_eq_setD [OF assms(1)] mset_eq_imp_distinct_iff [OF assms(1)]
  by (simp add: page_ok_maps list_all_iff)

lemma extract_page_ok:
  "page_ok (pl_tld lib) url (fst (extract_page lib html url))"
proof (cases "html = []")
  case True
  then show ?thesis by (simp add: extract_page_def page_ok_def)
next
  case False
  obtain decoded cf where d: "decode_html html = (decoded, cf)" by force
  define shown where "shown = pl_text lib (normalize_html decoded)"
  define found where
    "found = fold (add_raw (pl_tld lib) cf url) (page_sources lib (normalize_html decoded) shown) []"
  have "page_ok (pl_tld lib) url found"
    unfolding found_def by (rule fold_add_ok) (simp add: page_ok_def)
  moreover have "fst (extract_page lib html url) =
      map (\<lambda>c. c\<lparr>ec_context := context_for shown (ec_email c)\<rparr>) (sort_key ec_order found)"
    using False by (simp add: extract_page_def d Let_def shown_def found_def)
  ultimately show ?thesis
    by (subst page_ok_set [of _ found]) (simp_all add: comp_def)
qed

text \<open>
  C15: The type of an extracted address. Whatever a page contains, and whatever the HTML parser,
  the JSON parser and the percent-decoder make of it, the candidates of the page have distinct
  addresses, each of which is in lower case with a local part of 1 to 64 permitted characters
  that begins and ends with a letter or digit, a single at sign, and a host with a public
  suffix; and each names the page as its source.
\<close>

theorem extract_page_typed:
  "page_ok (pl_tld lib) url (fst (extract_page lib html url))"
  by (rule extract_page_ok)

section \<open>All pages\<close>

text \<open>What a merged candidate is, in terms of the candidates of the pages that share its address.\<close>

definition sum_of :: "email_candidate list \<Rightarrow> email_candidate \<Rightarrow> bool" where
  "sum_of cs m = (let same = filter (\<lambda>c. ec_email c = ec_email m) cs
     in same \<noteq> [] \<and> set (ec_source_urls m) = \<Union> (set (map (set \<circ> ec_source_urls) same)) \<and>
        ec_method m \<in> set (map ec_method same) \<and>
        list_all (\<lambda>c. method_rank (ec_method m) \<le> method_rank (ec_method c)) same)"

definition merge_of :: "email_candidate list \<Rightarrow> email_candidate list \<Rightarrow> bool" where
  "merge_of cs ms = (distinct (map ec_email ms) \<and> ec_email ` set ms = ec_email ` set cs \<and> (\<forall>m \<in> set ms. sum_of cs m))"

lemma set_add_urls [simp]: "set (add_urls new old) = set new \<union> set old"
proof -
  have "set (fold (\<lambda>u us. if u \<in> set us then us else us @ [u]) new old) = set new \<union> set old"
    by (induction new arbitrary: old) auto
  then show ?thesis by (simp add: add_urls_def)
qed

lemma absorb_email [simp]: "ec_email (absorb c e) = ec_email e"
  by (simp add: absorb_def)

lemma sum_of_snoc_other: "sum_of cs m \<Longrightarrow> ec_email c \<noteq> ec_email m \<Longrightarrow> sum_of (cs @ [c]) m"
  by (simp add: sum_of_def)

lemma sum_of_absorb:
  assumes "sum_of cs m" and "ec_email c = ec_email m"
  shows "sum_of (cs @ [c]) (absorb c m)"
  using assms by (auto simp: sum_of_def absorb_def Let_def list_all_iff)

lemma merge_one_emails: "ec_email ` set (merge_one i c ms) = insert (ec_email c) (ec_email ` set ms)"
  by (induction ms) auto

lemma merge_one_distinct: "distinct (map ec_email ms) \<Longrightarrow> distinct (map ec_email (merge_one i c ms))"
proof (induction ms)
  case (Cons m ms)
  have "ec_email ` set (merge_one i c ms) = insert (ec_email c) (ec_email ` set ms)"
    by (rule merge_one_emails)
  with Cons show ?case by (auto simp flip: set_map)
qed simp

lemma merge_one_sums:
  assumes "distinct (map ec_email ms)" and "\<forall>m \<in> set ms. sum_of cs m"
    and "ec_email c \<in> ec_email ` set cs \<longrightarrow> ec_email c \<in> ec_email ` set ms"
  shows "\<forall>m \<in> set (merge_one i c ms). sum_of (cs @ [c]) m"
  using assms
proof (induction ms)
  case Nil
  then have "ec_email c \<notin> ec_email ` set cs" by simp
  then have "filter (\<lambda>c'. ec_email c' = ec_email c) cs = []"
    unfolding filter_empty_conv by (metis image_eqI)
  then show ?case by (simp add: sum_of_def)
next
  case (Cons m ms)
  show ?case
  proof (cases "ec_email m = ec_email c")
    case True
    with Cons.prems have "\<forall>x \<in> set ms. ec_email c \<noteq> ec_email x" by auto
    with True Cons.prems show ?thesis by (auto intro: sum_of_absorb sum_of_snoc_other)
  next
    case False
    with Cons.prems have "ec_email c \<in> ec_email ` set cs \<longrightarrow> ec_email c \<in> ec_email ` set ms" by auto
    with Cons have "\<forall>m \<in> set (merge_one i c ms). sum_of (cs @ [c]) m" by simp
    with False Cons.prems show ?thesis by (auto intro: sum_of_snoc_other)
  qed
qed

lemma merge_one_of:
  assumes "merge_of cs ms"
  shows "merge_of (cs @ [c]) (merge_one i c ms)"
  using assms merge_one_sums [of ms cs c i]
  by (auto simp: merge_of_def merge_one_emails intro: merge_one_distinct)

lemma merge_page_of:
  "merge_of cs ms \<Longrightarrow> merge_of (cs @ page) (fold (merge_one i) page ms)"
proof (induction page arbitrary: cs ms)
  case (Cons c page)
  from Cons.IH [OF merge_one_of [OF Cons.prems, of c i]] show ?case by simp
qed simp

lemma merge_fold_of:
  "merge_of cs ms \<Longrightarrow>
   merge_of (cs @ concat pages) (fold (\<lambda>(i, cs). fold (merge_one i) cs) (enumerate n pages) ms)"
proof (induction pages arbitrary: cs ms n)
  case (Cons page pages)
  from Cons.IH [OF merge_page_of [OF Cons.prems, of page n]] show ?case by simp
qed simp

lemma merge_pages_of: "merge_of (concat pages) (merge_pages pages)"
proof -
  define ms where "ms = fold (\<lambda>(i, cs). fold (merge_one i) cs) (enumerate 0 pages) []"
  have "merge_of [] []" by (simp add: merge_of_def)
  from merge_fold_of [OF this, of pages 0] have "merge_of (concat pages) ms" by (simp add: ms_def)
  moreover have "mset (map ec_email (sort_key ec_order ms)) = mset (map ec_email ms)" by simp
  then have "distinct (map ec_email (sort_key ec_order ms)) = distinct (map ec_email ms)"
    by (rule mset_eq_imp_distinct_iff)
  ultimately show ?thesis by (simp add: merge_pages_def merge_of_def flip: ms_def)
qed

end
