(* ===== verification/Rank.thy ===== *)
theory Rank
  imports Emails "HOL-Library.Product_Lexorder" "HOL-Library.List_Lexorder" "HOL-Library.Char_ord"
    "HOL-Library.Multiset"
begin

text \<open>
  Filtering and ranking of candidates, \<open>src/app/pipeline/filter_rank.py\<close>, and the status of a
  domain, \<open>src/app/pipeline/status.py\<close>. The public suffix list is the parameter \<open>tx\<close>.
\<close>

section \<open>Dropping\<close>

definition MAX_CANDIDATES :: nat where "MAX_CANDIDATES = 50"

definition ASSET_SUFFIXES :: "string list" where
  "ASSET_SUFFIXES = [''.png'', ''.jpg'', ''.jpeg'', ''.gif'', ''.webp'', ''.svg'', ''.bmp'', ''.ico'', ''.css'', ''.js'',
     ''.json'', ''.woff'', ''.woff2'', ''.ttf'', ''.eot'', ''.mp4'', ''.webm'', ''.avif'', ''.tif'', ''.tiff'']"

definition BAD_DOMAINS :: "string list" where
  "BAD_DOMAINS = [''example.com'', ''example.org'', ''example.net'', ''domain.com'', ''yourdomain.com'',
     ''yoursite.com'', ''website.com'', ''email.com'', ''mysite.com'', ''test.com'', ''sentry.io'',
     ''wixpress.com'', ''sentry-next.wixpress.com'', ''wix.com'', ''squarespace.com'',
     ''godaddysites.com'', ''weebly.com'', ''wordpress.com'', ''shopify.com'', ''myshopify.com'',
     ''sentry.wixpress.com'']"

definition sep :: rx where
  "sep = opt (chars_in ''-_.'')"

definition BAD_LOCAL :: rx where
  "BAD_LOCAL = seqs [Bol, alts
     [seqs [ilit ''no'', sep, ilit ''reply''], seqs [ilit ''do'', sep, ilit ''not'', sep, ilit ''reply''],
      ilit ''donotreply'', seqs [ilit ''mailer'', sep, ilit ''daemon''], ilit ''postmaster'',
      ilit ''hostmaster'', ilit ''abuse'', Seq (ilit ''bounce'') (opt (ilit ''s'')), ilit ''mailer'', ilit ''daemon'',
      ilit ''cron'', ilit ''root'', ilit ''wordpress'', ilit ''wp'', ilit ''newsletter'', ilit ''unsubscribe'',
      Seq (ilit ''notification'') (opt (ilit ''s'')), ilit ''automated'', Seq (ilit ''noreply'') (star (Chr is_digit)),
      ilit ''name'', seqs [ilit ''your'', sep, ilit ''name''], ilit ''you'', ilit ''user'', ilit ''username'', ilit ''email'',
      seqs [ilit ''your'', sep, ilit ''email''], ilit ''youremail'', seqs [ilit ''first'', sep, ilit ''name''],
      seqs [ilit ''last'', sep, ilit ''name''], seqs [ilit ''firstname'', sep, ilit ''lastname''],
      seqs [ilit ''first'', sep, ilit ''last''], seqs [ilit ''john'', sep, ilit ''doe''],
      seqs [ilit ''jane'', sep, ilit ''doe''], seqs [ilit ''john'', sep, ilit ''smith''], ilit ''johndoe'',
      ilit ''janedoe'', ilit ''johnsmith'', ilit ''test'', ilit ''example'', ilit ''sample'', ilit ''demo'',
      ilit ''placeholder''],
     opt (chars_in ''-_.+''), star (Chr is_digit), Eol]"

definition ROLE_LOCALS :: "string list" where
  "ROLE_LOCALS = [''info'', ''hello'', ''contact'', ''sales'', ''support'', ''office'', ''admin'', ''team'', ''service'',
     ''help'', ''inquiries'', ''enquiries'', ''inquiry'', ''enquiry'', ''mail'', ''reception'', ''booking'', ''bookings'',
     ''appointments'', ''estimates'', ''quotes'', ''marketing'', ''hr'', ''careers'', ''jobs'', ''billing'', ''accounts'',
     ''privacy'', ''legal'', ''media'', ''press'', ''webmaster'']"

definition FREE_LABELS :: "string list" where
  "FREE_LABELS = [''gmail'', ''yahoo'', ''hotmail'', ''outlook'', ''aol'', ''icloud'', ''msn'', ''live'', ''comcast'',
     ''att'', ''sbcglobal'', ''verizon'', ''bellsouth'', ''me'', ''ymail'', ''protonmail'', ''proton'',
     ''mail'', ''gmx'', ''zoho'', ''yandex'']"

definition HEXISH :: rx where
  "HEXISH = seqs [Bol, Rep 12 None True (Chr is_hex), Eol]"

definition DIGITS :: rx where
  "DIGITS = seqs [Bol, plus (Chr is_digit), Eol]"

definition SIBLING_MIN_LABEL :: nat where "SIBLING_MIN_LABEL = 5"

definition local_and_domain :: "string \<Rightarrow> string \<times> string" where
  "local_and_domain email =
     (case rpartition_at ''@'' email of None \<Rightarrow> ([], lower email) | Some (l, d) \<Rightarrow> (lower l, lower d))"

definition matches :: "rx \<Rightarrow> string \<Rightarrow> bool" where
  "matches a s = (rx_match a s \<noteq> None)"

definition should_drop :: "tld_lib \<Rightarrow> string \<Rightarrow> string option" where
  "should_drop tx email =
     (let (loc, domain) = local_and_domain email; root = tx_registered tx domain
      in if int (length email) > 254 then Some ''too_long''
         else if list_ex (\<lambda>x. endswith x email) ASSET_SUFFIXES then Some ''asset''
         else if loc = [] \<or> domain = [] then Some ''malformed''
         else if int (length loc) > 64 then Some ''local_too_long''
         else if domain \<in> set BAD_DOMAINS then Some ''bad_domain''
         else if root \<noteq> [] \<and> root \<in> set BAD_DOMAINS then Some ''bad_domain''
         else if matches BAD_LOCAL loc then Some ''bad_local''
         else if matches HEXISH loc \<or> matches DIGITS loc then Some ''opaque_local''
         else None)"

section \<open>Ranking\<close>

record ranked_email =
  re_candidate :: email_candidate
  re_rank :: nat
  re_own :: bool
  re_role :: bool
  re_free :: bool

definition re_email :: "ranked_email \<Rightarrow> string" where
  "re_email r = ec_email (re_candidate r)"

definition second_level :: "tld_lib \<Rightarrow> string \<Rightarrow> string" where
  "second_level tx domain = lower (tx_domain tx domain)"

definition is_own :: "tld_lib \<Rightarrow> string \<Rightarrow> string \<Rightarrow> bool" where
  "is_own tx email_domain site_domain =
     (if site_domain = [] then False
      else
        let site = lower site_domain; host = lower email_domain
        in if host = site \<or> endswith (''.'' @ site) host then True
           else
             let a = second_level tx host; b = second_level tx site
             in if a \<in> set FREE_LABELS then False
                else SIBLING_MIN_LABEL \<le> length a \<and> SIBLING_MIN_LABEL \<le> length b \<and> (contains a b \<or> contains b a))"

definition is_free :: "tld_lib \<Rightarrow> string \<Rightarrow> bool" where
  "is_free tx email_domain = (second_level tx email_domain \<in> set FREE_LABELS)"

definition classify :: "tld_lib \<Rightarrow> string \<Rightarrow> string \<Rightarrow> bool \<times> bool \<times> bool \<times> nat" where
  "classify tx email site_domain =
     (let (loc, domain) = local_and_domain email;
          own = is_own tx domain site_domain;
          role = loc \<in> set ROLE_LOCALS;
          free = is_free tx domain
      in (own, role, free, if own \<and> \<not> role then 1 else if own \<and> role then 2 else if free then 3 else 4))"

definition ranked_of :: "tld_lib \<Rightarrow> string \<Rightarrow> email_candidate \<Rightarrow> ranked_email" where
  "ranked_of tx site_domain c =
     (case classify tx (ec_email c) site_domain of
        (own, role, free, rank) \<Rightarrow>
          \<lparr>re_candidate = c, re_rank = rank, re_own = own, re_role = role, re_free = free\<rparr>)"

definition best_page_score :: "(string \<times> int) list \<Rightarrow> ranked_email \<Rightarrow> int" where
  "best_page_score scores r =
     (case ec_source_urls (re_candidate r) of
        [] \<Rightarrow> 0
      | u # us \<Rightarrow>
          let score = (\<lambda>u. case map_of scores u of None \<Rightarrow> 0 | Some s \<Rightarrow> s)
          in fold (\<lambda>v m. max (score v) m) us (score u))"

definition sort_key_of :: "(string \<times> int) list \<Rightarrow> ranked_email \<Rightarrow> nat \<times> nat \<times> int \<times> nat \<times> string" where
  "sort_key_of scores r =
     (re_rank r, if ec_method (re_candidate r) \<in> {Mailto, Jsonld} then 0 else 1,
      - best_page_score scores r, ec_order (re_candidate r), re_email r)"

definition keep_ranked :: "tld_lib \<Rightarrow> email_candidate list \<Rightarrow> string \<Rightarrow> ranked_email list" where
  "keep_ranked tx candidates site_domain =
     map (ranked_of tx site_domain) (filter (\<lambda>c. should_drop tx (ec_email c) = None) candidates)"

definition rank_candidates ::
  "tld_lib \<Rightarrow> email_candidate list \<Rightarrow> string \<Rightarrow> (string \<times> int) list \<Rightarrow> ranked_email list" where
  "rank_candidates tx candidates site_domain page_scores =
     take MAX_CANDIDATES (sort_key (sort_key_of page_scores) (keep_ranked tx candidates site_domain))"

definition rules_best :: "ranked_email list \<Rightarrow> string option" where
  "rules_best ranked = (case ranked of [] \<Rightarrow> None | r # _ \<Rightarrow> Some (re_email r))"

section \<open>The status of a domain\<close>

record status_inputs =
  si_invalid_input :: bool
  si_fetch_failed :: bool
  si_parked :: bool
  si_typesafe_said_none :: bool
  si_best_email :: "string option"
  si_business_emails :: "string list"
  si_contact_form_url :: "string option"

definition assign_status :: "status_inputs \<Rightarrow> status" where
  "assign_status s =
     (if si_invalid_input s then Invalid_Input
      else if si_fetch_failed s then Fetch_Failed
      else if si_parked s \<and> \<not> truthy (si_best_email s) then Parked_Or_For_Sale
      else if si_typesafe_said_none s \<and> \<not> (si_business_emails s \<noteq> [] \<or> truthy (si_best_email s)) then No_Business_Email
      else if truthy (si_best_email s) then Found
      else if truthy (si_contact_form_url s) then Form_Only
      else No_Contact_Info)"

section \<open>What ranking promises\<close>

lemma take_sorted_best:
  assumes "sorted (map f xs)" and "y \<in> set (drop n xs)" and "x \<in> set (take n xs)"
  shows "f x \<le> f y"
proof -
  from assms(1) have "sorted (map f (take n xs) @ map f (drop n xs))"
    by (simp flip: map_append)
  with assms(2, 3) show ?thesis by (auto simp: sorted_append)
qed

lemma ranked_of_candidate [simp]: "re_candidate (ranked_of tx site c) = c"
  by (simp add: ranked_of_def split: prod.split)

lemma ranked_subset:
  "r \<in> set (rank_candidates tx cs site scores) \<Longrightarrow>
   re_candidate r \<in> set cs \<and> should_drop tx (re_email r) = None"
  by (auto simp: rank_candidates_def keep_ranked_def re_email_def dest!: in_set_takeD)


definition s_tld :: tld_lib where
  "s_tld = \<lparr>tx_domain = (\<lambda>d. fst (partition_at ''.'' d)), tx_suffix = (\<lambda>d. or_empty (snd (partition_at ''.'' d))),
     tx_registered = id\<rparr>"

definition s_cand :: "nat \<Rightarrow> string \<Rightarrow> extraction_method \<Rightarrow> email_candidate" where
  "s_cand n e m = \<lparr>ec_email = e, ec_method = m, ec_source_urls = [''https://acme.com/''], ec_context = [], ec_order = n\<rparr>"

definition s_cands :: "email_candidate list" where
  "s_cands = [s_cand 1 ''noreply@acme.com'' Mailto, s_cand 2 ''joe@gmail.com'' Mailto,
     s_cand 3 ''info@acme.com'' Text, s_cand 4 ''bob@acme.com'' Text]"


end
