(* ===== verification/Judge.thy ===== *)
theory Judge
  imports Rank Breaker Settings "HOL-Library.Monad_Syntax"
begin

text \<open>
  The judgment of candidates by the TypeSafe service, \<open>src/app/pipeline/typesafe.py\<close>: when it is
  asked, the request, the retry loop around its circuit breaker, and the decision over its
  answers. An answer is JSON of any shape; an operation that Python refuses on it (a method
  call on a value that is no dictionary, \<open>float\<close> of a list) is the value None of an option.
  \<open>float\<close> of a string is the parameter \<open>pf\<close>.
\<close>

section \<open>Judgments\<close>

record judgement =
  ju_best_email :: "string option"
  ju_best_email_source :: "best_source option"
  ju_confidence :: "rat option"
  ju_needs_review :: bool
  ju_business_emails :: "string list"
  ju_site_status :: jval
  ju_typesafe_called :: bool
  ju_typesafe_error :: bool
  ju_said_none :: bool
  ju_belongs :: "(string \<times> rat) list"

definition Judgment :: judgement where
  "Judgment = \<lparr>ju_best_email = None, ju_best_email_source = None, ju_confidence = None, ju_needs_review = False,
     ju_business_emails = [], ju_site_status = JNull, ju_typesafe_called = False, ju_typesafe_error = False,
     ju_said_none = False, ju_belongs = []\<rparr>"

definition should_call :: "ranked_email list \<Rightarrow> bool" where
  "should_call ranked = (ranked \<noteq> [] \<and> (2 \<le> length ranked \<or> list_ex (\<lambda>r. 3 \<le> re_rank r) ranked))"

definition rules_only :: "ranked_email list \<Rightarrow> judgement" where
  "rules_only ranked =
     (case ranked of
        [] \<Rightarrow> Judgment
      | r # _ \<Rightarrow> Judgment\<lparr>ju_best_email := Some (re_email r), ju_best_email_source := Some By_Rules,
          ju_business_emails := map re_email (filter (\<lambda>r. re_rank r \<in> {1, 2}) ranked)\<rparr>)"

section \<open>The request\<close>

definition MAX_JUDGE_CANDIDATES :: nat where "MAX_JUDGE_CANDIDATES = 10"

fun pick_from :: "string list \<Rightarrow> ranked_email list \<Rightarrow> ranked_email list \<Rightarrow> ranked_email list" where
  "pick_from seen picked [] = picked"
| "pick_from seen picked (r # rs) =
     (let key = lower (re_email r)
      in if key \<in> set seen then pick_from seen picked rs
         else let picked = picked @ [r]
              in if MAX_JUDGE_CANDIDATES \<le> length picked then picked else pick_from (key # seen) picked rs)"

datatype question =
  Choice_Q (q_instructions: string) (q_criteria: "(string \<times> string option) list")
| Noul_Q (q_instructions: string)

record candidate_state =
  cs_email :: string
  cs_context :: string
  cs_source_url :: string

record judge_body =
  jb_model :: string
  jb_business_domain :: string
  jb_page_title :: string
  jb_candidates :: "candidate_state list"
  jb_questions :: "(string \<times> question) list"

definition best_contact_q :: "string \<Rightarrow> string" where
  "best_contact_q domain =
     ''Which email is the best way to reach the owner or a decision maker at the business '' @
     ''that owns '' @ domain @ ''? Prefer a named person at the business over a generic inbox. '' @
     ''Emails for the web designer, hosting platform, software vendor, or other third '' @
     ''parties do not count.''"

definition site_status_q :: "string \<Rightarrow> string" where
  "site_status_q domain = ''What kind of website is '' @ domain @ ''?''"

definition belongs_q :: "string \<Rightarrow> string \<Rightarrow> string" where
  "belongs_q email domain =
     ''Does the email '' @ email @ '' belong to the business that owns '' @ domain @ '' (the owner, an '' @
     ''employee, or a company inbox), rather than a web designer, platform, vendor, or '' @
     ''other third party?''"

definition site_criteria :: "(string \<times> string option) list" where
  "site_criteria =
     [(''operating_business'', Some (''A real business that is currently operating and selling products '' @ ''or services.'')),
      (''parked_or_for_sale'', Some ''A parked domain, placeholder, or domain listed for sale.''),
      (''other'', Some ''Something else, such as a personal blog, directory, or closed business.'')]"

definition belongs_key :: "nat \<Rightarrow> string" where
  "belongs_key i = ''belongs_'' @ str_nat i"

definition build_body :: "settings \<Rightarrow> ranked_email list \<Rightarrow> string \<Rightarrow> string \<Rightarrow> judge_body \<times> string list" where
  "build_body cfg ranked domain page_title =
     (let picked = pick_from [] [] ranked;
          emails = map (lower \<circ> re_email) picked;
          criteria = map (\<lambda>e. (e, None)) emails @ [(''none'', Some ''None of these emails belongs to this business.'')];
          questions =
            [(''best_contact'', Choice_Q (best_contact_q domain) criteria),
             (''site_status'', Choice_Q (site_status_q domain) site_criteria)] @
            map (\<lambda>(i, r). (belongs_key i, Noul_Q (belongs_q (re_email r) domain))) (enumerate 0 picked);
          shown = (\<lambda>r. \<lparr>cs_email = re_email r, cs_context = take 400 (ec_context (re_candidate r)),
             cs_source_url = (case ec_source_urls (re_candidate r) of [] \<Rightarrow> [] | u # _ \<Rightarrow> u)\<rparr>)
      in (\<lparr>jb_model = typesafe_model cfg, jb_business_domain = domain, jb_page_title = take 150 page_title,
           jb_candidates = map shown picked, jb_questions = questions\<rparr>, emails))"

section \<open>Reading an answer\<close>

fun jtrue :: "jval \<Rightarrow> bool" where
  "jtrue JNull = False"
| "jtrue (JBool b) = b"
| "jtrue (JNum r) = (r \<noteq> 0)"
| "jtrue (JStr s) = (s \<noteq> [])"
| "jtrue (JList vs) = (vs \<noteq> [])"
| "jtrue (JObj m) = (m \<noteq> [])"

definition jor :: "jval \<Rightarrow> jval \<Rightarrow> jval" where
  "jor a b = (if jtrue a then a else b)"

fun jget :: "jval \<Rightarrow> string \<Rightarrow> jval option" where
  "jget (JObj m) k = Some (case map_of m k of None \<Rightarrow> JNull | Some v \<Rightarrow> v)"
| "jget _ k = None"

fun jstrip :: "jval \<Rightarrow> string option" where
  "jstrip (JStr s) = Some (strip s)"
| "jstrip _ = None"

fun jfloat :: "(string \<Rightarrow> rat option) \<Rightarrow> jval \<Rightarrow> rat option" where
  "jfloat pf (JNum r) = Some r"
| "jfloat pf (JBool b) = Some (if b then 1 else 0)"
| "jfloat pf (JStr s) = pf s"
| "jfloat pf _ = None"

fun belongs_from ::
  "(string \<Rightarrow> rat option) \<Rightarrow> jval \<Rightarrow> nat \<Rightarrow> string list \<Rightarrow> (string \<times> rat) list option" where
  "belongs_from pf answers i [] = Some []"
| "belongs_from pf answers i (e # es) =
     do {
       node \<leftarrow> jget answers (belongs_key i);
       v \<leftarrow> jget (jor node (JObj [])) ''noul'';
       rest \<leftarrow> belongs_from pf answers (Suc i) es;
       Some ((e, case jfloat pf v of None \<Rightarrow> 0 | Some r \<Rightarrow> r) # rest)
     }"

definition belongs_get :: "(string \<times> rat) list \<Rightarrow> string \<Rightarrow> rat \<Rightarrow> rat" where
  "belongs_get belongs e d = (case map_of belongs e of None \<Rightarrow> d | Some r \<Rightarrow> r)"

text \<open>The decision once everything has been read from the answers.\<close>

definition verdict ::
  "settings \<Rightarrow> string \<Rightarrow> rat \<Rightarrow> (string \<times> rat) list \<Rightarrow> jval \<Rightarrow> string list \<Rightarrow> ranked_email list \<Rightarrow> judgement" where
  "verdict cfg choice confidence belongs site emails ranked =
     (let min_b = typesafe_belongs_min cfg;
          business = filter (\<lambda>e. belongs_get belongs e 0 \<ge> min_b) emails;
          accepted = (choice \<in> set emails \<and> confidence \<ge> typesafe_confidence_min cfg \<and>
            belongs_get belongs choice 0 \<ge> min_b);
          common = Judgment\<lparr>ju_business_emails := business, ju_site_status := site,
            ju_typesafe_called := True, ju_belongs := belongs\<rparr>
      in if accepted
         then common\<lparr>ju_best_email := Some choice, ju_best_email_source := Some By_Typesafe,
                ju_confidence := Some confidence\<rparr>
         else if choice = ''none'' \<and> confidence \<ge> typesafe_confidence_min cfg
         then common\<lparr>ju_best_email_source := Some By_Typesafe, ju_confidence := Some confidence, ju_said_none := True\<rparr>
         else
           let first = (case ranked of [] \<Rightarrow> None | r # _ \<Rightarrow> Some (lower (re_email r)));
               fallback = (case first of
                   None \<Rightarrow> None
                 | Some e \<Rightarrow> if belongs_get belongs e 1 < min_b
                            then (case business of [] \<Rightarrow> None | b # _ \<Rightarrow> Some b) else Some e)
           in common\<lparr>ju_best_email := fallback,
                ju_best_email_source := Some (if truthy fallback then By_Rules else By_Typesafe),
                ju_needs_review := True\<rparr>)"

definition read_answers ::
  "(string \<Rightarrow> rat option) \<Rightarrow> jval \<Rightarrow> string list \<Rightarrow> (string \<times> rat \<times> (string \<times> rat) list \<times> jval) option" where
  "read_answers pf answers emails =
     do {
       bc \<leftarrow> jget answers ''best_contact'';
       ch \<leftarrow> jget (jor bc (JObj [])) ''choice'';
       raw_choice \<leftarrow> jstrip (jor ch (JStr []));
       cf \<leftarrow> jget (jor bc (JObj [])) ''confidence'';
       confidence \<leftarrow> jfloat pf (jor cf (JNum 0));
       belongs \<leftarrow> belongs_from pf answers 0 emails;
       ss \<leftarrow> jget answers ''site_status'';
       site \<leftarrow> jget (jor ss (JObj [])) ''choice'';
       sc \<leftarrow> jget (jor ss (JObj [])) ''confidence'';
       site_conf \<leftarrow> jfloat pf (jor sc (JNum 0));
       Some (lower raw_choice, confidence, belongs, if site_conf \<ge> 8 / 10 then site else site)
     }"

definition decide ::
  "settings \<Rightarrow> (string \<Rightarrow> rat option) \<Rightarrow> jval \<Rightarrow> string list \<Rightarrow> ranked_email list \<Rightarrow> judgement option" where
  "decide cfg pf answers emails ranked =
     map_option (\<lambda>(choice, confidence, belongs, site). verdict cfg choice confidence belongs site emails ranked)
       (read_answers pf answers emails)"

section \<open>The call\<close>

datatype judge_reply = Replied int "jval option" | Client_Exc | Client_Runtime_Error

datatype post_error = Circuit_Open | Refused int | Exhausted | Runtime_Error | Overflow

definition JUDGE_DELAYS :: "rat list" where
  "JUDGE_DELAYS = [2, 4, 8, 16, 32]"

text \<open>
  One attempt: what it does to the breaker, and \<open>Inr (Some a)\<close> for the answers, \<open>Inr None\<close> to
  go on, \<open>Inl e\<close> for an exception. \<open>now\<close> gives the clock at the check, at the first and at the
  second recording.
\<close>

definition judge_failed :: "time \<Rightarrow> breaker \<Rightarrow> breaker \<times> (post_error + jval option)" where
  "judge_failed now b =
     (case breaker_record now False [] b of
        (b', True) \<Rightarrow> (b', Inl Overflow) | (b', False) \<Rightarrow> (b', Inr None))"

definition judge_attempt ::
  "(nat \<Rightarrow> time) \<Rightarrow> judge_reply \<Rightarrow> breaker \<Rightarrow> breaker \<times> (post_error + jval option)" where
  "judge_attempt now reply b =
     (case reply of
        Client_Runtime_Error \<Rightarrow> (b, Inl Runtime_Error)
      | Client_Exc \<Rightarrow> judge_failed (now 2) b
      | Replied st body \<Rightarrow>
          if st \<in> {429, 529} \<or> 500 \<le> st \<and> st < 600 then
            (case breaker_record (now 1) False [] b of
               (b', True) \<Rightarrow> judge_failed (now 2) b' | (b', False) \<Rightarrow> (b', Inr None))
          else if st \<ge> 400 then
            (case breaker_record (now 1) (st \<notin> {401, 402, 403}) [] b of
               (b', True) \<Rightarrow> judge_failed (now 2) b' | (b', False) \<Rightarrow> (b', Inl (Refused st)))
          else
            (case breaker_record (now 1) True [] b of
               (b', True) \<Rightarrow> judge_failed (now 2) b'
             | (b', False) \<Rightarrow>
                 (case Option.bind body (\<lambda>j. jget j ''answers'') of
                    None \<Rightarrow> judge_failed (now 2) b'
                  | Some a \<Rightarrow> (b', Inr (Some (jor a (JObj [])))))))"

fun post_from ::
  "(nat \<Rightarrow> nat \<Rightarrow> time) \<Rightarrow> (nat \<Rightarrow> judge_reply) \<Rightarrow> nat \<Rightarrow> rat list \<Rightarrow> breaker \<Rightarrow> breaker \<times> (post_error + jval)" where
  "post_from now replies k delays b =
     (case breaker_check (now k 0) b of
        (b1, Some _) \<Rightarrow> (b1, Inl Circuit_Open)
      | (b1, None) \<Rightarrow>
          (case judge_attempt (now k) (replies k) b1 of
             (b2, Inl e) \<Rightarrow> (b2, Inl e)
           | (b2, Inr (Some a)) \<Rightarrow> (b2, Inr a)
           | (b2, Inr None) \<Rightarrow>
               (case delays of [] \<Rightarrow> (b2, Inl Exhausted) | d # ds \<Rightarrow> post_from now replies (Suc k) ds b2)))"

definition judge_post ::
  "(nat \<Rightarrow> nat \<Rightarrow> time) \<Rightarrow> (nat \<Rightarrow> judge_reply) \<Rightarrow> breaker \<Rightarrow> breaker \<times> (post_error + jval)" where
  "judge_post now replies b = post_from now replies 0 JUDGE_DELAYS b"

definition judge ::
  "settings \<Rightarrow> (string \<Rightarrow> rat option) \<Rightarrow> (judge_body \<Rightarrow> post_error + jval) \<Rightarrow> ranked_email list \<Rightarrow> string \<Rightarrow> string \<Rightarrow>
   judgement option" where
  "judge cfg pf ask ranked domain page_title =
     (if \<not> should_call ranked then Some (rules_only ranked)
      else
        let (body, emails) = build_body cfg ranked domain page_title
        in case ask body of
             Inl _ \<Rightarrow> Some ((rules_only ranked)\<lparr>ju_typesafe_error := True\<rparr>)
           | Inr answers \<Rightarrow> decide cfg pf answers emails ranked)"

section \<open>What a judgement may say\<close>

lemma pick_from_extends: "\<exists>new. pick_from seen picked rs = picked @ new \<and> set new \<subseteq> set rs"
proof (induction rs arbitrary: seen picked)
  case (Cons r rs)
  from Cons.IH [of seen picked] Cons.IH [of "lower (re_email r) # seen" "picked @ [r]"]
  show ?case by (fastforce simp: Let_def)
qed simp

lemma pick_from_distinct:
  assumes "distinct (map (lower \<circ> re_email) picked)" and "set (map (lower \<circ> re_email) picked) = set seen"
  shows "distinct (map (lower \<circ> re_email) (pick_from seen picked rs))"
  using assms by (induction rs arbitrary: seen picked) (auto simp: Let_def)

lemma pick_from_length:
  "length picked < MAX_JUDGE_CANDIDATES \<Longrightarrow> length (pick_from seen picked rs) \<le> MAX_JUDGE_CANDIDATES"
  by (induction rs arbitrary: seen picked) (auto simp: Let_def)

lemma pick_from_first: "re_email r \<in> re_email ` set (pick_from [] [] (r # rs))"
  using pick_from_extends [of "[lower (re_email r)]" "[r]" rs] by (auto simp: Let_def)

definition judged :: "settings \<Rightarrow> ranked_email list \<Rightarrow> string \<Rightarrow> string \<Rightarrow> string list" where
  "judged cfg ranked domain title = snd (build_body cfg ranked domain title)"

lemma judged_eq: "judged cfg ranked domain title = map (lower \<circ> re_email) (pick_from [] [] ranked)"
  by (simp add: judged_def build_body_def Let_def)

lemma judged_facts:
  "distinct (judged cfg ranked domain title) \<and> length (judged cfg ranked domain title) \<le> MAX_JUDGE_CANDIDATES \<and>
   set (judged cfg ranked domain title) \<subseteq> (lower \<circ> re_email) ` set ranked"
  using pick_from_distinct [of "[]" "[]" ranked] pick_from_length [of "[]" "[]" ranked]
    pick_from_extends [of "[]" "[]" ranked]
  by (auto simp: judged_eq MAX_JUDGE_CANDIDATES_def)

lemma judged_first: "lower (re_email r) \<in> set (judged cfg (r # rs) domain title)"
  using pick_from_first [of r rs] unfolding judged_eq by force

lemma belongs_from_keys: "belongs_from pf answers i es = Some bs \<Longrightarrow> map fst bs = es"
  by (induction es arbitrary: i bs) (auto split: Option.bind_splits)

text \<open>What holds of a judgement over the addresses \<open>emails\<close> that the service was asked about.\<close>

definition sound_judgement :: "settings \<Rightarrow> string list \<Rightarrow> judgement \<Rightarrow> bool" where
  "sound_judgement cfg emails j = (
     ju_business_emails j = filter (\<lambda>e. belongs_get (ju_belongs j) e 0 \<ge> typesafe_belongs_min cfg) emails \<and>
     (case ju_best_email j of
        None \<Rightarrow> True
      | Some e \<Rightarrow> e \<in> set (ju_business_emails j) \<and> \<not> ju_said_none j \<and>
          (case ju_confidence j of
             None \<Rightarrow> ju_needs_review j
           | Some c \<Rightarrow> typesafe_confidence_min cfg \<le> c \<and> ju_best_email_source j = Some By_Typesafe)))"

lemma verdict_sound:
  assumes "map fst belongs = emails" and "\<And>r rs. ranked = r # rs \<Longrightarrow> lower (re_email r) \<in> set emails"
  shows "sound_judgement cfg emails (verdict cfg choice confidence belongs site emails ranked)"
proof -
  define business where "business = filter (\<lambda>e. belongs_get belongs e 0 \<ge> typesafe_belongs_min cfg) emails"
  have known: "belongs_get belongs e 1 = belongs_get belongs e 0" if "e \<in> set emails" for e
  proof -
    from that assms(1) have "map_of belongs e \<noteq> None" by (auto simp: map_of_eq_None_iff)
    then show ?thesis by (auto simp: belongs_get_def)
  qed
  have first: "lower (re_email r) \<in> set business \<or> belongs_get belongs (lower (re_email r)) 1 < typesafe_belongs_min cfg"
    if "ranked = r # rs" for r rs
    using assms(2) [OF that] known by (auto simp: business_def)
  have head: "b \<in> set business" if "business = b # bs" for b bs using that by simp
  have pick: "choice \<in> set business" if "choice \<in> set emails" "belongs_get belongs choice 0 \<ge> typesafe_belongs_min cfg"
    using that by (simp add: business_def)
  show ?thesis
    unfolding sound_judgement_def verdict_def Let_def business_def [symmetric]
    using first head pick
    by (auto simp: Judgment_def business_def [symmetric] split: list.split option.split)
qed

lemma verdict_called [simp]: "ju_typesafe_called (verdict cfg choice confidence belongs site emails ranked)"
  by (simp add: verdict_def Let_def)

lemma read_answers_keys:
  assumes "read_answers pf answers emails = Some (choice, confidence, belongs, site)"
  shows "map fst belongs = emails"
proof -
  from assms have "belongs_from pf answers 0 emails = Some belongs"
    unfolding read_answers_def Option.bind_eq_Some_conv by (elim exE conjE) simp
  then show ?thesis by (rule belongs_from_keys)
qed

lemma decide_verdict:
  assumes "decide cfg pf answers emails ranked = Some j"
  shows "\<exists>choice confidence belongs site. map fst belongs = emails \<and>
    j = verdict cfg choice confidence belongs site emails ranked"
  using assms read_answers_keys [of pf answers emails] unfolding decide_def by force

lemma rules_only_not_called [simp]: "\<not> ju_typesafe_called (rules_only ranked)" "\<not> ju_typesafe_error (rules_only ranked)"
  by (simp_all add: rules_only_def Judgment_def split: list.split)

lemma rules_only_flag: "(rules_only ranked)\<lparr>ju_typesafe_error := False\<rparr> = rules_only ranked"
  by (simp add: rules_only_def Judgment_def split: list.split)

text \<open>An answer of the wrong shape is no failure of the call, so no fallback catches it.\<close>

lemma malformed_answer_raises:
  "should_call ranked \<Longrightarrow> ask (fst (build_body cfg ranked domain title)) = Inr (JList vs) \<Longrightarrow>
   judge cfg pf ask ranked domain title = None"
  by (simp add: judge_def decide_def read_answers_def split_def)

lemma judge_cases:
  assumes "judge cfg pf ask ranked domain title = Some j"
  shows "\<not> should_call ranked \<and> j = rules_only ranked \<or>
    should_call ranked \<and> j = (rules_only ranked)\<lparr>ju_typesafe_error := True\<rparr> \<or>
    (\<exists>answers. decide cfg pf answers (judged cfg ranked domain title) ranked = Some j)"
proof (cases "should_call ranked")
  case False
  with assms show ?thesis unfolding judge_def by simp
next
  case called: True
  obtain body emails where b: "build_body cfg ranked domain title = (body, emails)" by force
  show ?thesis
  proof (cases "ask body")
    case (Inl e)
    with assms called have "j = (rules_only ranked)\<lparr>ju_typesafe_error := True\<rparr>"
      unfolding judge_def b by simp
    with called show ?thesis by blast
  next
    case (Inr answers)
    with assms called have "decide cfg pf answers emails ranked = Some j" unfolding judge_def b by simp
    moreover have "judged cfg ranked domain title = emails" unfolding judged_def b by simp
    ultimately show ?thesis by blast
  qed
qed

lemma judge_facts:
  assumes "judge cfg pf ask ranked domain title = Some j"
  shows "(if ju_typesafe_called j then sound_judgement cfg (judged cfg ranked domain title) j
          else j\<lparr>ju_typesafe_error := False\<rparr> = rules_only ranked \<and> ju_typesafe_error j = should_call ranked) \<and>
    distinct (judged cfg ranked domain title) \<and> length (judged cfg ranked domain title) \<le> MAX_JUDGE_CANDIDATES \<and>
    set (judged cfg ranked domain title) \<subseteq> (lower \<circ> re_email) ` set ranked"
proof (rule conjI [OF _ judged_facts])
  show "if ju_typesafe_called j then sound_judgement cfg (judged cfg ranked domain title) j
      else j\<lparr>ju_typesafe_error := False\<rparr> = rules_only ranked \<and> ju_typesafe_error j = should_call ranked"
    using judge_cases [OF assms]
  proof (elim disjE)
    assume "\<not> should_call ranked \<and> j = rules_only ranked"
    then show ?thesis by (simp add: rules_only_flag)
  next
    assume "should_call ranked \<and> j = (rules_only ranked)\<lparr>ju_typesafe_error := True\<rparr>"
    then show ?thesis by (simp add: rules_only_flag)
  next
    assume "\<exists>answers. decide cfg pf answers (judged cfg ranked domain title) ranked = Some j"
    then obtain choice confidence belongs site
      where b: "map fst belongs = judged cfg ranked domain title"
        and j: "j = verdict cfg choice confidence belongs site (judged cfg ranked domain title) ranked"
      using decide_verdict by blast
    have "sound_judgement cfg (judged cfg ranked domain title) j"
      unfolding j by (rule verdict_sound [OF b]) (simp add: judged_first)
    moreover have "ju_typesafe_called j" unfolding j by simp
    ultimately show ?thesis by simp
  qed
qed


definition s_ranked :: "ranked_email list" where
  "s_ranked = [\<lparr>re_candidate = s_cand 1 ''web@pixel.com'' Mailto, re_rank = 1, re_own = True, re_role = False, re_free = False\<rparr>,
     \<lparr>re_candidate = s_cand 2 ''bob@acme.com'' Text, re_rank = 1, re_own = True, re_role = False, re_free = False\<rparr>]"

definition s_answers :: jval where
  "s_answers = JObj [(''best_contact'', JObj [(''choice'', JStr ''web@pixel.com''), (''confidence'', JNum (1 / 2))]),
     (''belongs_0'', JObj [(''noul'', JNum (1 / 10))]), (''belongs_1'', JObj [(''noul'', JNum (9 / 10))])]"

definition s_judged :: "judgement option" where
  "s_judged = judge settings_default (\<lambda>_. None) (\<lambda>_. Inr s_answers) s_ranked ''acme.com'' []"


end
