(* ===== verification/Normalize.thy ===== *)
theory Normalize
  imports Emails
begin

text \<open>
  Turning an input cell into the key of a crawl, \<open>src/app/pipeline/normalize.py\<close>. The public
  suffix list is the parameter \<open>tx\<close>; encoding of a host as IDNA, with the fallback of
  \<open>_to_punycode\<close> when the codec refuses, is the parameter \<open>puny\<close>.
\<close>

section \<open>Tables and patterns\<close>

definition NULL_TOKENS :: "string list" where
  "NULL_TOKENS = ['''', ''-'', ''--'', ''n/a'', ''na'', ''none'', ''null'', ''nil'', ''#n/a'', ''#na'',
     ''not available'', ''unknown'', ''tbd'', ''.'']"

definition SITE_BUILDER_SUFFIXES :: "string list" where
  "SITE_BUILDER_SUFFIXES = [''wixsite.com'', ''squarespace.com'', ''godaddysites.com'', ''weebly.com'', ''square.site'',
     ''webflow.io'', ''wordpress.com'', ''blogspot.com'', ''myshopify.com'', ''carrd.co'', ''editorx.io'']"

definition PATH_SCOPED_SUFFIXES :: "string list" where
  "PATH_SCOPED_SUFFIXES = [''wixsite.com'']"

definition SOCIAL_HOSTS :: "string list" where
  "SOCIAL_HOSTS = [''facebook.com'', ''fb.com'', ''instagram.com'', ''linkedin.com'', ''yelp.com'', ''g.page'',
     ''business.site'', ''linktr.ee'', ''x.com'', ''twitter.com'', ''youtube.com'', ''angi.com'',
     ''homeadvisor.com'', ''thumbtack.com'', ''bbb.org'', ''nextdoor.com'', ''tiktok.com'']"

definition SOCIAL_PATH_HOSTS :: "(string \<times> string list) list" where
  "SOCIAL_PATH_HOSTS = [(''google.com'', [''/maps'']), (''goo.gl'', [''/maps''])]"

definition FREE_EMAIL_LABELS :: "string list" where
  "FREE_EMAIL_LABELS = [''gmail'', ''yahoo'', ''hotmail'', ''outlook'', ''aol'', ''icloud'', ''msn'', ''live'', ''comcast'',
     ''att'', ''sbcglobal'', ''verizon'', ''bellsouth'', ''me'', ''ymail'', ''protonmail'', ''mail'']"

text \<open>The range U+00A1 to U+FFFF of the patterns, within Latin-1.\<close>

definition is_wide :: "char \<Rightarrow> bool" where
  "is_wide c = (0xA1 \<le> ordc c)"

definition host_edge :: "char \<Rightarrow> bool" where
  "host_edge c = (ascii_alnum c \<or> is_wide c)"

definition SEPARATORS :: rx where
  "SEPARATORS = Alt (plus (chars_in ('',;|'' @ [CHR 0x0A, CHR 0x0D, CHR 0x09])))
     (seqs [plus (Chr is_space), lit ''/'', plus (Chr is_space)])"

definition HOSTISH :: rx where
  "HOSTISH = seqs
     [Chr host_edge, opt (Seq (star (Chr (\<lambda>c. host_edge c \<or> c \<in> set ''._-''))) (Chr host_edge)),
      lit ''.'', rep 2 24 (Chr (\<lambda>c. is_ascii_letter c \<or> is_wide c))]"

definition IPV4_RX :: rx where
  "IPV4_RX = seqs [Bol, rep 1 3 (Chr is_digit), rep 3 3 (Seq (lit ''.'') (rep 1 3 (Chr is_digit))), Eol]"

definition valid_edge :: "char \<Rightarrow> bool" where
  "valid_edge c = (is_lower_az c \<or> is_digit c \<or> is_wide c)"

definition VALID_HOST :: rx where
  "VALID_HOST = seqs [Bol, Chr valid_edge,
     opt (Seq (star (Chr (\<lambda>c. valid_edge c \<or> c \<in> set ''.-''))) (Chr valid_edge)), Eol]"

definition WWW :: rx where
  "WWW = seqs [Bol, lit ''www'', star (Chr is_digit), lit ''.'']"

section \<open>Operations\<close>

record normalized_input =
  ni_domain :: "string option"
  ni_display :: string
  ni_invalid :: bool
  ni_reason :: "string option"
  ni_source :: string
  ni_notes :: "string list"

definition ni_ok :: "normalized_input \<Rightarrow> bool" where
  "ni_ok n = (ni_domain n \<noteq> None \<and> \<not> ni_invalid n)"

definition invalid_input :: "string \<Rightarrow> string \<Rightarrow> string \<Rightarrow> string list \<Rightarrow> normalized_input" where
  "invalid_input display reason source notes = \<lparr>ni_domain = None, ni_display = display, ni_invalid = True,
     ni_reason = Some reason, ni_source = source, ni_notes = notes\<rparr>"

definition valid_input :: "string \<Rightarrow> string \<Rightarrow> string \<Rightarrow> string list \<Rightarrow> normalized_input" where
  "valid_input key display source notes = \<lparr>ni_domain = Some key, ni_display = display, ni_invalid = False,
     ni_reason = None, ni_source = source, ni_notes = notes\<rparr>"

definition fragments :: "string \<Rightarrow> string list" where
  "fragments value =
     (let parts = filter (\<lambda>p. p \<noteq> []) (map strip (rx_split SEPARATORS value))
      in if parts \<noteq> [] then parts else if strip value \<noteq> [] then [strip value] else [])"

definition token_edge :: "char \<Rightarrow> bool" where
  "token_edge c = (c \<in> set '' ()[]{}<>'' \<or> c \<in> {CHR 0x09, CHR 0x22, CHR 0x27, CHR 0x60})"

definition host_tokens :: "string \<Rightarrow> string list" where
  "host_tokens fragment =
     (let cleaned = strip_by token_edge fragment
      in (if cleaned \<noteq> [] then [cleaned] else []) @ rx_findall HOSTISH fragment)"

definition host_and_path :: "string \<Rightarrow> (string \<times> string) option" where
  "host_and_path token =
     (let cand = if contains ''//'' token then token
                 else ''http://'' @ lstrip_by (\<lambda>c. c = CHR ''/'') token
      in case urlsplit cand of
           None \<Rightarrow> None
         | Some parts \<Rightarrow>
             let host = rstrip_by (\<lambda>c. c = CHR ''.'') (lower (strip (or_empty (hostname parts))))
             in if host = [] \<or> CHR ''.'' \<notin> set host then None
                else if rx_match VALID_HOST host = None \<or> contains ''..'' host then None
                else if list_ex (\<lambda>l. l = []) (split_on ''.'' host) then None
                else Some (host, ul_path parts))"

definition in_site :: "string \<Rightarrow> string \<Rightarrow> bool" where
  "in_site host h = (host = h \<or> endswith (''.'' @ h) host)"

definition site_builder_suffix :: "string \<Rightarrow> string option" where
  "site_builder_suffix host = find (in_site host) SITE_BUILDER_SUFFIXES"

definition is_social :: "string \<Rightarrow> string \<Rightarrow> bool" where
  "is_social host path =
     (list_ex (in_site host) SOCIAL_HOSTS \<or>
      list_ex (\<lambda>(h, prefixes). in_site host h \<and> list_ex (\<lambda>p. startswith p path) prefixes) SOCIAL_PATH_HOSTS)"

definition registrable :: "tld_lib \<Rightarrow> string \<Rightarrow> string" where
  "registrable tx host = (if site_builder_suffix host \<noteq> None then host else tx_registered tx host)"

text \<open>The body of the loop over tokens: \<open>None\<close> is \<open>continue\<close>.\<close>

definition normalize_token ::
  "tld_lib \<Rightarrow> (string \<Rightarrow> string option) \<Rightarrow> string \<Rightarrow> string list \<Rightarrow> string \<Rightarrow> string \<Rightarrow> normalized_input option" where
  "normalize_token tx puny display notes source token =
     (case host_and_path token of
        None \<Rightarrow> None
      | Some (host0, path) \<Rightarrow>
          if rx_match IPV4_RX host0 \<noteq> None then Some (invalid_input display ''not_a_url'' ''website'' notes)
          else
            case puny (rx_sub WWW (\<lambda>_. []) host0) of
              None \<Rightarrow> None
            | Some host \<Rightarrow>
                if host = [] \<or> CHR ''.'' \<notin> set host then None
                else if is_social host path then Some (invalid_input display ''social_or_directory'' ''website'' notes)
                else
                  case site_builder_suffix host of
                    Some suffix \<Rightarrow>
                      if host = suffix then Some (invalid_input display ''social_or_directory'' ''website'' notes)
                      else
                        let first = (case filter (\<lambda>s. s \<noteq> []) (split_on ''/'' path) of [] \<Rightarrow> [] | s # _ \<Rightarrow> s);
                            key = if suffix \<in> set PATH_SCOPED_SUFFIXES \<and> first \<noteq> [] then host @ ''/'' @ first else host
                        in Some (valid_input key display source notes)
                  | None \<Rightarrow>
                      if tx_registered tx host \<noteq> [] then Some (valid_input (tx_registered tx host) display source notes)
                      else None)"

fun first_some :: "('a \<Rightarrow> 'b option) \<Rightarrow> 'a list \<Rightarrow> 'b option" where
  "first_some f [] = None"
| "first_some f (x # xs) = (case f x of Some y \<Rightarrow> Some y | None \<Rightarrow> first_some f xs)"

definition normalize_fragment ::
  "tld_lib \<Rightarrow> (string \<Rightarrow> string option) \<Rightarrow> string \<Rightarrow> string list \<Rightarrow> string \<Rightarrow> normalized_input option" where
  "normalize_fragment tx puny display notes fragment =
     (let tokens_of = (\<lambda>source work. first_some (normalize_token tx puny display notes source) (host_tokens work));
          low = lower fragment
      in if CHR ''@'' \<in> set fragment \<and> \<not> startswith ''http://'' low \<and> \<not> startswith ''https://'' low
         then case rpartition_at ''@'' fragment of
                Some (loc, rest) \<Rightarrow>
                  if loc \<noteq> [] \<and> CHR ''.'' \<in> set rest
                  then if tx_domain tx (rstrip_by (\<lambda>c. c = CHR ''.'') (lower (strip rest))) \<in> set FREE_EMAIL_LABELS
                       then Some (invalid_input display ''free_email_only'' ''email'' notes)
                       else tokens_of ''email'' rest
                  else tokens_of ''website'' fragment
              | None \<Rightarrow> tokens_of ''website'' fragment
         else tokens_of ''website'' fragment)"

definition normalize_input :: "tld_lib \<Rightarrow> (string \<Rightarrow> string option) \<Rightarrow> string \<Rightarrow> normalized_input" where
  "normalize_input tx puny raw =
     (let value = strip raw
      in if lower value \<in> set NULL_TOKENS then invalid_input value ''empty'' ''website'' []
         else
           let frags = fragments value; notes = (if 1 < length frags then [''multiple_values''] else [])
           in if frags = [] then invalid_input value ''empty'' ''website'' []
              else case first_some (normalize_fragment tx puny value notes) frags of
                     Some r \<Rightarrow> r
                   | None \<Rightarrow> invalid_input value ''not_a_url'' ''website'' notes)"

definition crawl_url :: "string \<Rightarrow> string \<Rightarrow> bool \<Rightarrow> string" where
  "crawl_url domain scheme www =
     (let (host, rest) = partition_at ''/'' domain; path = or_empty rest
      in scheme @ ''://'' @ (if www then ''www.'' else []) @ host @ ''/'' @ (if path \<noteq> [] then path @ ''/'' else []))"

definition host_of_key :: "string \<Rightarrow> string" where
  "host_of_key domain = fst (partition_at ''/'' domain)"

section \<open>What a key is\<close>

lemma first_some_Some: "first_some f xs = Some y \<Longrightarrow> \<exists>x \<in> set xs. f x = Some y"
  by (induction xs) (auto split: option.splits)

lemma in_site_trans: "in_site a b \<Longrightarrow> in_site b c \<Longrightarrow> in_site a c"
  by (auto simp: in_site_def endswith_iff)

definition good_key :: "string \<Rightarrow> bool" where
  "good_key key = (let host = host_of_key key
     in \<not> list_ex (in_site host) SOCIAL_HOSTS \<and> host \<notin> set SITE_BUILDER_SUFFIXES)"

lemma find_in_site_None: "find (in_site host) hs = None \<Longrightarrow> h \<in> set hs \<Longrightarrow> \<not> in_site host h"
  by (auto simp: find_None_iff)

lemma host_of_key_plain: "CHR ''/'' \<notin> set host \<Longrightarrow> host_of_key host = host"
  by (auto simp: host_of_key_def partition_char)

lemma host_of_key_scoped: "CHR ''/'' \<notin> set host \<Longrightarrow> host_of_key (host @ ''/'' @ first) = host"
proof -
  assume "CHR ''/'' \<notin> set host"
  then have "takeWhile (\<lambda>x. x \<noteq> CHR ''/'') (host @ CHR ''/'' # first) = host"
    by (subst takeWhile_append2) auto
  then show ?thesis by (simp add: host_of_key_def partition_char)
qed

lemma builders_apart: "a \<in> set SITE_BUILDER_SUFFIXES \<Longrightarrow> b \<in> set SITE_BUILDER_SUFFIXES \<Longrightarrow> in_site a b \<Longrightarrow> a = b"
proof -
  have "list_all (\<lambda>a. list_all (\<lambda>b. in_site a b \<longrightarrow> a = b) SITE_BUILDER_SUFFIXES) SITE_BUILDER_SUFFIXES"
    by code_simp
  then show "a \<in> set SITE_BUILDER_SUFFIXES \<Longrightarrow> b \<in> set SITE_BUILDER_SUFFIXES \<Longrightarrow> in_site a b \<Longrightarrow> a = b"
    by (auto simp: list_all_iff)
qed

lemma in_site_chars: "in_site host r \<Longrightarrow> c \<notin> set host \<Longrightarrow> c \<notin> set r"
  by (auto simp: in_site_def endswith_iff)

lemma builder_key:
  assumes "site_builder_suffix host = Some suffix" and "host \<noteq> suffix"
  shows "host \<notin> set SITE_BUILDER_SUFFIXES"
proof
  assume h: "host \<in> set SITE_BUILDER_SUFFIXES"
  from assms(1) have "in_site host suffix" and "suffix \<in> set SITE_BUILDER_SUFFIXES"
    by (auto simp: site_builder_suffix_def find_Some_iff)
  with builders_apart [OF h] assms(2) show False by blast
qed

lemma root_key:
  assumes "in_site host r" and "\<not> list_ex (in_site host) SOCIAL_HOSTS" and "site_builder_suffix host = None"
  shows "\<not> list_ex (in_site r) SOCIAL_HOSTS \<and> r \<notin> set SITE_BUILDER_SUFFIXES"
  using assms in_site_trans [OF assms(1)] find_in_site_None
  by (auto simp: list_ex_iff site_builder_suffix_def)

lemma normalize_token_key:
  assumes tx: "\<And>h. tx_registered tx h \<noteq> [] \<Longrightarrow> in_site h (tx_registered tx h)"
    and puny: "\<And>h h'. puny h = Some h' \<Longrightarrow> CHR ''/'' \<notin> set h'"
    and r: "normalize_token tx puny display notes source token = Some r" and key: "ni_domain r = Some key"
  shows "good_key key"
proof -
  from r key obtain host0 path host where p: "puny (rx_sub WWW (\<lambda>_. []) host0) = Some host"
    and social: "\<not> is_social host path"
    and rest: "(\<exists>suffix. site_builder_suffix host = Some suffix \<and> host \<noteq> suffix \<and> (key = host \<or> (\<exists>first. key = host @ ''/'' @ first))) \<or>
      site_builder_suffix host = None \<and> tx_registered tx host \<noteq> [] \<and> key = tx_registered tx host"
    by (auto simp: normalize_token_def invalid_input_def valid_input_def Let_def split: option.splits if_splits)
  note slash = puny [OF p]
  from social have social: "\<not> list_ex (in_site host) SOCIAL_HOSTS" by (simp add: is_social_def)
  from rest show ?thesis
  proof (elim disjE exE conjE)
    fix suffix assume "site_builder_suffix host = Some suffix" "host \<noteq> suffix" "key = host"
    then show ?thesis using social builder_key host_of_key_plain [OF slash] by (simp add: good_key_def)
  next
    fix suffix first assume "site_builder_suffix host = Some suffix" "host \<noteq> suffix" "key = host @ ''/'' @ first"
    then show ?thesis using social builder_key host_of_key_scoped [OF slash] by (simp add: good_key_def)
  next
    assume a: "site_builder_suffix host = None" "tx_registered tx host \<noteq> []" "key = tx_registered tx host"
    note site = tx [OF a(2)]
    show ?thesis
      using root_key [OF site social a(1)] host_of_key_plain [OF in_site_chars [OF site slash]] a(3)
      by (simp add: good_key_def)
  qed
qed

lemma normalize_token_form:
  assumes "normalize_token tx puny display notes source token = Some r"
  shows "ni_invalid r = (ni_domain r = None) \<and> ni_invalid r = (ni_reason r \<noteq> None)"
  using assms by (auto simp: normalize_token_def invalid_input_def valid_input_def Let_def split: option.splits if_splits)

lemma normalize_fragment_cases:
  assumes "normalize_fragment tx puny display ns frag = Some r"
  shows "r = invalid_input display ''free_email_only'' ''email'' ns \<or>
    (\<exists>source token. normalize_token tx puny display ns source token = Some r)"
proof -
  define run_tokens where
    "run_tokens = (\<lambda>source work. first_some (normalize_token tx puny display ns source) (host_tokens work))"
  have found: "\<exists>source token. normalize_token tx puny display ns source token = Some r"
    if "run_tokens source work = Some r" for source work
    using first_some_Some [OF that [unfolded run_tokens_def]] by blast
  from assms show ?thesis
    unfolding normalize_fragment_def run_tokens_def [symmetric] Let_def
    by (simp split: if_splits option.splits prod.splits) (blast intro: found)+
qed

lemma normalize_fragment_key:
  assumes tx: "\<And>h. tx_registered tx h \<noteq> [] \<Longrightarrow> in_site h (tx_registered tx h)"
    and puny: "\<And>h h'. puny h = Some h' \<Longrightarrow> CHR ''/'' \<notin> set h'"
    and r: "normalize_fragment tx puny display ns frag = Some r" and key: "ni_domain r = Some key"
  shows "good_key key"
  using normalize_fragment_cases [OF r] normalize_token_key [OF tx puny _ key] key
  by (auto simp: invalid_input_def)

lemma normalize_fragment_form:
  assumes "normalize_fragment tx puny display ns frag = Some r"
  shows "ni_invalid r = (ni_domain r = None) \<and> ni_invalid r = (ni_reason r \<noteq> None)"
proof -
  from normalize_fragment_cases [OF assms] show ?thesis
  proof
    assume "r = invalid_input display ''free_email_only'' ''email'' ns"
    then show ?thesis by (simp add: invalid_input_def)
  next
    assume "\<exists>source token. normalize_token tx puny display ns source token = Some r"
    then show ?thesis using normalize_token_form by blast
  qed
qed

lemma normalize_facts:
  assumes "\<And>h. tx_registered tx h \<noteq> [] \<Longrightarrow> in_site h (tx_registered tx h)"
    and "\<And>h h'. puny h = Some h' \<Longrightarrow> CHR ''/'' \<notin> set h'"
  shows "case ni_domain (normalize_input tx puny raw) of
      Some key \<Rightarrow> good_key key \<and> ni_ok (normalize_input tx puny raw)
    | None \<Rightarrow> \<not> ni_ok (normalize_input tx puny raw) \<and> ni_reason (normalize_input tx puny raw) \<noteq> None"
proof -
  define frags where "frags = fragments (strip raw)"
  define ns where "ns = (if 1 < length frags then [''multiple_values''] else [])"
  have "(\<exists>reason ms. normalize_input tx puny raw = invalid_input (strip raw) reason ''website'' ms) \<or>
      (\<exists>frag. normalize_fragment tx puny (strip raw) ns frag = Some (normalize_input tx puny raw))"
    unfolding normalize_input_def Let_def frags_def [symmetric] ns_def [symmetric]
    by (auto dest: first_some_Some split: option.split)
  then show ?thesis
  proof (elim disjE exE)
    fix reason ms
    assume "normalize_input tx puny raw = invalid_input (strip raw) reason ''website'' ms"
    then show ?thesis by (simp add: invalid_input_def ni_ok_def)
  next
    fix frag
    assume "normalize_fragment tx puny (strip raw) ns frag = Some (normalize_input tx puny raw)"
    from normalize_fragment_key [OF assms this] normalize_fragment_form [OF this] show ?thesis
      by (auto simp: ni_ok_def split: option.split)
  qed
qed

text \<open>
  C39: A crawl key is a business's own site. Given that a registered domain is the host itself or
  a parent of it and that IDNA encoding makes no slash, the key of an accepted cell is never
  on a social network or a directory, and never the root of a site builder's platform, under
  which all of its customers would collapse into one row; and a cell that gives no key is
  refused with a reason.
\<close>

theorem normalize_key:
  assumes "\<And>h. tx_registered tx h \<noteq> [] \<Longrightarrow> in_site h (tx_registered tx h)"
    and "\<And>h h'. puny h = Some h' \<Longrightarrow> CHR ''/'' \<notin> set h'"
  shows "case ni_domain (normalize_input tx puny raw) of
      Some key \<Rightarrow> good_key key \<and> ni_ok (normalize_input tx puny raw)
    | None \<Rightarrow> \<not> ni_ok (normalize_input tx puny raw) \<and> ni_reason (normalize_input tx puny raw) \<noteq> None"
  using assms by (rule normalize_facts)

definition s_reg :: tld_lib where
  "s_reg = \<lparr>tx_domain = (\<lambda>d. []), tx_suffix = (\<lambda>d. []), tx_registered = id\<rparr>"

definition s_puny :: "string \<Rightarrow> string option" where
  "s_puny h = (if CHR ''/'' \<in> set h then None else Some h)"

theorem normalize_key_witness:
  "ni_domain (normalize_input s_reg s_puny ''https://bob.wixsite.com/acme/home'') = Some ''bob.wixsite.com/acme'' \<and>
   good_key ''bob.wixsite.com/acme'' \<and>
   ni_reason (normalize_input s_reg s_puny ''www.facebook.com/acme'') = Some ''social_or_directory''"
proof -
  have a: "ni_domain (normalize_input s_reg s_puny ''https://bob.wixsite.com/acme/home'') = Some ''bob.wixsite.com/acme''"
    by code_simp
  have b: "ni_reason (normalize_input s_reg s_puny ''www.facebook.com/acme'') = Some ''social_or_directory''"
    by code_simp
  have tx: "in_site h (tx_registered s_reg h)" for h by (simp add: in_site_def s_reg_def)
  have puny: "CHR ''/'' \<notin> set h'" if "s_puny h = Some h'" for h h'
    using that by (auto simp: s_puny_def split: if_splits)
  have "case ni_domain (normalize_input s_reg s_puny ''https://bob.wixsite.com/acme/home'') of
      Some key \<Rightarrow> good_key key \<and> ni_ok (normalize_input s_reg s_puny ''https://bob.wixsite.com/acme/home'')
    | None \<Rightarrow> \<not> ni_ok (normalize_input s_reg s_puny ''https://bob.wixsite.com/acme/home'') \<and>
        ni_reason (normalize_input s_reg s_puny ''https://bob.wixsite.com/acme/home'') \<noteq> None"
    by (rule normalize_key) (simp_all add: tx puny)
  with a b show ?thesis by simp
qed

end
