(* ===== verification/Score.thy ===== *)
theory Score
  imports Normalize "HOL-Library.Product_Lexorder" "HOL-Library.List_Lexorder" "HOL-Library.Char_ord"
    "HOL-Library.Monad_Syntax"
begin

text \<open>
  Scoring and selection of the pages of a site, \<open>src/app/pipeline/discovery/score.py\<close>. Splitting
  a malformed URL, or reading a port that is no number, raises \<open>ValueError\<close> in Python: the value
  None of the outer option of \<open>canonical\<close> and \<open>score_url\<close>.
\<close>

section \<open>Tables and patterns\<close>

definition TIERS :: "(string \<times> int \<times> string list) list" where
  "TIERS =
     [(''contact'', 100, [''contact'', ''contact-us'', ''contactus'', ''get-in-touch'', ''reach-us'']),
      (''quote'', 80, [''quote'', ''get-a-quote'', ''request-a-quote'', ''free-estimate'', ''estimate'',
         ''schedule'', ''book'', ''booking'', ''appointment'']),
      (''about'', 60, [''about'', ''about-us'', ''our-story'', ''team'', ''our-team'', ''leadership'', ''staff'',
         ''meet-the-team'', ''company'', ''who-we-are'']),
      (''legal'', 40, [''privacy'', ''privacy-policy'', ''accessibility'', ''terms'', ''terms-of-service'', ''legal'']),
      (''locations'', 20, [''locations'', ''location'', ''offices'', ''careers'', ''jobs''])]"

definition ANCHOR_BONUS :: int where "ANCHOR_BONUS = 10"

definition EXCLUDED_SEGMENTS :: "string list" where
  "EXCLUDED_SEGMENTS = [''blog'', ''news'', ''tag'', ''tags'', ''category'', ''categories'', ''product'', ''products'',
     ''shop'', ''cart'', ''checkout'', ''account'', ''login'', ''wp-admin'', ''feed'', ''rss'', ''author'', ''search'']"

definition FORBIDDEN_PREFIXES :: "string list" where
  "FORBIDDEN_PREFIXES = [''/wp-admin'', ''/cart'', ''/checkout'', ''/account'', ''/login'']"

definition ASSET_EXTENSIONS :: "string list" where
  "ASSET_EXTENSIONS = [''pdf'', ''jpg'', ''jpeg'', ''png'', ''gif'', ''svg'', ''webp'', ''bmp'', ''ico'', ''avif'', ''tif'', ''tiff'',
     ''zip'', ''gz'', ''tar'', ''rar'', ''7z'', ''doc'', ''docx'', ''xls'', ''xlsx'', ''ppt'', ''pptx'', ''rtf'',
     ''mp4'', ''mp3'', ''wav'', ''mov'', ''avi'', ''webm'', ''css'', ''js'', ''json'', ''xml'', ''rss'', ''atom'',
     ''woff'', ''woff2'', ''ttf'', ''eot'', ''otf'', ''csv'', ''txt'', ''exe'', ''dmg'', ''apk'']"

definition YEAR :: rx where
  "YEAR = seqs [Bol, Alt (lit ''19'') (lit ''20''), Chr is_digit, Chr is_digit, Eol]"

definition INDEX :: rx where
  "INDEX = seqs [ilit ''/index.'', alts [Seq (ilit ''htm'') (opt (ilit ''l'')), ilit ''php'', Seq (ilit ''asp'') (opt (ilit ''x'')),
     ilit ''jsp'', ilit ''cfm'', ilit ''shtml''], Eol]"

definition WS :: rx where
  "WS = plus (Chr is_space)"

text \<open>The keywords, longest first, with \<open>\s+\<close> for a space.\<close>

definition ANCHOR_RE :: rx where
  "ANCHOR_RE = seqs [Wordb, alts
     [seqs [ilit ''meet'', WS, ilit ''the'', WS, ilit ''team''], ilit ''accessibility'',
      seqs [ilit ''get'', WS, ilit ''in'', WS, ilit ''touch''], ilit ''locations'', ilit ''estimate'', ilit ''schedule'',
      seqs [ilit ''our'', WS, ilit ''team''], ilit ''contact'', ilit ''privacy'', ilit ''careers'', ilit ''quote'',
      ilit ''about''], Wordb]"

section \<open>Operations\<close>

record scored_url =
  su_url :: string
  su_score :: int
  su_tier :: "string option"
  su_depth :: nat
  su_anchor :: string
  su_fetch_url :: string

definition target :: "scored_url \<Rightarrow> string" where
  "target c = (if su_fetch_url c \<noteq> [] then su_fetch_url c else su_url c)"

definition canonical :: "string \<Rightarrow> string option" where
  "canonical url =
     do {
       parts \<leftarrow> urlsplit url;
       port \<leftarrow> port_of parts;
       let host0 = lower (or_empty (hostname parts));
       let host1 = (if startswith ''www.'' host0 then drop 4 host0 else host0);
       let host = (case port of
           Some n \<Rightarrow> if n \<noteq> 0 \<and> n \<noteq> 80 \<and> n \<noteq> 443 then host1 @ '':'' @ str_int n else host1
         | None \<Rightarrow> host1);
       let path0 = lower (rx_sub INDEX (\<lambda>_. ''/'') (if ul_path parts \<noteq> [] then ul_path parts else ''/''));
       let stripped = rstrip_by (\<lambda>c. c = CHR ''/'') path0;
       let path = (if 1 < length path0 then (if stripped \<noteq> [] then stripped else ''/'') else path0);
       Some (urlunsplit \<lparr>ul_scheme = ''https'', ul_netloc = host, ul_path = path, ul_query = [], ul_fragment = []\<rparr>)
     }"

definition segments :: "string \<Rightarrow> string list" where
  "segments path = filter (\<lambda>s. s \<noteq> []) (split_on ''/'' path)"

definition tokens :: "string \<Rightarrow> string list" where
  "tokens segment = filter (\<lambda>t. t \<noteq> []) (rx_split (plus (chars_in ''-_'')) segment)"

definition isalnum :: "string \<Rightarrow> bool" where
  "isalnum s = (s \<noteq> [] \<and> list_all is_alnum s)"

definition extension_of :: "string \<Rightarrow> string option" where
  "extension_of path =
     (let segs = segments path
      in if segs = [] then None
         else case rpartition_at ''.'' (List.last segs) of
                None \<Rightarrow> None
              | Some (_, e) \<Rightarrow> let ext = lower e in if isalnum ext \<and> length ext \<le> 5 then Some ext else None)"

definition is_excluded :: "string \<Rightarrow> bool" where
  "is_excluded path =
     (let low = lower path
      in list_ex (\<lambda>p. startswith p low) FORBIDDEN_PREFIXES \<or>
         list_ex (\<lambda>seg. seg \<in> set EXCLUDED_SEGMENTS \<or> rx_match YEAR seg \<noteq> None) (segments low) \<or>
         (case extension_of low of None \<Rightarrow> False | Some ext \<Rightarrow> ext \<in> set ASSET_EXTENSIONS))"

fun first_tier :: "(string \<times> int \<times> string list) list \<Rightarrow> string list \<Rightarrow> string option \<times> int" where
  "first_tier [] words = (None, 0)"
| "first_tier ((name, score, keywords) # ts) words =
     (if list_ex (\<lambda>k. k \<in> set words) keywords then (Some name, score) else first_tier ts words)"

definition tier_for :: "string \<Rightarrow> string option \<times> int" where
  "tier_for path =
     (let segs = map lower (segments path) in first_tier TIERS (segs @ concat (map tokens segs)))"

definition anchor_matches :: "string \<Rightarrow> bool" where
  "anchor_matches anchor =
     (let a = strip (rx_sub WS (\<lambda>_. '' '') (lower anchor)) in a \<noteq> [] \<and> rx_search ANCHOR_RE a \<noteq> None)"

definition score_url :: "string \<Rightarrow> string \<Rightarrow> scored_url option option" where
  "score_url url anchor =
     do {
       parts \<leftarrow> urlsplit url;
       let raw_path = (if ul_path parts \<noteq> [] then ul_path parts else ''/'');
       if is_excluded raw_path then Some None
       else do {
         let (tier, base) = tier_for raw_path;
         let points = base + (if anchor_matches anchor then ANCHOR_BONUS else 0);
         if points \<le> 0 then Some None
         else do {
           canon \<leftarrow> canonical url;
           cparts \<leftarrow> urlsplit canon;
           Some (Some \<lparr>su_url = canon, su_score = points, su_tier = tier,
             su_depth = length (segments (ul_path cparts)), su_anchor = anchor,
             su_fetch_url = urlunsplit (parts\<lparr>ul_fragment := []\<rparr>)\<rparr>)
         }
       }
     }"

fun put_best :: "scored_url \<Rightarrow> scored_url list \<Rightarrow> scored_url list" where
  "put_best c [] = [c]"
| "put_best c (p # ps) =
     (if su_url p = su_url c then (if su_score c > su_score p then c else p) # ps else p # put_best c ps)"

definition select_key :: "scored_url \<Rightarrow> int \<times> nat \<times> nat \<times> string" where
  "select_key c = (- su_score c, su_depth c, length (su_url c), su_url c)"

fun choose_urls :: "nat \<Rightarrow> nat \<Rightarrow> scored_url list \<Rightarrow> scored_url list \<Rightarrow> scored_url list" where
  "choose_urls limit cap chosen [] = chosen"
| "choose_urls limit cap chosen (c # cs) =
     (if limit \<le> length chosen then chosen
      else if cap \<le> length (filter (\<lambda>x. su_tier x = su_tier c) chosen) then choose_urls limit cap chosen cs
      else choose_urls limit cap (chosen @ [c]) cs)"

definition PER_TIER_CAP :: nat where "PER_TIER_CAP = 2"

definition select :: "scored_url list \<Rightarrow> nat \<Rightarrow> scored_url list" where
  "select candidates limit =
     choose_urls limit PER_TIER_CAP [] (sort_key select_key (fold put_best candidates []))"

definition has_tier :: "scored_url list \<Rightarrow> string \<Rightarrow> bool" where
  "has_tier candidates tier = list_ex (\<lambda>c. su_tier c = Some tier) candidates"

section \<open>What selection promises\<close>

lemma put_best_urls: "su_url ` set (put_best c ps) = insert (su_url c) (su_url ` set ps)"
  by (induction ps) auto

lemma put_best_distinct: "distinct (map su_url ps) \<Longrightarrow> distinct (map su_url (put_best c ps))"
proof (induction ps)
  case (Cons p ps)
  from put_best_urls [of c ps] Cons show ?case by (auto simp flip: set_map)
qed simp

lemma put_best_set: "set (put_best c ps) \<subseteq> insert c (set ps)"
  by (induction ps) auto

lemma put_best_beats:
  "\<exists>b \<in> set (put_best c ps). su_url b = su_url c \<and> su_score c \<le> su_score b"
  "p \<in> set ps \<Longrightarrow> \<exists>b \<in> set (put_best c ps). su_url b = su_url p \<and> su_score p \<le> su_score b"
  by (induction ps) auto

lemma fold_best:
  assumes "distinct (map su_url ps)"
  shows "distinct (map su_url (fold put_best cs ps)) \<and> set (fold put_best cs ps) \<subseteq> set ps \<union> set cs \<and>
    (\<forall>c \<in> set ps \<union> set cs. \<exists>b \<in> set (fold put_best cs ps). su_url b = su_url c \<and> su_score c \<le> su_score b)"
  using assms
proof (induction cs arbitrary: ps)
  case Nil
  then show ?case by auto
next
  case (Cons c cs)
  note IH = Cons.IH [OF put_best_distinct [OF Cons.prems, of c]]
  have "\<exists>b \<in> set (fold put_best cs (put_best c ps)). su_url b = su_url x \<and> su_score x \<le> su_score b"
    if x: "x \<in> set ps \<union> set (c # cs)" for x
  proof (cases "x \<in> set cs")
    case True
    with IH show ?thesis by blast
  next
    case False
    with x put_best_beats [of c ps] put_best_beats(2) [of x ps c] obtain b
      where "b \<in> set (put_best c ps)" "su_url b = su_url x" "su_score x \<le> su_score b" by auto
    moreover from this(1) IH obtain b' where "b' \<in> set (fold put_best cs (put_best c ps))"
      "su_url b' = su_url b" "su_score b \<le> su_score b'" by blast
    ultimately show ?thesis by force
  qed
  with IH put_best_set [of c ps] show ?case by auto
qed

definition in_tier :: "scored_url \<Rightarrow> scored_url list \<Rightarrow> nat" where
  "in_tier c xs = length (filter (\<lambda>x. su_tier x = su_tier c \<and> select_key x \<le> select_key c) xs)"

definition beaten :: "nat \<Rightarrow> nat \<Rightarrow> scored_url \<Rightarrow> scored_url list \<Rightarrow> bool" where
  "beaten limit cap c xs =
     (limit \<le> length (filter (\<lambda>x. select_key x \<le> select_key c) xs) \<or> cap \<le> in_tier c xs)"

lemma beaten_append: "beaten limit cap c xs \<Longrightarrow> beaten limit cap c (xs @ ys)"
  by (auto simp: beaten_def in_tier_def)

lemma choose_extends: "\<exists>ys. choose_urls limit cap chosen cs = chosen @ ys \<and> set ys \<subseteq> set cs"
proof (induction cs arbitrary: chosen)
  case (Cons c cs)
  from Cons.IH [of chosen] Cons.IH [of "chosen @ [c]"] show ?case by fastforce
qed simp

lemma choose_spec:
  assumes "sorted (map select_key (chosen @ cs))" and "distinct (map su_url (chosen @ cs))"
    and "length chosen \<le> limit" and "\<And>t. length (filter (\<lambda>x. su_tier x = t) chosen) \<le> cap"
  shows "sorted (map select_key (choose_urls limit cap chosen cs)) \<and> distinct (map su_url (choose_urls limit cap chosen cs)) \<and>
    length (choose_urls limit cap chosen cs) \<le> limit \<and>
    (\<forall>t. length (filter (\<lambda>x. su_tier x = t) (choose_urls limit cap chosen cs)) \<le> cap) \<and>
    (\<forall>c \<in> set cs. c \<in> set (choose_urls limit cap chosen cs) \<or> beaten limit cap c (choose_urls limit cap chosen cs))"
  using assms
proof (induction cs arbitrary: chosen)
  case (Cons c cs)
  have below: "\<And>x y. x \<in> set chosen \<Longrightarrow> y \<in> set (c # cs) \<Longrightarrow> select_key x \<le> select_key y"
    using Cons.prems(1) by (auto simp: sorted_append)
  consider "limit \<le> length chosen"
    | "length chosen < limit" "cap \<le> length (filter (\<lambda>x. su_tier x = su_tier c) chosen)"
    | "length chosen < limit" "length (filter (\<lambda>x. su_tier x = su_tier c) chosen) < cap" by linarith
  then show ?case
  proof cases
    case 1
    have "filter (\<lambda>x. select_key x \<le> select_key y) chosen = chosen" if "y \<in> set (c # cs)" for y
      using below that by (simp add: filter_id_conv)
    then have "\<forall>y \<in> set (c # cs). beaten limit cap y chosen" using 1 by (simp add: beaten_def)
    with 1 Cons.prems show ?thesis by (simp add: sorted_append)
  next
    case 2
    have "filter (\<lambda>x. su_tier x = su_tier c \<and> select_key x \<le> select_key c) chosen = filter (\<lambda>x. su_tier x = su_tier c) chosen"
      using below by (intro filter_cong) auto
    with 2 have "beaten limit cap c chosen" by (simp add: beaten_def in_tier_def)
    then have "beaten limit cap c (choose_urls limit cap chosen cs)"
      using choose_extends [of limit cap chosen cs] beaten_append by auto
    with 2 Cons.IH [of chosen] Cons.prems show ?thesis by (simp add: sorted_append)
  next
    case 3
    have "c \<in> set (choose_urls limit cap (chosen @ [c]) cs)"
      using choose_extends [of limit cap "chosen @ [c]" cs] by auto
    moreover have "length (filter (\<lambda>x. su_tier x = t) (chosen @ [c])) \<le> cap" for t
      using 3 Cons.prems(4) [of t] by (cases "su_tier c = t") simp_all
    ultimately show ?thesis using 3 Cons.IH [of "chosen @ [c]"] Cons.prems by simp
  qed
qed simp

lemma select_facts:
  "sorted (map select_key (select cs limit)) \<and> distinct (map su_url (select cs limit)) \<and>
   length (select cs limit) \<le> limit \<and> set (select cs limit) \<subseteq> set cs \<and>
   (\<forall>t. length (filter (\<lambda>x. su_tier x = t) (select cs limit)) \<le> PER_TIER_CAP) \<and>
   (\<forall>c \<in> set cs. \<exists>b \<in> set cs. su_url b = su_url c \<and> su_score c \<le> su_score b \<and>
      (b \<in> set (select cs limit) \<or> beaten limit PER_TIER_CAP b (select cs limit)))"
proof -
  define best where "best = fold put_best cs []"
  have b: "distinct (map su_url best)" "set best \<subseteq> set cs"
    "\<forall>c \<in> set cs. \<exists>b \<in> set best. su_url b = su_url c \<and> su_score c \<le> su_score b"
    using fold_best [of "[]" cs] by (auto simp: best_def)
  define ordered where "ordered = sort_key select_key best"
  have s: "select cs limit = choose_urls limit PER_TIER_CAP [] ordered"
    by (simp add: select_def ordered_def best_def)
  have "sorted (map select_key ([] @ ordered))" by (simp add: ordered_def)
  moreover have "distinct (map su_url ([] @ ordered))"
    using b(1) by (simp add: ordered_def distinct_map inj_on_def)
  ultimately have c: "sorted (map select_key (select cs limit)) \<and> distinct (map su_url (select cs limit)) \<and>
      length (select cs limit) \<le> limit \<and>
      (\<forall>t. length (filter (\<lambda>x. su_tier x = t) (select cs limit)) \<le> PER_TIER_CAP) \<and>
      (\<forall>c \<in> set best. c \<in> set (select cs limit) \<or> beaten limit PER_TIER_CAP c (select cs limit))"
    using choose_spec [of "[]" ordered limit PER_TIER_CAP] unfolding s by (simp add: ordered_def)
  have "set (select cs limit) \<subseteq> set cs"
    using choose_extends [of limit PER_TIER_CAP "[]" ordered] b(2) unfolding s by (auto simp: ordered_def)
  with b(2, 3) c show ?thesis by blast
qed

text \<open>
  C40: Selection takes the best pages. Whatever the candidates, at most \<open>limit\<close> pages are chosen, no
  page twice, at most two of a tier, best score first with the shorter URL breaking ties; each
  is a candidate, and a candidate whose page is not chosen is beaten by \<open>limit\<close> chosen pages or
  by two chosen pages of its tier.
\<close>

theorem select_best:
  "sorted (map select_key (select cs limit)) \<and> distinct (map su_url (select cs limit)) \<and>
   length (select cs limit) \<le> limit \<and> set (select cs limit) \<subseteq> set cs \<and>
   (\<forall>t. length (filter (\<lambda>x. su_tier x = t) (select cs limit)) \<le> PER_TIER_CAP) \<and>
   (\<forall>c \<in> set cs. \<exists>b \<in> set cs. su_url b = su_url c \<and> su_score c \<le> su_score b \<and>
      (b \<in> set (select cs limit) \<or> beaten limit PER_TIER_CAP b (select cs limit)))"
  by (rule select_facts)

definition s_url :: "string \<Rightarrow> int \<Rightarrow> string \<Rightarrow> scored_url" where
  "s_url u n tier = \<lparr>su_url = u, su_score = n, su_tier = Some tier, su_depth = 1, su_anchor = [], su_fetch_url = u\<rparr>"

definition s_urls :: "scored_url list" where
  "s_urls = [s_url ''/about'' 60 ''about'', s_url ''/reach-us'' 100 ''contact'', s_url ''/contact-us'' 100 ''contact'',
     s_url ''/contact'' 100 ''contact'', s_url ''/about'' 70 ''about'']"

theorem select_best_witness:
  "map su_url (select s_urls 3) = [''/contact'', ''/reach-us'', ''/about''] \<and>
   s_url ''/contact-us'' 100 ''contact'' \<in> set s_urls \<and> s_url ''/contact-us'' 100 ''contact'' \<notin> set (select s_urls 3) \<and>
   beaten 3 PER_TIER_CAP (s_url ''/contact-us'' 100 ''contact'') (select s_urls 3)"
proof -
  have a: "map su_url (select s_urls 3) = [''/contact'', ''/reach-us'', ''/about'']" by code_simp
  have b: "s_url ''/contact-us'' 100 ''contact'' \<in> set s_urls" by (simp add: s_urls_def)
  have c: "s_url ''/contact-us'' 100 ''contact'' \<notin> set (select s_urls 3)" by code_simp
  have d: "list_all (\<lambda>x. su_url x = ''/contact-us'' \<longrightarrow> x = s_url ''/contact-us'' 100 ''contact'') s_urls" by code_simp
  from select_best [of s_urls 3] b obtain x where "x \<in> set s_urls" "su_url x = ''/contact-us''"
    "x \<in> set (select s_urls 3) \<or> beaten 3 PER_TIER_CAP x (select s_urls 3)" by (auto simp: s_url_def)
  with a b c d show ?thesis by (auto simp: list_all_iff)
qed

end
