(* ===== verification/Discovery.thy ===== *)
theory Discovery
  imports Score
begin

text \<open>
  Which pages of a site are worth fetching, \<open>src/app/pipeline/discovery/\<close>: the links of the
  homepage, the sitemaps that \<open>robots.txt\<close> names, the sitemap documents, the loop that reads
  them within its budget, and \<open>discover_pages\<close>. \<open>None\<close> is a \<open>ValueError\<close> of the URL functions that no
  handler of this module catches.

  The HTML parser and \<open>html.unescape\<close> are parameters; \<open>text_of n url\<close> is what the \<open>n\<close>-th document
  fetched by the loop gives, empty if the fetch failed.
\<close>

record disc_lib =
  dl_links :: "string \<Rightarrow> (string \<times> string) list option"
  dl_unescape :: "string \<Rightarrow> string"
  dl_tld :: tld_lib

section \<open>Links of the homepage\<close>

definition SKIP_SCHEMES :: "string list" where
  "SKIP_SCHEMES = [''mailto:'', ''tel:'', ''javascript:'', ''sms:'', ''fax:'', ''data:'', ''file:'', ''callto:'']"

definition lower_host :: "url_parts \<Rightarrow> string" where
  "lower_host parts = lower (or_empty (hostname parts))"

definition link_anchor :: "string \<Rightarrow> string" where
  "link_anchor shown = take 120 (lower (strip (rx_sub WS (\<lambda>_. '' '') shown)))"

definition link_of :: "tld_lib \<Rightarrow> string \<Rightarrow> string \<Rightarrow> string \<times> string \<Rightarrow> (string \<times> string) option option" where
  "link_of tx own base node =
     (let href = strip (fst node)
      in if href = [] \<or> startswith ''#'' href \<or> list_ex (\<lambda>s. startswith s (lower href)) SKIP_SCHEMES then Some None
         else case Option.bind (urljoin base href) urldefrag of
                None \<Rightarrow> Some None
              | Some absolute \<Rightarrow>
                  (case urlsplit absolute of
                     None \<Rightarrow> None
                   | Some parts \<Rightarrow>
                       if ul_scheme parts \<notin> {''http'', ''https''} \<or> lower_host parts = [] \<or>
                          registrable tx (lower_host parts) \<noteq> own then Some None
                       else Some (Some (absolute, link_anchor (snd node)))))"

fun links_from ::
  "tld_lib \<Rightarrow> string \<Rightarrow> string \<Rightarrow> (string \<times> string) list \<Rightarrow> (string \<times> string) list \<Rightarrow> (string \<times> string) list option" where
  "links_from tx own base acc [] = Some acc"
| "links_from tx own base acc (node # nodes) =
     (case link_of tx own base node of
        None \<Rightarrow> None
      | Some None \<Rightarrow> links_from tx own base acc nodes
      | Some (Some l) \<Rightarrow> links_from tx own base (if fst l \<in> fst ` set acc then acc else acc @ [l]) nodes)"

definition extract_links :: "disc_lib \<Rightarrow> string \<Rightarrow> string \<Rightarrow> (string \<times> string) list option" where
  "extract_links lib html base_url =
     (if html = [] then Some []
      else case dl_links lib html of
             None \<Rightarrow> Some []
           | Some nodes \<Rightarrow>
               do {
                 parts \<leftarrow> urlsplit base_url;
                 links_from (dl_tld lib) (registrable (dl_tld lib) (lower_host parts)) base_url [] nodes
               })"

section \<open>Sitemaps named by robots.txt\<close>

definition SITEMAP_LINE :: rx where
  "SITEMAP_LINE = seqs [Mbol, star (Chr is_space), ilit ''sitemap:'', star (Chr is_space),
     Grp 1 (plus (Chr (\<lambda>c. \<not> is_space c)))]"

definition MAX_SITEMAPS :: nat where "MAX_SITEMAPS = 5"

definition is_http :: "string \<Rightarrow> bool" where
  "is_http u = (startswith ''http://'' (lower u) \<or> startswith ''https://'' (lower u))"

fun sitemaps_from :: "tld_lib \<Rightarrow> string \<Rightarrow> nat \<Rightarrow> string list \<Rightarrow> string list \<Rightarrow> string list option" where
  "sitemaps_from tx own limit acc [] = Some acc"
| "sitemaps_from tx own limit acc (raw # raws) =
     (let url = strip_by (\<lambda>c. c \<in> {CHR ''<'', CHR ''>'', CHR 0x22, CHR 0x27}) (strip raw)
      in if \<not> is_http url then sitemaps_from tx own limit acc raws
         else case urlsplit url of
                None \<Rightarrow> None
              | Some parts \<Rightarrow>
                  if lower_host parts = [] \<or> registrable tx (lower_host parts) \<noteq> own
                  then sitemaps_from tx own limit acc raws
                  else let acc = (if url \<in> set acc then acc else acc @ [url])
                       in if limit \<le> length acc then Some acc else sitemaps_from tx own limit acc raws)"

definition parse_sitemaps :: "tld_lib \<Rightarrow> string \<Rightarrow> string \<Rightarrow> string list option" where
  "parse_sitemaps tx robots_text site_host =
     (let head = lower (take 15 (lstrip_by is_space robots_text))
      in if robots_text = [] \<or> startswith ''<!doctype'' head \<or> startswith ''<html'' head then Some []
         else sitemaps_from tx (registrable tx site_host) MAX_SITEMAPS [] (rx_findall1 SITEMAP_LINE robots_text))"

section \<open>Sitemap documents\<close>

definition MAX_URLS :: int where "MAX_URLS = 5000"
definition MAX_CHILDREN :: nat where "MAX_CHILDREN = 3"
definition MAX_DEPTH :: nat where "MAX_DEPTH = 2"

definition EXCLUDE_CHILD_TOKENS :: "string list" where
  "EXCLUDE_CHILD_TOKENS = [''product'', ''products'', ''post'', ''posts'', ''blog'', ''news'', ''image'', ''images'',
     ''video'', ''videos'', ''category'', ''categories'', ''tag'', ''tags'', ''author'', ''authors'']"

definition PREFER_CHILD_TOKEN :: string where "PREFER_CHILD_TOKEN = ''page''"

definition ns_prefix :: rx where
  "ns_prefix = opt (Seq (plus (Chr is_word)) (lit '':''))"

definition LOC_OPEN :: rx where
  "LOC_OPEN = seqs [lit ''<'', ns_prefix, ilit ''loc'', star (Chr (\<lambda>c. c \<noteq> CHR ''>'')), lit ''>'']"

definition LOC :: rx where
  "LOC = seqs [LOC_OPEN, star (Chr is_space), opt (ilit ''<![CDATA[''), Grp 1 (Rep 0 None False (Chr (\<lambda>_. True))),
     opt (lit '']]>''), star (Chr is_space), lit ''</'', ns_prefix, ilit ''loc'', star (Chr is_space), lit ''>'']"

definition IS_INDEX :: rx where
  "IS_INDEX = seqs [lit ''<'', ns_prefix, ilit ''sitemapindex'', Chr (\<lambda>c. is_space c \<or> c = CHR ''>'')]"

definition is_sitemap_index :: "string \<Rightarrow> bool" where
  "is_sitemap_index s = (rx_search IS_INDEX (take 2048 s) \<noteq> None)"

definition loc_value :: "(string \<Rightarrow> string) \<Rightarrow> string \<Rightarrow> string" where
  "loc_value unescape raw =
     (let v = unescape (strip raw)
      in if CHR ''<'' \<in> set v then unescape (strip (List.last (rx_split LOC_OPEN v))) else v)"

definition loc_ok :: "string \<Rightarrow> bool" where
  "loc_ok v = (v \<noteq> [] \<and> CHR ''<'' \<notin> set v \<and> CHR ''>'' \<notin> set v \<and> is_http v)"

definition parse_locs :: "(string \<Rightarrow> string) \<Rightarrow> string \<Rightarrow> string list" where
  "parse_locs unescape s =
     fold (\<lambda>v out. if v \<in> set out then out else out @ [v])
       (filter loc_ok (map (loc_value unescape) (rx_findall1 LOC s))) []"

text \<open>\<open>str.splitlines\<close>.\<close>

definition line_break :: "char \<Rightarrow> bool" where
  "line_break c = (let n = ordc c in 10 \<le> n \<and> n \<le> 13 \<or> 28 \<le> n \<and> n \<le> 30 \<or> n = 133)"

fun splitlines_from :: "string \<Rightarrow> string \<Rightarrow> string list" where
  "splitlines_from cur [] = (if cur = [] then [] else [cur])"
| "splitlines_from cur (c # s) =
     (if line_break c
      then cur # splitlines_from [] (if c = CHR 0x0D \<and> s \<noteq> [] \<and> hd s = CHR 0x0A then tl s else s)
      else splitlines_from (cur @ [c]) s)"

definition parse_plain_text :: "string \<Rightarrow> string list" where
  "parse_plain_text s =
     filter (\<lambda>l. is_http l \<and> CHR '' '' \<notin> set l) (map strip (splitlines_from [] s))"

definition last_segment_tokens :: "string \<Rightarrow> string list option" where
  "last_segment_tokens url =
     do {
       parts \<leftarrow> urlsplit url;
       let segs = segments (ul_path parts);
       Some (if segs = [] then [] else concat (map tokens (split_on ''.'' (lower (List.last segs)))))
     }"

definition child_is_excluded :: "string \<Rightarrow> bool option" where
  "child_is_excluded url =
     map_option (\<lambda>ts. list_ex (\<lambda>t. t \<in> set EXCLUDE_CHILD_TOKENS) ts) (last_segment_tokens url)"

definition order_children :: "string list \<Rightarrow> string list option" where
  "order_children urls =
     (if list_ex (\<lambda>u. last_segment_tokens u = None) urls then None
      else
        let keep = filter (\<lambda>u. child_is_excluded u = Some False) urls;
            preferred = filter (\<lambda>u. PREFER_CHILD_TOKEN \<in> set (the (last_segment_tokens u))) keep;
            rest = filter (\<lambda>u. u \<notin> set preferred) keep
        in Some (preferred @ rest))"

definition extract_urls :: "(string \<Rightarrow> string) \<Rightarrow> string \<Rightarrow> string list \<times> bool" where
  "extract_urls unescape s =
     (let locs = parse_locs unescape s
      in if locs \<noteq> [] then (locs, is_sitemap_index s) else (parse_plain_text s, False))"

section \<open>Reading the sitemaps\<close>

definition MAX_SITEMAP_DOCS :: nat where "MAX_SITEMAP_DOCS = 4"

definition same_site :: "tld_lib \<Rightarrow> string \<Rightarrow> string \<Rightarrow> bool option" where
  "same_site tx own url =
     map_option (\<lambda>parts. lower_host parts \<noteq> [] \<and> registrable tx (lower_host parts) = own) (urlsplit url)"

fun keep_same_site :: "tld_lib \<Rightarrow> string \<Rightarrow> string list \<Rightarrow> string list option" where
  "keep_same_site tx own [] = Some []"
| "keep_same_site tx own (u # us) =
     do {
       ok \<leftarrow> same_site tx own u;
       rest \<leftarrow> keep_same_site tx own us;
       Some (if ok then u # rest else rest)
     }"

text \<open>The pages of one document; the flag says that the bound was reached and the loop returns.\<close>

fun add_pages :: "tld_lib \<Rightarrow> string \<Rightarrow> string list \<Rightarrow> string list \<Rightarrow> (string list \<times> bool) option" where
  "add_pages tx own pages [] = Some (pages, False)"
| "add_pages tx own pages (u # us) =
     do {
       ok \<leftarrow> same_site tx own u;
       let pages = (if ok then pages @ [u] else pages);
       if MAX_URLS \<le> int (length pages) then Some (pages, True) else add_pages tx own pages us
     }"

datatype doc_result = Pages "string list" bool | Children "string list"

definition read_doc ::
  "disc_lib \<Rightarrow> string \<Rightarrow> string list \<Rightarrow> string \<Rightarrow> nat \<Rightarrow> doc_result option" where
  "read_doc lib own pages doc depth =
     (case extract_urls (dl_unescape lib) doc of
        (urls, True) \<Rightarrow>
          if MAX_DEPTH \<le> depth then Some (Children [])
          else do {
            mine \<leftarrow> keep_same_site (dl_tld lib) own urls;
            ordered \<leftarrow> order_children mine;
            Some (Children (take MAX_CHILDREN ordered))
          }
      | (urls, False) \<Rightarrow>
          map_option (\<lambda>(ps, full). Pages ps full) (add_pages (dl_tld lib) own pages urls))"

definition after_doc ::
  "(string list \<Rightarrow> (string \<times> nat) list \<Rightarrow> string list option) \<Rightarrow> nat \<Rightarrow> string list \<Rightarrow> (string \<times> nat) list \<Rightarrow> doc_result option \<Rightarrow>
   string list option" where
  "after_doc continue depth pages queue r =
     (case r of
        None \<Rightarrow> None
      | Some (Pages ps full) \<Rightarrow> if full then Some ps else continue ps queue
      | Some (Children cs) \<Rightarrow> continue pages (queue @ map (\<lambda>c. (c, Suc depth)) cs))"

lemma after_doc_cong [fundef_cong]:
  assumes "r = r'" and "pages = pages'" and "queue = queue'" and "depth = depth'"
    and "\<And>ps q. continue ps q = continue' ps q"
  shows "after_doc continue depth pages queue r = after_doc continue' depth' pages' queue' r'"
  using assms by (auto simp: after_doc_def split: option.split doc_result.split)

function collect ::
  "disc_lib \<Rightarrow> (nat \<Rightarrow> string \<Rightarrow> string) \<Rightarrow> string \<Rightarrow> nat \<Rightarrow> string list \<Rightarrow> (string \<times> nat) list \<Rightarrow> (string \<times> nat) list \<Rightarrow>
   string list \<Rightarrow> string list option" where
  "collect lib text_of own budget seen ((doc, depth) # texts) queue pages =
     after_doc (\<lambda>ps q. collect lib text_of own budget seen texts q ps) depth pages queue
       (read_doc lib own pages doc depth)"
| "collect lib text_of own budget seen [] [] pages = Some pages"
| "collect lib text_of own 0 seen [] (u # queue) pages = Some pages"
| "collect lib text_of own (Suc budget) seen [] ((url, depth) # queue) pages =
     (if url \<in> set seen then collect lib text_of own (Suc budget) seen [] queue pages
      else case same_site (dl_tld lib) own url of
             None \<Rightarrow> None
           | Some False \<Rightarrow> collect lib text_of own (Suc budget) seen [] queue pages
           | Some True \<Rightarrow>
               let doc = text_of budget url
               in if doc = [] then collect lib text_of own budget (url # seen) [] queue pages
                  else after_doc (\<lambda>ps q. collect lib text_of own budget (url # seen) [] q ps) depth pages queue
                         (read_doc lib own pages doc depth))"
  by pat_completeness auto
termination
  by (relation "measures [\<lambda>(lib, text_of, own, budget, seen, texts, queue, pages). budget + length texts,
        \<lambda>(lib, text_of, own, budget, seen, texts, queue, pages). length queue]") auto

definition collect_sitemap_urls ::
  "disc_lib \<Rightarrow> (nat \<Rightarrow> string \<Rightarrow> string) \<Rightarrow> string \<Rightarrow> string list \<Rightarrow> string list \<Rightarrow> string list option" where
  "collect_sitemap_urls lib text_of own seed_texts seed_urls =
     collect lib text_of own MAX_SITEMAP_DOCS [] (map (\<lambda>t. (t, 0)) (filter (\<lambda>t. t \<noteq> []) seed_texts))
       (map (\<lambda>u. (u, 0)) seed_urls) []"

section \<open>Discovery\<close>

definition FIXED_FALLBACK_PATHS :: "string list" where
  "FIXED_FALLBACK_PATHS = [''/contact'', ''/contact-us'', ''/about'', ''/about-us'']"

definition MIN_SCORED_BEFORE_FALLBACK :: nat where "MIN_SCORED_BEFORE_FALLBACK = 2"

fun score_all :: "(string \<times> string) list \<Rightarrow> scored_url list option" where
  "score_all [] = Some []"
| "score_all ((url, anchor) # us) =
     do {
       s \<leftarrow> score_url url anchor;
       rest \<leftarrow> score_all us;
       Some (case s of None \<Rightarrow> rest | Some c \<Rightarrow> c # rest)
     }"

fun join_all :: "string \<Rightarrow> string list \<Rightarrow> string list option" where
  "join_all base [] = Some []"
| "join_all base (p # ps) =
     do {
       u \<leftarrow> urljoin (base @ ''/'') (lstrip_by (\<lambda>c. c = CHR ''/'') p);
       rest \<leftarrow> join_all base ps;
       Some (u # rest)
     }"

definition fallback_urls :: "url_parts \<Rightarrow> string list option" where
  "fallback_urls home = join_all (ul_scheme home @ ''://'' @ ul_netloc home) FIXED_FALLBACK_PATHS"

record diagnostics =
  dg_shortcut :: bool
  dg_from_links :: nat
  dg_from_sitemap :: nat
  dg_fallback :: bool

text \<open>The part of \<open>discover_pages\<close> after the shortcut.\<close>

definition search_sitemaps ::
  "disc_lib \<Rightarrow> (nat \<Rightarrow> string \<Rightarrow> string) \<Rightarrow> url_parts \<Rightarrow> string \<Rightarrow> string \<Rightarrow> nat \<Rightarrow> scored_url list \<Rightarrow>
   (scored_url list \<times> diagnostics) option" where
  "search_sitemaps lib text_of home robots_text root_sitemap_text limit from_links =
     do {
       let own = registrable (dl_tld lib) (lower_host home);
       seeds \<leftarrow> parse_sitemaps (dl_tld lib) robots_text own;
       pages \<leftarrow> collect_sitemap_urls lib text_of own [root_sitemap_text] seeds;
       from_sitemap \<leftarrow> score_all (map (\<lambda>u. (u, [])) pages);
       let candidates = from_links @ from_sitemap;
       let chosen = select candidates limit;
       let diag = \<lparr>dg_shortcut = False, dg_from_links = length from_links,
         dg_from_sitemap = length from_sitemap, dg_fallback = False\<rparr>;
       if length (filter (\<lambda>c. truthy (su_tier c)) chosen) < MIN_SCORED_BEFORE_FALLBACK
       then do {
         urls \<leftarrow> fallback_urls home;
         fixed \<leftarrow> score_all (map (\<lambda>u. (u, [])) urls);
         Some (select (candidates @ fixed) limit, diag\<lparr>dg_fallback := True\<rparr>)
       }
       else Some (chosen, diag)
     }"

definition discover_pages ::
  "disc_lib \<Rightarrow> (nat \<Rightarrow> string \<Rightarrow> string) \<Rightarrow> string \<Rightarrow> string \<Rightarrow> string \<Rightarrow> string \<Rightarrow> nat \<Rightarrow> (scored_url list \<times> diagnostics) option" where
  "discover_pages lib text_of final_url homepage_html robots_text root_sitemap_text limit =
     do {
       home \<leftarrow> urlsplit final_url;
       links \<leftarrow> extract_links lib homepage_html final_url;
       from_links \<leftarrow> score_all links;
       if has_tier from_links ''contact'' \<and> has_tier from_links ''about''
       then Some (select from_links limit,
              \<lparr>dg_shortcut = True, dg_from_links = length from_links, dg_from_sitemap = 0, dg_fallback = False\<rparr>)
       else search_sitemaps lib text_of home robots_text root_sitemap_text limit from_links
     }"

section \<open>Where the chosen pages come from\<close>

definition on_site :: "tld_lib \<Rightarrow> string \<Rightarrow> string \<Rightarrow> bool" where
  "on_site tx own u = (same_site tx own u = Some True)"

lemma link_of_on_site: "link_of tx own base node = Some (Some l) \<Longrightarrow> on_site tx own (fst l)"
  by (auto simp: link_of_def on_site_def same_site_def Let_def split: if_splits option.splits)

lemma links_on_site:
  assumes "links_from tx own base acc nodes = Some links" and "\<forall>l \<in> set acc. on_site tx own (fst l)"
  shows "\<forall>l \<in> set links. on_site tx own (fst l)"
  using assms
proof (induction nodes arbitrary: acc)
  case (Cons node nodes)
  then obtain r where r: "link_of tx own base node = Some r" by (auto split: option.splits)
  show ?case
  proof (cases r)
    case None
    with r Cons show ?thesis by simp
  next
    case (Some l)
    with link_of_on_site r have l: "on_site tx own (fst l)" by blast
    show ?thesis
    proof (rule Cons.IH)
      show "links_from tx own base (if fst l \<in> fst ` set acc then acc else acc @ [l]) nodes = Some links"
        using Cons.prems(1) r Some by simp
      show "\<forall>l \<in> set (if fst l \<in> fst ` set acc then acc else acc @ [l]). on_site tx own (fst l)"
        using Cons.prems(2) l by simp
    qed
  qed
qed simp

lemma add_pages_on_site:
  "add_pages tx own pages us = Some (pages', full) \<Longrightarrow> \<forall>p \<in> set pages. on_site tx own p \<Longrightarrow>
   \<forall>p \<in> set pages'. on_site tx own p"
proof (induction us arbitrary: pages)
  case (Cons u us)
  from Cons.prems(1) obtain ok where ok: "same_site tx own u = Some ok" by (auto split: Option.bind_splits)
  define pages1 where "pages1 = (if ok then pages @ [u] else pages)"
  have "\<forall>p \<in> set pages1. on_site tx own p" using ok Cons.prems(2) by (auto simp: pages1_def on_site_def)
  moreover have "(if MAX_URLS \<le> int (length pages1) then Some (pages1, True) else add_pages tx own pages1 us) =
      Some (pages', full)"
    using Cons.prems(1) unfolding add_pages.simps ok Let_def pages1_def by simp
  ultimately show ?case using Cons.IH [of pages1] by (auto split: if_splits)
qed simp

lemma read_doc_pages:
  "read_doc lib own pages doc depth = Some (Pages ps full) \<Longrightarrow> \<forall>p \<in> set pages. on_site (dl_tld lib) own p \<Longrightarrow>
   \<forall>p \<in> set ps. on_site (dl_tld lib) own p"
  by (auto simp: read_doc_def dest: add_pages_on_site split: prod.splits bool.splits if_splits Option.bind_splits)

lemma after_doc_on_site:
  assumes "after_doc continue depth pages queue (read_doc lib own pages doc depth) = Some out"
    and "\<forall>p \<in> set pages. on_site (dl_tld lib) own p"
    and "\<And>ps q. continue ps q = Some out \<Longrightarrow> \<forall>p \<in> set ps. on_site (dl_tld lib) own p \<Longrightarrow>
      \<forall>p \<in> set out. on_site (dl_tld lib) own p"
  shows "\<forall>p \<in> set out. on_site (dl_tld lib) own p"
proof (cases "read_doc lib own pages doc depth")
  case None
  with assms(1) show ?thesis by (simp add: after_doc_def)
next
  case (Some r)
  show ?thesis
  proof (cases r)
    case (Pages ps full)
    with Some assms(2) have "\<forall>p \<in> set ps. on_site (dl_tld lib) own p" using read_doc_pages by blast
    with Some Pages assms(1, 3) show ?thesis by (auto simp: after_doc_def split: if_splits)
  next
    case (Children cs)
    with Some assms show ?thesis by (auto simp: after_doc_def)
  qed
qed

lemma collect_on_site:
  "collect lib text_of own budget seen texts queue pages = Some out \<Longrightarrow> \<forall>p \<in> set pages. on_site (dl_tld lib) own p \<Longrightarrow>
   \<forall>p \<in> set out. on_site (dl_tld lib) own p"
proof (induction lib text_of own budget seen texts queue pages rule: collect.induct)
  case (1 lib text_of own budget seen doc depth texts queue pages)
  from "1.prems"(1) have "after_doc (\<lambda>ps q. collect lib text_of own budget seen texts q ps) depth pages queue
      (read_doc lib own pages doc depth) = Some out" by simp
  from this "1.prems"(2) "1.IH" show ?case by (rule after_doc_on_site)
next
  case (4 lib text_of own budget seen url depth queue pages)
  show ?case
  proof (cases "url \<in> set seen")
    case True
    with "4.prems"(1) have "collect lib text_of own (Suc budget) seen [] queue pages = Some out" by simp
    from "4.IH"(1) [OF True this "4.prems"(2)] show ?thesis .
  next
    case new: False
    with "4.prems"(1) obtain ok where ok: "same_site (dl_tld lib) own url = Some ok" by (auto split: option.splits)
    define doc where "doc = text_of budget url"
    consider "ok = False" | "ok = True" "doc = []" | "ok = True" "doc \<noteq> []" by blast
    then show ?thesis
    proof cases
      case 1
      with "4.prems"(1) new ok have "collect lib text_of own (Suc budget) seen [] queue pages = Some out" by simp
      from "4.IH"(4) [OF new ok 1 this "4.prems"(2)] show ?thesis .
    next
      case 2
      with "4.prems"(1) new ok have "collect lib text_of own budget (url # seen) [] queue pages = Some out"
        by (simp add: doc_def)
      from "4.IH"(2) [OF new ok 2(1) doc_def 2(2) this "4.prems"(2)] show ?thesis .
    next
      case 3
      with "4.prems"(1) new ok
      have "after_doc (\<lambda>ps q. collect lib text_of own budget (url # seen) [] q ps) depth pages queue
          (read_doc lib own pages doc depth) = Some out" by (simp add: doc_def Let_def)
      from this "4.prems"(2) "4.IH"(3) [OF new ok 3(1) doc_def 3(2)] show ?thesis
        by (rule after_doc_on_site)
    qed
  qed
qed simp_all

lemma score_all_from:
  "score_all us = Some cs \<Longrightarrow> c \<in> set cs \<Longrightarrow> \<exists>u a. (u, a) \<in> set us \<and> score_url u a = Some (Some c)"
proof (induction us arbitrary: cs)
  case (Cons l us)
  obtain u a where l: "l = (u, a)" by force
  from Cons.prems l obtain s rest where s: "score_url u a = Some s" "score_all us = Some rest"
    and cs: "cs = (case s of None \<Rightarrow> rest | Some c \<Rightarrow> c # rest)" by (auto split: Option.bind_splits)
  show ?case
  proof (cases "c \<in> set rest")
    case True
    with Cons.IH [OF s(2)] show ?thesis by auto
  next
    case False
    with Cons.prems(2) cs s(1) l show ?thesis by (auto split: option.splits)
  qed
qed simp

lemma score_url_allowed:
  assumes "score_url u a = Some (Some c)"
  shows "\<exists>parts. urlsplit u = Some parts \<and> \<not> is_excluded (if ul_path parts \<noteq> [] then ul_path parts else ''/'')"
proof (cases "urlsplit u")
  case None
  with assms show ?thesis by (simp add: score_url_def)
next
  case (Some parts)
  show ?thesis
  proof (cases "is_excluded (if ul_path parts \<noteq> [] then ul_path parts else ''/'')")
    case True
    then have "score_url u a = Some None" unfolding score_url_def Some Let_def by simp
    with assms show ?thesis by simp
  next
    case False
    with Some show ?thesis by blast
  qed
qed

definition comes_from :: "(string \<Rightarrow> bool) \<Rightarrow> scored_url \<Rightarrow> bool" where
  "comes_from P c = (\<exists>u a parts. P u \<and> score_url u a = Some (Some c) \<and> urlsplit u = Some parts \<and>
     \<not> is_excluded (if ul_path parts \<noteq> [] then ul_path parts else ''/''))"

lemma comes_from_mono: "comes_from P c \<Longrightarrow> (\<And>u. P u \<Longrightarrow> Q u) \<Longrightarrow> comes_from Q c"
  unfolding comes_from_def by blast

lemma score_all_comes_from:
  assumes "score_all us = Some cs" and "\<forall>l \<in> set us. P (fst l)"
  shows "\<forall>c \<in> set cs. comes_from P c"
proof
  fix c assume "c \<in> set cs"
  with score_all_from [OF assms(1)] obtain u a where "(u, a) \<in> set us" and s: "score_url u a = Some (Some c)"
    by blast
  with assms(2) have "P u" by force
  with s score_url_allowed [OF s] show "comes_from P c" unfolding comes_from_def by blast
qed

lemma extract_links_on_site:
  assumes "extract_links lib html base = Some links" and "urlsplit base = Some home"
  shows "\<forall>l \<in> set links. on_site (dl_tld lib) (registrable (dl_tld lib) (lower_host home)) (fst l)"
proof (cases "html = [] \<or> dl_links lib html = None")
  case True
  with assms have "links = []" by (auto simp: extract_links_def split: if_splits)
  then show ?thesis by simp
next
  case False
  then obtain nodes where "html \<noteq> []" and "dl_links lib html = Some nodes" by auto
  with assms have "links_from (dl_tld lib) (registrable (dl_tld lib) (lower_host home)) base [] nodes = Some links"
    by (simp add: extract_links_def)
  from links_on_site [OF this] show ?thesis by simp
qed

lemma collect_urls_on_site:
  assumes "collect_sitemap_urls lib text_of own texts seeds = Some pages"
  shows "\<forall>l \<in> set (map (\<lambda>u. (u, [])) pages). on_site (dl_tld lib) own (fst l)"
  using collect_on_site [OF assms [unfolded collect_sitemap_urls_def]] by simp

definition home_page :: "disc_lib \<Rightarrow> url_parts \<Rightarrow> bool \<Rightarrow> string \<Rightarrow> bool" where
  "home_page lib home fell_back u \<longleftrightarrow>
     on_site (dl_tld lib) (registrable (dl_tld lib) (lower_host home)) u \<or>
     fell_back \<and> (\<exists>us. fallback_urls home = Some us \<and> u \<in> set us)"

lemma home_page_weaken:
  "comes_from (on_site (dl_tld lib) (registrable (dl_tld lib) (lower_host home))) c \<Longrightarrow> comes_from (home_page lib home b) c"
  by (erule comes_from_mono) (simp add: home_page_def)

lemma search_select:
  assumes s: "search_sitemaps lib text_of home robots sitemap limit fl = Some (sel, diag)"
    and fl: "\<forall>c \<in> set fl. comes_from (on_site (dl_tld lib) (registrable (dl_tld lib) (lower_host home))) c"
  shows "\<exists>cs. sel = select cs limit \<and> (\<forall>c \<in> set cs. comes_from (home_page lib home (dg_fallback diag)) c)"
proof -
  define own where "own = registrable (dl_tld lib) (lower_host home)"
  note defs = search_sitemaps_def own_def [symmetric] Let_def
  obtain seeds where seeds: "parse_sitemaps (dl_tld lib) robots own = Some seeds"
    using s by (cases "parse_sitemaps (dl_tld lib) robots own") (simp_all add: defs)
  obtain pages where pages: "collect_sitemap_urls lib text_of own [sitemap] seeds = Some pages"
    using s seeds by (cases "collect_sitemap_urls lib text_of own [sitemap] seeds") (simp_all add: defs)
  obtain fs where fs: "score_all (map (\<lambda>u. (u, [])) pages) = Some fs"
    using s seeds pages by (cases "score_all (map (\<lambda>u. (u, [])) pages)") (simp_all add: defs)
  have B: "\<forall>c \<in> set (fl @ fs). comes_from (home_page lib home b) c" for b
    using fl score_all_comes_from [OF fs collect_urls_on_site [OF pages]] home_page_weaken by (auto simp: own_def)
  show ?thesis
  proof (cases "length (filter (\<lambda>c. truthy (su_tier c)) (select (fl @ fs) limit)) < MIN_SCORED_BEFORE_FALLBACK")
    case False
    with s seeds pages fs have "sel = select (fl @ fs) limit" by (simp add: defs)
    with B show ?thesis by blast
  next
    case few: True
    obtain us where us: "fallback_urls home = Some us"
      using s seeds pages fs few by (cases "fallback_urls home") (simp_all add: defs)
    obtain ff where ff: "score_all (map (\<lambda>u. (u, [])) us) = Some ff"
      using s seeds pages fs few us by (cases "score_all (map (\<lambda>u. (u, [])) us)") (simp_all add: defs)
    with s seeds pages fs few us have sel: "sel = select ((fl @ fs) @ ff) limit \<and> dg_fallback diag"
      by (auto simp: defs)
    have "\<forall>c \<in> set ff. comes_from (home_page lib home True) c"
      using score_all_comes_from [OF ff, of "home_page lib home True"] us by (simp add: home_page_def)
    with B [of True] sel show ?thesis by (intro exI [of _ "(fl @ fs) @ ff"]) auto
  qed
qed

lemma discover_select:
  assumes d: "discover_pages lib text_of final_url html robots sitemap limit = Some (sel, diag)"
    and home: "urlsplit final_url = Some home"
  shows "\<exists>cs. sel = select cs limit \<and> (\<forall>c \<in> set cs. comes_from (home_page lib home (dg_fallback diag)) c)"
proof -
  obtain links where links: "extract_links lib html final_url = Some links"
    using d home by (cases "extract_links lib html final_url") (simp_all add: discover_pages_def)
  obtain fl where fl: "score_all links = Some fl"
    using d home links by (cases "score_all links") (simp_all add: discover_pages_def)
  note A = score_all_comes_from [OF fl extract_links_on_site [OF links home]]
  show ?thesis
  proof (cases "has_tier fl ''contact'' \<and> has_tier fl ''about''")
    case True
    with d home links fl have "sel = select fl limit" by (simp add: discover_pages_def)
    with A home_page_weaken show ?thesis by blast
  next
    case False
    with d home links fl have "search_sitemaps lib text_of home robots sitemap limit fl = Some (sel, diag)"
      by (auto simp: discover_pages_def)
    from search_select [OF this A] show ?thesis .
  qed
qed


definition s_disc :: "(string \<times> string) list \<Rightarrow> disc_lib" where
  "s_disc links = \<lparr>dl_links = (\<lambda>_. Some links), dl_unescape = id, dl_tld = s_reg\<rparr>"

definition s_found :: "(scored_url list \<times> diagnostics) option" where
  "s_found = discover_pages
     (s_disc [(''/Contact'', ''Contact us''), (''/cart/contact'', ''Cart''), (''https://pixel.io/contact'', ''Designer'')])
     (\<lambda>_ _. []) ''http://acme.io/'' ''html'' [] [] 2"


text \<open>
  One malformed link ends the domain: reading the port of a link of the homepage raises, and
  nothing in discovery catches it.
\<close>

lemma bad_port_ends_discovery:
  "discover_pages (s_disc [(''http://acme.io:80a/contact'', ''Contact us'')]) (\<lambda>_ _. []) ''http://acme.io/'' ''html'' [] [] 2 = None"
  by code_simp

lemma bad_sitemap_ends_discovery:
  "discover_pages (s_disc []) (\<lambda>_ _. []) ''http://acme.io/'' ''html'' ''Sitemap: http://[acme.io/sitemap.xml'' [] 2 = None"
  by code_simp

end
