(* ===== verification/Page_Facts.thy ===== *)
theory Page_Facts
  imports Normalize
begin

text \<open>
  What a page says besides addresses: telephone numbers, social links and a contact form,
  \<open>phones.py\<close>, \<open>socials.py\<close> and \<open>forms.py\<close> of \<open>src/app/pipeline/extract/\<close>. The HTML parser and the
  package \<open>phonenumbers\<close> are parameters: \<open>fx_forms\<close> gives the forms of a page as far as the code
  looks at them, \<open>fx_e164\<close> parses, validates and formats a number, \<open>fx_numbers\<close> gives the numbers
  found in a text with their positions.
\<close>

record form =
  fm_attrs :: "string list"
  fm_textarea :: bool
  fm_fields :: "string list list"
  fm_input_types :: "string list"

record facts_lib =
  fx_hrefs :: "string \<Rightarrow> string list option"
  fx_forms :: "string \<Rightarrow> form list option"
  fx_e164 :: "string \<Rightarrow> string option"
  fx_numbers :: "string \<Rightarrow> (nat \<times> string) list"

section \<open>Telephone numbers\<close>

definition MAX_PHONES :: nat where "MAX_PHONES = 5"
definition CUE_WINDOW :: nat where "CUE_WINDOW = 40"

definition PHONE_CUE :: rx where
  "PHONE_CUE = alts [ilit ''tel'', ilit ''telephone'', ilit ''phone'', ilit ''call'', ilit ''text'', ilit ''fax'',
     ilit ''mobile'', ilit ''cell'', seqs [ilit ''toll'', opt (chars_in ''- ''), ilit ''free'']]"

definition add_new :: "'a \<Rightarrow> 'a list \<Rightarrow> 'a list" where
  "add_new x xs = (if x \<in> set xs then xs else xs @ [x])"

definition from_tel_links :: "facts_lib \<Rightarrow> string \<Rightarrow> string list" where
  "from_tel_links lib html =
     (if html = [] then []
      else case fx_hrefs lib html of
             None \<Rightarrow> []
           | Some hrefs \<Rightarrow>
               let tels = filter (\<lambda>h. lower (take 4 h) = ''tel:'') (map strip hrefs);
                   nums = filter (\<lambda>n. n \<noteq> []) (List.map_filter (\<lambda>h. fx_e164 lib (strip (drop 4 h))) tels)
               in fold add_new nums [])"

definition from_text :: "facts_lib \<Rightarrow> string \<Rightarrow> string list" where
  "from_text lib s =
     (if s = [] then []
      else fold add_new (map snd (filter (\<lambda>(i, _).
             rx_search PHONE_CUE (Html_Scan.slice (i - CUE_WINDOW) i s) \<noteq> None) (fx_numbers lib s))) [])"

definition extract_phones :: "facts_lib \<Rightarrow> string \<Rightarrow> string \<Rightarrow> string list" where
  "extract_phones lib html s = take MAX_PHONES (fold add_new (from_text lib s) (from_tel_links lib html))"

section \<open>Social links\<close>

definition NETWORKS :: "(string \<times> string list) list" where
  "NETWORKS = [(''facebook'', [''facebook.com'', ''fb.com'', ''fb.me'']), (''instagram'', [''instagram.com'']),
     (''linkedin'', [''linkedin.com'']), (''x'', [''x.com'', ''twitter.com'']), (''youtube'', [''youtube.com'', ''youtu.be'']),
     (''tiktok'', [''tiktok.com'']), (''yelp'', [''yelp.com''])]"

definition DROP_PATH :: rx where
  "DROP_PATH = alts
     [seqs [Bol, ilit ''/sharer''],
      seqs [Bol, ilit ''/share'', opt (Alt (ilit ''r'') (ilit ''article'')), Alt (lit ''/'') Eol],
      ilit ''/intent/'', ilit ''/dialog/'', ilit ''/plugins/'', seqs [Bol, ilit ''/share.php'']]"

definition LINKEDIN_OK :: rx where
  "LINKEDIN_OK = seqs [lit ''/'', alts [ilit ''company'', ilit ''in'', ilit ''school'', ilit ''showcase''], lit ''/'']"

definition network_for :: "string list \<Rightarrow> string \<Rightarrow> string \<Rightarrow> string option" where
  "network_for taken host path =
     map_option fst (find (\<lambda>(name, domains).
       name \<notin> set taken \<and> list_ex (in_site host) domains \<and>
       (name = ''linkedin'' \<longrightarrow> rx_search LINKEDIN_OK path \<noteq> None)) NETWORKS)"

text \<open>One link. \<open>None\<close> is the \<open>ValueError\<close> of \<open>urlsplit\<close>, which nothing catches.\<close>

definition add_social :: "string \<Rightarrow> (string \<times> string) list \<Rightarrow> (string \<times> string) list option" where
  "add_social raw out =
     (let href = strip raw
      in if href = [] \<or> startswith ''#'' href then Some out
         else case urlsplit (if contains ''//'' href then href else ''https://'' @ lstrip_by (\<lambda>c. c = CHR ''/'') href) of
                None \<Rightarrow> None
              | Some parts \<Rightarrow>
                  let host = lower (or_empty (hostname parts));
                      path = (if ul_path parts \<noteq> [] then ul_path parts else ''/'')
                  in if host = [] \<or> rx_search DROP_PATH path \<noteq> None then Some out
                     else case network_for (map fst out) host path of
                            None \<Rightarrow> Some out
                          | Some name \<Rightarrow>
                              Some (out @ [(name, if contains ''//'' href then href else ''https://'' @ host @ path)]))"

fun socials_from :: "(string \<times> string) list \<Rightarrow> string list \<Rightarrow> (string \<times> string) list option" where
  "socials_from out [] = Some out"
| "socials_from out (h # hs) = (case add_social h out of None \<Rightarrow> None | Some out' \<Rightarrow> socials_from out' hs)"

definition extract_socials :: "facts_lib \<Rightarrow> string \<Rightarrow> (string \<times> string) list option" where
  "extract_socials lib html =
     (if html = [] then Some []
      else case fx_hrefs lib html of None \<Rightarrow> Some [] | Some hrefs \<Rightarrow> socials_from [] hrefs)"

section \<open>Contact forms\<close>

definition PROVIDER_MARKERS :: "string list" where
  "PROVIDER_MARKERS = [''hsforms'', ''hbspt.forms'', ''jotform'', ''typeform'', ''gravityforms'', ''wpforms'',
     ''formstack'', ''cognitoforms'', ''wufoo'', ''formsite'', ''formspree'', ''getform.io'']"

definition NOT_CONTACT :: rx where
  "NOT_CONTACT = alts (map ilit [''search'', ''subscribe'', ''signup'', ''sign-up'', ''newsletter'', ''list-manage'', ''mailchimp'',
     ''login'', ''log-in'', ''signin'', ''sign-in'', ''register'', ''comment'', ''respond'', ''wc-'', ''cart'', ''checkout'', ''coupon'',
     ''password''])"

definition FORM_EMAIL :: rx where
  "FORM_EMAIL = seqs [ilit ''e'', opt (lit ''-''), ilit ''mail'']"

definition MESSAGEISH :: rx where
  "MESSAGEISH = alts [ilit ''message'', Seq (ilit ''comment'') (opt (ilit ''s'')), ilit ''details'', ilit ''describe'',
     ilit ''project'', ilit ''enquiry'', ilit ''inquiry'']"

definition NAMEISH :: rx where
  "NAMEISH = alts
     [seqs [Alt Bol (Chr (\<lambda>c. \<not> is_ascii_letter c)), ilit ''name'', Alt (Chr (\<lambda>c. \<not> is_ascii_letter c)) Eol],
      seqs [ilit ''full'', opt (chars_in ''-_ ''), ilit ''name''], ilit ''fname'', ilit ''lname'']"

definition found_in :: "rx \<Rightarrow> string \<Rightarrow> bool" where
  "found_in a s = (rx_search a s \<noteq> None)"

definition form_blob :: "string list \<Rightarrow> string" where
  "form_blob vs = join '' '' (filter (\<lambda>v. v \<noteq> []) vs)"

definition is_contact_form :: "form \<Rightarrow> bool" where
  "is_contact_form f =
     (let fields = join '' '' (map form_blob (fm_fields f))
      in if found_in NOT_CONTACT (form_blob (fm_attrs f)) then False
         else if found_in NOT_CONTACT fields \<and> \<not> fm_textarea f then False
         else 2 \<le> (if fm_textarea f then 1 else 0) +
                (if list_ex (\<lambda>t. lower t = ''email'') (fm_input_types f) \<or> found_in FORM_EMAIL fields then 1 else 0) +
                (if found_in NAMEISH fields then 1 else 0) +
                (if found_in MESSAGEISH fields then 1 else (0 :: nat)))"

definition has_contact_form :: "facts_lib \<Rightarrow> string \<Rightarrow> bool" where
  "has_contact_form lib html =
     (if html = [] then False
      else if list_ex (\<lambda>m. contains m (lower html)) PROVIDER_MARKERS then True
      else case fx_forms lib html of None \<Rightarrow> False | Some forms \<Rightarrow> list_ex is_contact_form forms)"

fun best_form :: "facts_lib \<Rightarrow> (int \<times> string) option \<Rightarrow> (string \<times> int \<times> string) list \<Rightarrow> (int \<times> string) option" where
  "best_form lib best [] = best"
| "best_form lib best ((url, score, html) # pages) =
     best_form lib
       (if \<not> has_contact_form lib html then best
        else case best of None \<Rightarrow> Some (score, url) | Some (s, u) \<Rightarrow> if score > s then Some (score, url) else Some (s, u))
       pages"

definition pick_contact_form_url :: "facts_lib \<Rightarrow> (string \<times> int \<times> string) list \<Rightarrow> string option" where
  "pick_contact_form_url lib pages = map_option snd (best_form lib None pages)"

section \<open>Laws\<close>

lemma best_form_from:
  "best_form lib best pages = Some (s, u) \<Longrightarrow>
   best = Some (s, u) \<or> (\<exists>html. (u, s, html) \<in> set pages \<and> has_contact_form lib html)"
proof (induction pages arbitrary: best)
  case (Cons p pages)
  obtain url score html where p: "p = (url, score, html)" by (cases p) auto
  define next_best where "next_best = (if \<not> has_contact_form lib html then best
        else case best of None \<Rightarrow> Some (score, url) | Some (s, u) \<Rightarrow> if score > s then Some (score, url) else Some (s, u))"
  from Cons.prems have "best_form lib next_best pages = Some (s, u)" by (simp add: p next_best_def)
  from Cons.IH [OF this] have "next_best = Some (s, u) \<or> (\<exists>html. (u, s, html) \<in> set pages \<and> has_contact_form lib html)" .
  moreover have "next_best = Some (s, u) \<Longrightarrow> best = Some (s, u) \<or> u = url \<and> s = score \<and> has_contact_form lib html"
    by (auto simp: next_best_def split: if_splits option.splits)
  ultimately show ?case unfolding p by auto
qed simp

text \<open>The page of the contact form is a fetched page that has one.\<close>

lemma pick_contact_form_from:
  "pick_contact_form_url lib pages = Some u \<Longrightarrow> \<exists>s html. (u, s, html) \<in> set pages \<and> has_contact_form lib html"
  using best_form_from [of lib None pages] by (auto simp: pick_contact_form_url_def)

lemma extract_phones_bound: "length (extract_phones lib html s) \<le> MAX_PHONES"
  by (simp add: extract_phones_def)

text \<open>One malformed link anywhere on a page is a \<open>ValueError\<close> for the page.\<close>

lemma bad_link_raises:
  "fx_hrefs lib html = Some (h # hs) \<Longrightarrow> html \<noteq> [] \<Longrightarrow> strip h = ''http://[your-site]/'' \<Longrightarrow> extract_socials lib html = None"
proof -
  assume a: "fx_hrefs lib html = Some (h # hs)" "html \<noteq> []" "strip h = ''http://[your-site]/''"
  have "startswith ''#'' ''http://[your-site]/'' = False" and "contains ''//'' ''http://[your-site]/''"
    and "urlsplit ''http://[your-site]/'' = None" by code_simp+
  with a show ?thesis by (simp add: extract_socials_def add_social_def)
qed

end
