(* ===== verification/Site_Check.thy ===== *)
theory Site_Check
  imports Normalize
begin

text \<open>
  What the DNS says of a domain, \<open>src/app/pipeline/dns_check.py\<close>, and the signals of a parked one,
  \<open>src/app/pipeline/parked.py\<close>. The resolver is a parameter: the records of a name and type, or the
  class of the exception it raises. The visible text of a page, which the HTML parser computes,
  is a parameter too.
\<close>

section \<open>DNS\<close>

datatype dns_exc = NX_Domain | Dns_Exc string

type_synonym resolver_fn = "string \<Rightarrow> string \<Rightarrow> dns_exc + string list"

record dns_result =
  dn_resolves :: bool
  dn_a_domain :: bool
  dn_a_www :: bool
  dn_mx_provider :: mx_provider
  dn_ns_hosts :: "string list"
  dn_nxdomain :: bool
  dn_error :: "string option"

definition no_dot :: "string \<Rightarrow> string" where
  "no_dot s = rstrip_by (\<lambda>c. c = CHR ''.'') s"

definition classify_mx :: "string list \<Rightarrow> mx_provider" where
  "classify_mx hosts =
     (let hs = map (no_dot \<circ> lower) hosts
      in if hosts = [] then No_Mx
         else if list_ex (\<lambda>h. endswith ''google.com'' h \<or> endswith ''googlemail.com'' h) hs then Google
         else if list_ex (\<lambda>h. endswith ''outlook.com'' h \<or> contains ''protection.outlook'' h) hs then Microsoft
         else Other_Mx)"

definition dns_query :: "resolver_fn \<Rightarrow> string \<Rightarrow> string \<Rightarrow> string list \<times> dns_exc option" where
  "dns_query res name rdtype =
     (case res name rdtype of Inr rs \<Rightarrow> (map no_dot rs, None) | Inl e \<Rightarrow> ([], Some e))"

definition any_address :: "resolver_fn \<Rightarrow> string \<Rightarrow> bool \<times> dns_exc option" where
  "any_address res name =
     (case dns_query res name ''A'' of
        (v # _, _) \<Rightarrow> (True, None)
      | ([], Some NX_Domain) \<Rightarrow> (False, Some NX_Domain)
      | ([], _) \<Rightarrow>
          (case dns_query res name ''AAAA'' of (v # _, _) \<Rightarrow> (True, None) | ([], e) \<Rightarrow> (False, e)))"

fun exc_name :: "dns_exc \<Rightarrow> string" where
  "exc_name NX_Domain = ''NXDOMAIN''"
| "exc_name (Dns_Exc n) = n"

definition check_domain :: "resolver_fn \<Rightarrow> string \<Rightarrow> dns_result" where
  "check_domain res domain =
     (let host = host_of_key domain;
          (a_dom, e1) = any_address res host;
          (a_www, e2) = any_address res (''www.'' @ host);
          mx = fst (dns_query res host ''MX'');
          ns = fst (dns_query res host ''NS'');
          resolves = (a_dom \<or> a_www);
          mx_hosts = map List.last (filter (\<lambda>ws. ws \<noteq> []) (map words_of mx))
      in \<lparr>dn_resolves = resolves, dn_a_domain = a_dom, dn_a_www = a_www, dn_mx_provider = classify_mx mx_hosts,
          dn_ns_hosts = map lower ns,
          dn_nxdomain = (\<not> resolves \<and> e1 = Some NX_Domain \<and> (e2 = None \<or> e2 = Some NX_Domain)),
          dn_error = (if resolves then None else Some (case e1 of None \<Rightarrow> ''no_address'' | Some e \<Rightarrow> exc_name e))\<rparr>)"

section \<open>Parked domains\<close>

definition PARKING_NS_MARKERS :: "string list" where
  "PARKING_NS_MARKERS = [''sedoparking'', ''bodis'', ''parkingcrew'', ''above.com'', ''dan.com'', ''afternic'',
     ''hugedomains'', ''namebrightdns'', ''parklogic'']"

definition PARKING_HOSTS :: "string list" where
  "PARKING_HOSTS = [''dan.com'', ''afternic.com'', ''hugedomains.com'', ''sedo.com'', ''undeveloped.com'']"

definition PARKING_HOST_PATHS :: "(string \<times> string list) list" where
  "PARKING_HOST_PATHS = [(''godaddy.com'', [''/forsale''])]"

definition FOR_SALE_PHRASES :: "string list" where
  "FOR_SALE_PHRASES = [''this domain is for sale'', ''buy this domain'', ''domain may be for sale'',
     ''this domain has been registered'']"

definition WEAK_PHRASES :: "string list" where
  "WEAK_PHRASES = [''parked free'', ''future home of'', ''coming soon'']"

definition WEAK_MAX_CHARS :: int where "WEAK_MAX_CHARS = 300"

definition ns_marker_hit :: "string \<Rightarrow> string \<Rightarrow> bool" where
  "ns_marker_hit ns marker =
     (if CHR ''.'' \<in> set marker then in_site ns marker else marker \<in> set (split_on ''.'' ns))"

definition check_ns :: "string list \<Rightarrow> bool" where
  "check_ns ns_hosts = list_ex (\<lambda>ns. list_ex (ns_marker_hit (no_dot (lower ns))) PARKING_NS_MARKERS) ns_hosts"

text \<open>\<open>None\<close> is the \<open>ValueError\<close> of \<open>urlsplit\<close>.\<close>

definition check_final_url :: "string \<Rightarrow> bool option" where
  "check_final_url final_url =
     map_option (\<lambda>parts.
       let host = lower (or_empty (hostname parts)); path = ul_path parts
       in list_ex (in_site host) PARKING_HOSTS \<or>
          list_ex (\<lambda>(h, prefixes). in_site host h \<and> list_ex (\<lambda>p. startswith p path) prefixes) PARKING_HOST_PATHS)
     (urlsplit final_url)"

definition check_text :: "string \<Rightarrow> bool" where
  "check_text shown =
     (list_ex (\<lambda>p. contains p (lower shown)) FOR_SALE_PHRASES \<or>
      int (length shown) < WEAK_MAX_CHARS \<and> list_ex (\<lambda>p. contains p (lower shown)) WEAK_PHRASES)"

text \<open>\<open>is_parked(final_url=.., html=..)\<close>; the caller has looked at the name servers before.\<close>

definition is_parked :: "(string \<Rightarrow> string) \<Rightarrow> string \<Rightarrow> string \<Rightarrow> bool option" where
  "is_parked visible final_url html =
     (case (if final_url = [] then Some False else check_final_url final_url) of
        None \<Rightarrow> None
      | Some at_host \<Rightarrow> Some (at_host \<or> html \<noteq> [] \<and> check_text (visible html)))"

section \<open>Laws\<close>

text \<open>A name that merely contains a marker is not parked; a label of its own is.\<close>

lemma marker_needs_label:
  assumes "CHR ''.'' \<notin> set marker" and "ns_marker_hit ns marker"
  shows "\<exists>a b. split_on ''.'' ns = a @ [marker] @ b \<and> join ''.'' (a @ [marker] @ b) = ns"
proof -
  from assms have "marker \<in> set (split_on ''.'' ns)" by (simp add: ns_marker_hit_def)
  then obtain a b where "split_on ''.'' ns = a @ [marker] @ b" by (auto dest: split_list)
  with join_split_on [of "''.''" ns] show ?thesis by metis
qed

lemma resolves_iff:
  "dn_resolves (check_domain res domain) \<longleftrightarrow>
     fst (any_address res (host_of_key domain)) \<or> fst (any_address res (''www.'' @ host_of_key domain))"
  by (simp add: check_domain_def Let_def split_def)

lemma nxdomain_not_resolving: "dn_nxdomain (check_domain res domain) \<Longrightarrow> \<not> dn_resolves (check_domain res domain)"
  by (simp add: check_domain_def Let_def split_def)

end
