(* ===== verification/Pipeline.thy ===== *)
theory Pipeline
  imports Fetch Emails_Props Judge Discovery Page_Facts Site_Check
begin

text \<open>
  The stages of one domain, \<open>src/app/pipeline/run.py\<close>: the ladder of homepage URLs, the fetching of
  the chosen pages, extraction, judgement, the result, the deadline with its salvage, and the
  retries while the provider refuses.

  What lies outside is in a record \<open>world\<close>: the resolver, the fetcher (\<open>w_html n url\<close> is the outcome
  of the \<open>n\<close>-th fetch of a page in an attempt), the documents discovery reads, the judging
  service, and the parsers. The deadline may strike at any \<open>await\<close>: \<open>late k\<close> says that the \<open>k\<close>-th one
  does not come back in time, and then the scratchpad is as it was before it. An exception is a
  value of \<open>stop\<close>: the deadline, a failure of the fetcher (its own error, an open circuit, a
  cancellation), or another exception with its type name.
\<close>

section \<open>The world, the scratchpad and steps\<close>

record world =
  w_resolver :: resolver_fn
  w_html :: "nat \<Rightarrow> string \<Rightarrow> failure + fetch_result"
  w_text :: "string \<Rightarrow> string"
  w_docs :: "nat \<Rightarrow> string \<Rightarrow> string"
  w_ask :: "judge_body \<Rightarrow> post_error + jval"
  w_page :: page_lib
  w_disc :: disc_lib
  w_facts :: facts_lib
  w_visible :: "string \<Rightarrow> string"
  w_float :: "string \<Rightarrow> rat option"

type_synonym page = "string \<times> int \<times> string"

record extracted =
  ex_ranked :: "ranked_email list"
  ex_phones :: "string list"
  ex_socials :: "(string \<times> string) list"
  ex_form :: "string option"

record scratch =
  sc_dns :: "dns_result option"
  sc_final_domain :: "string option"
  sc_home_html :: string
  sc_pages :: "page list"
  sc_tokens :: int
  sc_extracted :: "(nat \<times> extracted) option"

definition Scratch :: scratch where
  "Scratch = \<lparr>sc_dns = None, sc_final_domain = None, sc_home_html = [], sc_pages = [], sc_tokens = 0, sc_extracted = None\<rparr>"

datatype stop = Timed_Out | Failed failure | Other_Error string

type_synonym 'a step = "scratch \<Rightarrow> (stop + 'a) \<times> scratch"

definition done_with :: "'a \<Rightarrow> 'a step" where
  "done_with x s = (Inr x, s)"

definition and_then :: "'a step \<Rightarrow> ('a \<Rightarrow> 'b step) \<Rightarrow> 'b step" where
  "and_then m f s = (case m s of (Inl e, s') \<Rightarrow> (Inl e, s') | (Inr x, s') \<Rightarrow> f x s')"

definition await :: "(nat \<Rightarrow> bool) \<Rightarrow> nat \<Rightarrow> (stop + 'a) \<Rightarrow> 'a step" where
  "await late k x s = (if late k then (Inl Timed_Out, s) else (x, s))"

definition change :: "(scratch \<Rightarrow> scratch) \<Rightarrow> unit step" where
  "change f s = (Inr (), f s)"

definition raising :: "string \<Rightarrow> 'a option \<Rightarrow> stop + 'a" where
  "raising name x = (case x of None \<Rightarrow> Inl (Other_Error name) | Some y \<Rightarrow> Inr y)"

section \<open>The homepage\<close>

definition HOMEPAGE_LADDER :: "(string \<times> bool) list" where
  "HOMEPAGE_LADDER = [(''https'', False), (''https'', True), (''http'', False)]"

definition ladder_for :: "dns_result option \<Rightarrow> (string \<times> bool) list" where
  "ladder_for dns =
     (case dns of
        None \<Rightarrow> HOMEPAGE_LADDER
      | Some d \<Rightarrow>
          if \<not> dn_resolves d then HOMEPAGE_LADDER
          else let rungs = filter (\<lambda>(scheme, www). if www then dn_a_www d else dn_a_domain d) HOMEPAGE_LADDER
               in if rungs \<noteq> [] then rungs else HOMEPAGE_LADDER)"

fun fetch_rungs ::
  "(nat \<Rightarrow> string \<Rightarrow> failure + fetch_result) \<Rightarrow> string \<Rightarrow> nat \<Rightarrow> fetch_error option \<Rightarrow> (string \<times> bool) list \<Rightarrow>
   (failure + (fetch_result option \<times> fetch_error option)) \<times> nat" where
  "fetch_rungs get domain n prev [] = (Inr (None, prev), n)"
| "fetch_rungs get domain n prev ((scheme, www) # rungs) =
     (case get n (crawl_url domain scheme www) of
        Inr r \<Rightarrow> (Inr (Some r, None), Suc n)
      | Inl (Fetch_Err e) \<Rightarrow>
          if fe_class e = PROVIDER_ACCOUNT then (Inr (None, Some e), Suc n)
          else fetch_rungs get domain (Suc n) (Some e) rungs
      | Inl f \<Rightarrow> (Inl f, Suc n))"

definition fetch_homepage ::
  "(nat \<Rightarrow> string \<Rightarrow> failure + fetch_result) \<Rightarrow> string \<Rightarrow> dns_result option \<Rightarrow>
   (failure + (fetch_result option \<times> fetch_error option)) \<times> nat" where
  "fetch_homepage get domain dns = fetch_rungs get domain 0 None (ladder_for dns)"

definition url_host :: "string \<Rightarrow> string option" where
  "url_host url = map_option (\<lambda>parts. lower (or_empty (hostname parts))) (urlsplit url)"

section \<open>Extraction over the pages\<close>

fun socials_over :: "facts_lib \<Rightarrow> (string \<times> string) list \<Rightarrow> page list \<Rightarrow> (string \<times> string) list option" where
  "socials_over lib out [] = Some out"
| "socials_over lib out ((url, score, html) # pages) =
     (case extract_socials lib html of
        None \<Rightarrow> None
      | Some found \<Rightarrow> socials_over lib (out @ filter (\<lambda>(name, _). name \<notin> fst ` set out) found) pages)"

fun page_emails :: "world \<Rightarrow> page \<Rightarrow> email_candidate list" where
  "page_emails w (url, score, html) = fst (extract_page (w_page w) html url)"

fun page_numbers :: "world \<Rightarrow> page \<Rightarrow> string list" where
  "page_numbers w (url, score, html) =
     extract_phones (w_facts w) html (fst (snd (extract_page (w_page w) html url)))"

definition page_candidates :: "world \<Rightarrow> page list \<Rightarrow> email_candidate list list" where
  "page_candidates w pages = map (page_emails w) pages"

definition page_phones :: "world \<Rightarrow> page list \<Rightarrow> string list" where
  "page_phones w pages = fold add_new (concat (map (page_numbers w) pages)) []"

definition extract_pages :: "world \<Rightarrow> scratch \<Rightarrow> extracted option" where
  "extract_pages w s =
     map_option (\<lambda>socials.
       let pages = sc_pages s;
           page_scores = rev (map (\<lambda>(url, score, _). (url, score)) pages);
           ranked = rank_candidates (pl_tld (w_page w)) (merge_pages (page_candidates w pages))
             (or_empty (sc_final_domain s)) page_scores;
           fetched = set (map fst pages);
           kept = filter (\<lambda>r. set (ec_source_urls (re_candidate r)) \<inter> fetched \<noteq> {}) ranked
       in \<lparr>ex_ranked = kept, ex_phones = page_phones w pages, ex_socials = socials,
           ex_form = pick_contact_form_url (w_facts w) pages\<rparr>)
     (socials_over (w_facts w) [] (sc_pages s))"

definition extract_all :: "world \<Rightarrow> extracted step" where
  "extract_all w s =
     (case sc_extracted s of
        Some (n, ex) \<Rightarrow>
          if n = length (sc_pages s) then (Inr ex, s)
          else (case extract_pages w s of
                  None \<Rightarrow> (Inl (Other_Error ''ValueError''), s)
                | Some ex \<Rightarrow> (Inr ex, s\<lparr>sc_extracted := Some (length (sc_pages s), ex)\<rparr>))
      | None \<Rightarrow>
          (case extract_pages w s of
             None \<Rightarrow> (Inl (Other_Error ''ValueError''), s)
           | Some ex \<Rightarrow> (Inr ex, s\<lparr>sc_extracted := Some (length (sc_pages s), ex)\<rparr>)))"

section \<open>The result\<close>

fun optional_str :: "jval \<Rightarrow> string option option" where
  "optional_str (JStr s) = Some (Some s)"
| "optional_str JNull = Some None"
| "optional_str _ = None"

definition candidate_out :: "judgement \<Rightarrow> ranked_email \<Rightarrow> email_candidate_out" where
  "candidate_out j r = \<lparr>eo_email = re_email r, eo_source_urls = ec_source_urls (re_candidate r),
     eo_method = ec_method (re_candidate r), eo_rank = re_rank r, eo_belongs = map_of (ju_belongs j) (re_email r)\<rparr>"

definition trust :: "ranked_email list \<Rightarrow> judgement \<Rightarrow> judgement" where
  "trust ranked j =
     (if truthy (ju_best_email j) \<and> the (ju_best_email j) \<notin> re_email ` set ranked
      then j\<lparr>ju_best_email := rules_best ranked, ju_best_email_source := Some By_Rules, ju_confidence := None\<rparr>
      else j)"

definition result_of ::
  "string \<Rightarrow> scratch \<Rightarrow> extracted \<Rightarrow> judgement \<Rightarrow> string option \<Rightarrow> string option \<Rightarrow> domain_result" where
  "result_of domain s ex j site error_reason =
     (DomainResult domain (assign_status \<lparr>si_invalid_input = False, si_fetch_failed = False,
         si_parked = (site = Some ''parked_or_for_sale''), si_typesafe_said_none = ju_said_none j,
         si_best_email = ju_best_email j, si_business_emails = ju_business_emails j,
         si_contact_form_url = ex_form ex\<rparr>))\<lparr>
       dr_final_domain := sc_final_domain s,
       dr_best_email := ju_best_email j,
       dr_best_email_source := (if truthy (ju_best_email j) then ju_best_email_source j else None),
       dr_confidence := ju_confidence j,
       dr_needs_review := (ju_needs_review j \<or> truthy error_reason),
       dr_business_emails := ju_business_emails j,
       dr_all_emails := map (candidate_out j) (ex_ranked ex),
       dr_phones := take 5 (ex_phones ex),
       dr_socials := ex_socials ex,
       dr_contact_form_url := ex_form ex,
       dr_mx_provider := map_option dn_mx_provider (sc_dns s),
       dr_pages_fetched := map fst (sc_pages s),
       dr_jina_tokens := sc_tokens s,
       dr_typesafe_called := ju_typesafe_called j,
       dr_typesafe_error := ju_typesafe_error j,
       dr_site_status := site,
       dr_error_reason := error_reason\<rparr>"

text \<open>
  \<open>_harvest\<close>. A site status that is no string is refused when the result is built.
\<close>

definition harvest :: "world \<Rightarrow> string \<Rightarrow> judgement option \<Rightarrow> string option \<Rightarrow> domain_result step" where
  "harvest w domain judgement error_reason =
     and_then (extract_all w) (\<lambda>ex s.
       let j = trust (ex_ranked ex) (case judgement of None \<Rightarrow> rules_only (ex_ranked ex) | Some j \<Rightarrow> j)
       in (map_sum id (\<lambda>site. result_of domain s ex j site error_reason)
             (raising ''ValidationError'' (optional_str (ju_site_status j))), s))"

section \<open>The chosen pages\<close>

definition fetch_page :: "(nat \<Rightarrow> string \<Rightarrow> failure + fetch_result) \<Rightarrow> nat \<Rightarrow> scored_url \<Rightarrow> failure + (page \<times> int)" where
  "fetch_page get n c =
     (case get n (target c) of
        Inr r \<Rightarrow> Inr ((fr_final_url r, su_score c, fr_html r), case fr_jina_tokens r of None \<Rightarrow> 0 | Some k \<Rightarrow> k)
      | Inl (Fetch_Err e) \<Rightarrow> Inr ((target c, su_score c, []), 0)
      | Inl f \<Rightarrow> Inl f)"

fun fetch_pages ::
  "(nat \<Rightarrow> string \<Rightarrow> failure + fetch_result) \<Rightarrow> nat \<Rightarrow> scored_url list \<Rightarrow> failure + (page \<times> int) list" where
  "fetch_pages get n [] = Inr []"
| "fetch_pages get n (c # cs) =
     (case fetch_page get n c of
        Inl f \<Rightarrow> Inl f
      | Inr p \<Rightarrow> (case fetch_pages get (Suc n) cs of Inl f \<Rightarrow> Inl f | Inr ps \<Rightarrow> Inr (p # ps)))"

definition add_page :: "page \<times> int \<Rightarrow> scratch \<Rightarrow> scratch" where
  "add_page pt s = s\<lparr>sc_tokens := sc_tokens s + snd pt,
     sc_pages := (if snd (snd (fst pt)) \<noteq> [] then sc_pages s @ [fst pt] else sc_pages s)\<rparr>"

definition good_enough :: "world \<Rightarrow> scratch \<Rightarrow> bool" where
  "good_enough w s =
     (case rank_candidates (pl_tld (w_page w)) (merge_pages (page_candidates w (sc_pages s))) (or_empty (sc_final_domain s)) [] of
        [] \<Rightarrow> False
      | r # _ \<Rightarrow> re_rank r = 1 \<and> ec_method (re_candidate r) \<in> {Mailto, Jsonld})"

definition fetch_contact ::
  "world \<Rightarrow> settings \<Rightarrow> (nat \<Rightarrow> bool) \<Rightarrow> nat \<Rightarrow> scored_url list \<Rightarrow> (scored_url list \<times> nat) step" where
  "fetch_contact w cfg late n selected =
     (case find (\<lambda>c. su_tier c = Some ''contact'') selected of
        None \<Rightarrow> done_with (selected, n)
      | Some contact \<Rightarrow>
          and_then (await late 3 (map_sum Failed id (fetch_page (w_html w) n contact))) (\<lambda>pt s.
            let s' = add_page pt s
            in (Inr (if early_stop_on_first_good cfg \<and> good_enough w s' then [] else remove1 contact selected, Suc n), s')))"

definition fetch_selected ::
  "world \<Rightarrow> settings \<Rightarrow> (nat \<Rightarrow> bool) \<Rightarrow> nat \<Rightarrow> scored_url list \<Rightarrow> unit step" where
  "fetch_selected w cfg late n selected =
     and_then (fetch_contact w cfg late n selected) (\<lambda>(rest, n').
       if rest = [] then done_with ()
       else and_then (await late 4 (map_sum Failed id (fetch_pages (w_html w) n' rest)))
              (\<lambda>pts. change (fold add_page pts)))"

definition judge_pages :: "world \<Rightarrow> settings \<Rightarrow> (nat \<Rightarrow> bool) \<Rightarrow> string \<Rightarrow> judgement step" where
  "judge_pages w cfg late domain =
     and_then (extract_all w) (\<lambda>ex s.
       await late 5 (raising ''AttributeError'' (judge cfg (w_float w) (w_ask w) (ex_ranked ex)
         (if truthy (sc_final_domain s) then or_empty (sc_final_domain s) else domain)
         (pl_title (w_page w) (sc_home_html s)))) s)"

section \<open>One attempt\<close>

definition failed_result :: "string \<Rightarrow> string \<Rightarrow> mx_provider option \<Rightarrow> domain_result" where
  "failed_result domain reason mx =
     (DomainResult domain Fetch_Failed)\<lparr>dr_error_reason := Some reason, dr_mx_provider := mx\<rparr>"

definition internal_error :: "string \<Rightarrow> string \<Rightarrow> domain_result" where
  "internal_error domain name =
     (DomainResult domain Fetch_Failed)\<lparr>dr_error_reason := Some ''internal_error'', dr_site_status := Some name\<rparr>"

definition parked_result :: "string \<Rightarrow> mx_provider \<Rightarrow> domain_result" where
  "parked_result domain mx =
     (DomainResult domain Parked_Or_For_Sale)\<lparr>dr_mx_provider := Some mx, dr_site_status := Some ''parked_or_for_sale''\<rparr>"

definition page_tokens :: "fetch_result \<Rightarrow> int" where
  "page_tokens r = (case fr_jina_tokens r of None \<Rightarrow> 0 | Some k \<Rightarrow> k)"

text \<open>\<open>_process\<close> once the homepage is there and not parked: discovery, pages, judgement, result.\<close>

definition crawl ::
  "world \<Rightarrow> settings \<Rightarrow> (nat \<Rightarrow> bool) \<Rightarrow> string \<Rightarrow> fetch_result \<Rightarrow> nat \<Rightarrow> string \<Rightarrow> string \<Rightarrow> domain_result step" where
  "crawl w cfg late domain home n robots sitemap =
     and_then (await late 2 (raising ''ValueError''
       (discover_pages (w_disc w) (w_docs w) (fr_final_url home) (fr_html home) robots sitemap
         (nat (max 0 (max_pages_per_domain cfg - 1)))))) (\<lambda>(selected, diag).
     and_then (change (\<lambda>s. s\<lparr>sc_pages := sc_pages s @ [(fr_final_url home, 0, fr_html home)],
       sc_tokens := sc_tokens s + page_tokens home\<rparr>)) (\<lambda>_.
     and_then (fetch_selected w cfg late n selected) (\<lambda>_.
     and_then (judge_pages w cfg late domain) (\<lambda>j.
     harvest w domain (Some j) None))))"

definition home_found ::
  "world \<Rightarrow> settings \<Rightarrow> (nat \<Rightarrow> bool) \<Rightarrow> string \<Rightarrow> dns_result \<Rightarrow> fetch_result \<Rightarrow> nat \<Rightarrow> domain_result step" where
  "home_found w cfg late domain dns home n =
     and_then (\<lambda>s. (raising ''ValueError'' (url_host (fr_final_url home)), s)) (\<lambda>final_host.
     let tx = dl_tld (w_disc w);
         root = registrable tx final_host;
         final_domain = (if root \<noteq> [] then root else domain);
         host = host_of_key domain;
         same = (final_domain = registrable tx host)
     in and_then (change (\<lambda>s. s\<lparr>sc_final_domain := Some final_domain, sc_home_html := fr_html home\<rparr>)) (\<lambda>_.
        and_then (\<lambda>s. (raising ''ValueError'' (is_parked (w_visible w) (fr_final_url home) (fr_html home)), s)) (\<lambda>parked.
        if parked
        then done_with ((parked_result domain (dn_mx_provider dns))\<lparr>dr_final_domain := Some final_domain,
               dr_pages_fetched := [fr_final_url home], dr_jina_tokens := page_tokens home\<rparr>)
        else crawl w cfg late domain home n
               (if same then w_text w (''https://'' @ host @ ''/robots.txt'') else [])
               (if same then w_text w (''https://'' @ host @ ''/sitemap.xml'') else []))))"

definition process :: "world \<Rightarrow> settings \<Rightarrow> (nat \<Rightarrow> bool) \<Rightarrow> string \<Rightarrow> domain_result step" where
  "process w cfg late domain =
     and_then (await late 0 (Inr (check_domain (w_resolver w) domain))) (\<lambda>dns.
     and_then (change (\<lambda>s. s\<lparr>sc_dns := Some dns\<rparr>)) (\<lambda>_.
     if \<not> dn_resolves dns then done_with (failed_result domain ''dns'' (Some (dn_mx_provider dns)))
     else if check_ns (dn_ns_hosts dns) then done_with (parked_result domain (dn_mx_provider dns))
     else
       let (home_r, n) = fetch_homepage (w_html w) domain (Some dns)
       in and_then (await late 1 (map_sum Failed id home_r)) (\<lambda>(home, err).
            case home of
              Some r \<Rightarrow> home_found w cfg late domain dns r n
            | None \<Rightarrow>
                (case err of
                   Some e \<Rightarrow>
                     if fe_class e = PROVIDER_ACCOUNT then (\<lambda>s. (Inl (Failed (Fetch_Err e)), s))
                     else done_with (failed_result domain (fe_reason e) (Some (dn_mx_provider dns)))
                 | None \<Rightarrow> done_with (failed_result domain ''homepage'' (Some (dn_mx_provider dns)))))))"

text \<open>
  \<open>_attempt_domain\<close>. Its handlers: an open circuit, the deadline with salvage, an error of the
  fetcher, any other exception. What a handler itself raises is not caught by its siblings.
\<close>

fun exc_type :: "exc \<Rightarrow> string" where
  "exc_type (Httpx k _) = kind_name k"
| "exc_type (Other_Exc name _) = name"

text \<open>\<open>except TimeoutError\<close> is the deadline, and also a \<open>TimeoutError\<close> that came out of a stage.\<close>

fun timed_out :: "stop \<Rightarrow> bool" where
  "timed_out Timed_Out = True"
| "timed_out (Failed (Raised (Other_Exc name _))) = (name = ''TimeoutError'')"
| "timed_out _ = False"

definition salvage :: "world \<Rightarrow> string \<Rightarrow> scratch \<Rightarrow> stop + domain_result" where
  "salvage w domain s =
     (if sc_pages s \<noteq> [] then fst (harvest w domain None (Some ''domain_timeout'') s)
      else Inr (failed_result domain ''domain_timeout'' (map_option dn_mx_provider (sc_dns s))))"

definition on_stop :: "world \<Rightarrow> string \<Rightarrow> stop \<Rightarrow> scratch \<Rightarrow> stop + domain_result" where
  "on_stop w domain e s =
     (if timed_out e then salvage w domain s
      else case e of
          Failed (Fetch.Circuit_Open _) \<Rightarrow> Inr (failed_result domain ''circuit_open'' None)
        | Failed (Fetch_Err f) \<Rightarrow>
            if fe_class f = PROVIDER_ACCOUNT then Inl e else Inr (internal_error domain ''FetchError'')
        | Failed Cancelled \<Rightarrow> Inl e
        | Failed (Raised x) \<Rightarrow> Inr (internal_error domain (exc_type x))
        | Other_Error name \<Rightarrow> Inr (internal_error domain name))"

definition attempt_domain :: "world \<Rightarrow> settings \<Rightarrow> (nat \<Rightarrow> bool) \<Rightarrow> string \<Rightarrow> stop + domain_result" where
  "attempt_domain w cfg late domain =
     (case process w cfg late domain Scratch of (Inr r, _) \<Rightarrow> Inr r | (Inl e, s) \<Rightarrow> on_stop w domain e s)"

section \<open>Retries and the entry points\<close>

definition MIN_RETRY_DELAY_S :: rat where "MIN_RETRY_DELAY_S = 1"
definition MAX_RETRY_DELAY_S :: rat where "MAX_RETRY_DELAY_S = 60"

definition retry_delay :: "rat \<Rightarrow> rat \<Rightarrow> rat" where
  "retry_delay remaining rnd =
     jittered (min (max remaining MIN_RETRY_DELAY_S) MAX_RETRY_DELAY_S) (1 / 2) rnd"

fun attempts_from ::
  "(nat \<Rightarrow> world) \<Rightarrow> settings \<Rightarrow> (nat \<Rightarrow> nat \<Rightarrow> bool) \<Rightarrow> string \<Rightarrow> nat \<Rightarrow> nat \<Rightarrow> (stop + domain_result) \<times> nat" where
  "attempts_from ws cfg late domain k left =
     (case attempt_domain (ws k) cfg (late k) domain of
        Inl e \<Rightarrow> (Inl e, Suc k)
      | Inr r \<Rightarrow>
          if dr_error_reason r \<notin> Some ` set RETRYABLE_DOMAIN_REASONS \<or> left = 0 then (Inr r, Suc k)
          else attempts_from ws cfg late domain (Suc k) (left - 1))"

definition process_domain ::
  "(nat \<Rightarrow> world) \<Rightarrow> settings \<Rightarrow> (nat \<Rightarrow> nat \<Rightarrow> bool) \<Rightarrow> string \<Rightarrow> (stop + domain_result) \<times> nat" where
  "process_domain ws cfg late domain =
     attempts_from ws cfg late domain 0 (nat (max 1 (max_domain_attempts cfg)) - 1)"

definition process_input ::
  "(nat \<Rightarrow> world) \<Rightarrow> settings \<Rightarrow> (nat \<Rightarrow> nat \<Rightarrow> bool) \<Rightarrow> tld_lib \<Rightarrow> (string \<Rightarrow> string option) \<Rightarrow> string \<Rightarrow> stop + domain_result" where
  "process_input ws cfg late tx puny raw =
     (let norm = normalize_input tx puny raw
      in if \<not> ni_ok norm
         then Inr ((DomainResult (if truthy (ni_domain norm) then or_empty (ni_domain norm) else take (nat 255) (strip raw))
                 Invalid_Input)\<lparr>dr_error_reason := ni_reason norm\<rparr>)
         else map_sum id (\<lambda>r. if ni_notes norm \<noteq> []
                then r\<lparr>dr_error_reason := (if truthy (dr_error_reason r) then dr_error_reason r else Some (hd (ni_notes norm)))\<rparr>
                else r) (fst (process_domain ws cfg late (or_empty (ni_domain norm)))))"

end
