(* ===== verification/Pipeline_Props.thy ===== *)
theory Pipeline_Props
  imports Pipeline
begin

text \<open>
  What a domain's result is worth: every address in it was read from a page that was fetched,
  the best one and the business ones are among them, and the status agrees. The proofs go along
  the steps with triples: a precondition on the scratchpad, a postcondition on value and
  scratchpad, and one for the scratchpad an exception leaves behind.
\<close>

section \<open>Triples\<close>

definition triple ::
  "(scratch \<Rightarrow> bool) \<Rightarrow> 'a step \<Rightarrow> ('a \<Rightarrow> scratch \<Rightarrow> bool) \<Rightarrow> (scratch \<Rightarrow> bool) \<Rightarrow> bool" where
  "triple P m Q R \<longleftrightarrow> (\<forall>s. P s \<longrightarrow> (case m s of (Inr x, s') \<Rightarrow> Q x s' | (Inl e, s') \<Rightarrow> R s'))"

lemma triple_and_then:
  assumes "triple P m Q R" and "\<And>x. triple (Q x) (f x) Q' R"
  shows "triple P (and_then m f) Q' R"
  unfolding triple_def
proof (intro allI impI)
  fix s assume "P s"
  with assms(1) have a: "case m s of (Inr x, s') \<Rightarrow> Q x s' | (Inl e, s') \<Rightarrow> R s'" by (simp add: triple_def)
  obtain r s' where m: "m s = (r, s')" by force
  show "case and_then m f s of (Inr x, s') \<Rightarrow> Q' x s' | (Inl e, s') \<Rightarrow> R s'"
  proof (cases r)
    case (Inl e)
    with a m show ?thesis by (simp add: and_then_def)
  next
    case (Inr x)
    with a m have "Q x s'" by simp
    with assms(2) [of x] show ?thesis by (simp add: triple_def and_then_def m Inr)
  qed
qed

lemma triple_await: "(\<And>s. P s \<Longrightarrow> R s) \<Longrightarrow> triple P (await late k x) (\<lambda>v s. P s \<and> x = Inr v) R"
  by (auto simp: triple_def await_def split: sum.split)

lemma triple_done: "(\<And>s. P s \<Longrightarrow> Q x s) \<Longrightarrow> triple P (done_with x) Q R"
  by (simp add: triple_def done_with_def)

lemma triple_change: "(\<And>s. P s \<Longrightarrow> Q () (f s)) \<Longrightarrow> triple P (change f) Q R"
  by (simp add: triple_def change_def)

lemma triple_pure: "(\<And>s. P s \<Longrightarrow> R s) \<Longrightarrow> triple P (\<lambda>s. (x, s)) (\<lambda>v s. P s \<and> x = Inr v) R"
  by (auto simp: triple_def split: sum.split)

lemma triple_weaken:
  assumes "triple P m Q R" and "\<And>s. P' s \<Longrightarrow> P s" and "\<And>x s. Q x s \<Longrightarrow> Q' x s" and "\<And>s. R s \<Longrightarrow> R' s"
  shows "triple P' m Q' R'"
  unfolding triple_def
proof (intro allI impI)
  fix s assume "P' s"
  with assms(1, 2) have a: "case m s of (Inr x, s') \<Rightarrow> Q x s' | (Inl e, s') \<Rightarrow> R s'" by (simp add: triple_def)
  obtain r s' where m: "m s = (r, s')" by force
  from a assms(3, 4) show "case m s of (Inr x, s') \<Rightarrow> Q' x s' | (Inl e, s') \<Rightarrow> R' s'"
    unfolding m by (cases r) simp_all
qed

section \<open>Extraction\<close>

definition ranked_ok :: "tld_lib \<Rightarrow> string list \<Rightarrow> ranked_email list \<Rightarrow> bool" where
  "ranked_ok tx urls rs = (distinct (map re_email rs) \<and>
     list_all (\<lambda>r. well_formed tx (re_email r) \<and> ec_source_urls (re_candidate r) \<noteq> [] \<and>
       set (ec_source_urls (re_candidate r)) \<subseteq> set urls) rs)"

lemma map_re_email: "map re_email (keep_ranked tx cs site) = map ec_email (filter (\<lambda>c. should_drop tx (ec_email c) = None) cs)"
  by (simp add: keep_ranked_def re_email_def)

lemma rank_distinct:
  assumes "distinct (map ec_email cs)"
  shows "distinct (map re_email (rank_candidates tx cs site scores))"
proof -
  have "distinct (map re_email (keep_ranked tx cs site))"
    unfolding map_re_email using assms by (rule distinct_map_filter)
  then have "distinct (map re_email (sort_key (sort_key_of scores) (keep_ranked tx cs site)))"
    by (simp add: distinct_map inj_on_def)
  then show ?thesis unfolding rank_candidates_def by (simp add: take_map [symmetric] distinct_take)
qed

lemma candidates_of_pages:
  assumes "c \<in> set (concat (page_candidates w pages))"
  shows "\<exists>url \<in> set (map fst pages). well_formed (pl_tld (w_page w)) (ec_email c) \<and> ec_source_urls c = [url]"
proof -
  from assms obtain url score html where p: "(url, score, html) \<in> set pages"
    and c: "c \<in> set (fst (extract_page (w_page w) html url))" by (auto simp: page_candidates_def)
  from extract_page_ok [of "w_page w" url html] c
  have "well_formed (pl_tld (w_page w)) (ec_email c) \<and> ec_source_urls c = [url]"
    by (auto simp: page_ok_def list_all_iff)
  with p show ?thesis by force
qed

lemma merged_ok:
  assumes "m \<in> set (merge_pages (page_candidates w pages))"
  shows "well_formed (pl_tld (w_page w)) (ec_email m) \<and> ec_source_urls m \<noteq> [] \<and> set (ec_source_urls m) \<subseteq> set (map fst pages)"
proof -
  define same where "same = filter (\<lambda>c. ec_email c = ec_email m) (concat (page_candidates w pages))"
  from assms merge_pages_of [of "page_candidates w pages"]
  have "sum_of (concat (page_candidates w pages)) m" by (simp add: merge_of_def)
  then have s: "same \<noteq> []" "set (ec_source_urls m) = \<Union> (set (map (set \<circ> ec_source_urls) same))"
    by (simp_all add: sum_of_def Let_def same_def)
  have from_pages: "\<exists>url \<in> set (map fst pages). well_formed (pl_tld (w_page w)) (ec_email m) \<and> ec_source_urls x = [url]"
    if "x \<in> set same" for x
  proof -
    from that have x: "x \<in> set (concat (page_candidates w pages))" "ec_email x = ec_email m"
      unfolding same_def by simp_all
    from candidates_of_pages [OF x(1)] show ?thesis unfolding x(2) .
  qed
  from s(1) obtain c where c: "c \<in> set same" by (meson last_in_set)
  from from_pages [OF c] obtain url where u: "well_formed (pl_tld (w_page w)) (ec_email m)" "ec_source_urls c = [url]" by blast
  have "set (ec_source_urls c) \<subseteq> set (ec_source_urls m)" unfolding s(2) using c by auto
  then have "ec_source_urls m \<noteq> []" using u(2) by auto
  moreover have "set (ec_source_urls m) \<subseteq> set (map fst pages)"
    unfolding s(2)
  proof
    fix v assume "v \<in> \<Union> (set (map (set \<circ> ec_source_urls) same))"
    then obtain x where x: "x \<in> set same" "v \<in> set (ec_source_urls x)" by auto
    from from_pages [OF x(1)] x(2) show "v \<in> set (map fst pages)" by (metis empty_iff list.set(1) set_ConsD)
  qed
  ultimately show ?thesis using u(1) by blast
qed

lemma extract_pages_ok:
  assumes "extract_pages w s = Some ex"
  shows "ranked_ok (pl_tld (w_page w)) (map fst (sc_pages s)) (ex_ranked ex)"
proof -
  define cs where "cs = merge_pages (page_candidates w (sc_pages s))"
  define ranked where "ranked = rank_candidates (pl_tld (w_page w)) cs (or_empty (sc_final_domain s))
    (rev (map (\<lambda>(url, score, _). (url, score)) (sc_pages s)))"
  define P where "P = (\<lambda>r :: ranked_email. set (ec_source_urls (re_candidate r)) \<inter> set (map fst (sc_pages s)) \<noteq> {})"
  have ex: "ex_ranked ex = filter P ranked"
    using assms unfolding extract_pages_def Let_def cs_def [symmetric] ranked_def [symmetric] P_def [symmetric] by auto
  have "distinct (map ec_email cs)"
    using merge_pages_of [of "page_candidates w (sc_pages s)"] by (simp add: merge_of_def cs_def)
  then have "distinct (map re_email ranked)" unfolding ranked_def by (rule rank_distinct)
  moreover have "well_formed (pl_tld (w_page w)) (re_email r) \<and> ec_source_urls (re_candidate r) \<noteq> [] \<and>
      set (ec_source_urls (re_candidate r)) \<subseteq> set (map fst (sc_pages s))" if "r \<in> set ranked" for r
    using ranked_subset [OF that [unfolded ranked_def]] merged_ok [of "re_candidate r" w "sc_pages s"]
    by (simp add: cs_def re_email_def)
  ultimately show ?thesis
    unfolding ranked_ok_def ex list_all_iff set_filter by (intro conjI distinct_map_filter ballI) blast+
qed

text \<open>The cached extraction is the extraction of the pages there are.\<close>

definition cache_ok :: "world \<Rightarrow> scratch \<Rightarrow> bool" where
  "cache_ok w s = (case sc_extracted s of
     None \<Rightarrow> True | Some (n, ex) \<Rightarrow> n = length (sc_pages s) \<longrightarrow> extract_pages w s = Some ex)"

lemma extract_pages_cache [simp]: "extract_pages w (s\<lparr>sc_extracted := c\<rparr>) = extract_pages w s"
  by (simp add: extract_pages_def)

lemma extract_all_eq:
  assumes "cache_ok w s"
  shows "\<exists>s'. extract_all w s = (raising ''ValueError'' (extract_pages w s), s') \<and> cache_ok w s' \<and>
    sc_pages s' = sc_pages s \<and> extract_pages w s' = extract_pages w s"
proof (cases "sc_extracted s")
  case None
  then show ?thesis
    by (cases "extract_pages w s") (simp_all add: extract_all_def raising_def cache_ok_def)
next
  case (Some c)
  obtain n ex where c: "c = (n, ex)" by force
  show ?thesis
  proof (cases "n = length (sc_pages s)")
    case True
    with assms Some c have "extract_pages w s = Some ex" by (simp add: cache_ok_def)
    with True Some c assms show ?thesis by (simp add: extract_all_def raising_def)
  next
    case False
    with Some c assms show ?thesis
      by (cases "extract_pages w s") (simp_all add: extract_all_def raising_def cache_ok_def)
  qed
qed

section \<open>The result\<close>

definition result_ok :: "tld_lib \<Rightarrow> domain_result \<Rightarrow> bool" where
  "result_ok tx r = (distinct (map eo_email (dr_all_emails r)) \<and>
     list_all (\<lambda>c. well_formed tx (eo_email c) \<and> eo_source_urls c \<noteq> [] \<and>
       list_all (\<lambda>u. u \<in> set (dr_pages_fetched r)) (eo_source_urls c)) (dr_all_emails r) \<and>
     (case dr_best_email r of
        None \<Rightarrow> dr_status r \<noteq> Found
      | Some e \<Rightarrow> dr_status r = Found \<and> e \<in> set (map eo_email (dr_all_emails r))) \<and>
     list_all (\<lambda>e. e \<in> set (map eo_email (dr_all_emails r))) (dr_business_emails r))"

lemma well_formed_nonempty: "well_formed tx e \<Longrightarrow> e \<noteq> [] \<and> lower e = e"
  by (auto simp: well_formed_def rpartition_at_def split: option.splits)

text \<open>What the judgement may name: addresses that were ranked.\<close>

definition about :: "ranked_email list \<Rightarrow> judgement \<Rightarrow> bool" where
  "about ranked j \<longleftrightarrow> set (ju_business_emails j) \<subseteq> re_email ` set ranked \<and>
     (\<forall>e. ju_best_email j = Some e \<longrightarrow> e \<in> re_email ` set ranked)"

lemma about_rules_only: "about ranked (rules_only ranked)"
  by (cases ranked) (auto simp: about_def rules_only_def Judgment_def)

lemma about_judged:
  assumes "judge cfg pf ask ranked domain title = Some j" and "ranked_ok tx urls ranked"
  shows "about ranked j"
proof -
  have low: "lower (re_email r) = re_email r" if "r \<in> set ranked" for r
    using assms(2) that well_formed_nonempty by (auto simp: ranked_ok_def list_all_iff)
  note facts = judge_facts [OF assms(1)]
  show ?thesis
  proof (cases "ju_typesafe_called j")
    case False
    with facts have "j\<lparr>ju_typesafe_error := False\<rparr> = rules_only ranked" by simp
    then have "ju_business_emails j = ju_business_emails (rules_only ranked)" "ju_best_email j = ju_best_email (rules_only ranked)"
      by (metis judgement.select_convs(5) judgement.surjective judgement.update_convs(8),
          metis judgement.select_convs(1) judgement.surjective judgement.update_convs(8))
    with about_rules_only show ?thesis by (simp add: about_def)
  next
    case True
    with facts have s: "sound_judgement cfg (judged cfg ranked domain title) j"
      and sub: "set (judged cfg ranked domain title) \<subseteq> (lower \<circ> re_email) ` set ranked" by simp_all
    from sub low have sub: "set (judged cfg ranked domain title) \<subseteq> re_email ` set ranked" by force
    from s have "set (ju_business_emails j) \<subseteq> set (judged cfg ranked domain title)"
      and "\<And>e. ju_best_email j = Some e \<Longrightarrow> e \<in> set (ju_business_emails j)"
      by (auto simp: sound_judgement_def)
    with sub show ?thesis unfolding about_def by blast
  qed
qed

lemma trust_about: "about ranked j \<Longrightarrow> trust ranked j = j"
  by (cases "ju_best_email j") (auto simp: trust_def about_def)

lemma result_of_ok:
  assumes "ranked_ok tx (map fst (sc_pages s)) (ex_ranked ex)" and "about (ex_ranked ex) j"
  shows "result_ok tx (result_of domain s ex j site why) \<and>
    dr_pages_fetched (result_of domain s ex j site why) = map fst (sc_pages s)"
proof -
  have emails: "map (eo_email \<circ> candidate_out j) (ex_ranked ex) = map re_email (ex_ranked ex)"
    by (simp add: candidate_out_def)
  have nonempty: "e \<noteq> []" if "e \<in> re_email ` set (ex_ranked ex)" for e
    using that assms(1) well_formed_nonempty by (auto simp: ranked_ok_def list_all_iff)
  have best: "case ju_best_email j of None \<Rightarrow> True | Some e \<Rightarrow> e \<noteq> [] \<and> e \<in> re_email ` set (ex_ranked ex)"
    using assms(2) nonempty by (auto simp: about_def split: option.split)
  show ?thesis
    using assms best
    by (auto simp: result_ok_def result_of_def emails ranked_ok_def about_def list_all_iff candidate_out_def
      assign_status_def truthy_def image_image DomainResult_def split: option.splits)
qed

section \<open>Along the steps\<close>

definition steady :: "world \<Rightarrow> nat \<Rightarrow> scratch \<Rightarrow> bool" where
  "steady w K s = (cache_ok w s \<and> length (sc_pages s) \<le> K)"

definition room_for :: "nat \<Rightarrow> nat \<Rightarrow> scratch \<Rightarrow> bool" where
  "room_for K n s = (sc_extracted s = None \<and> length (sc_pages s) + n \<le> K)"

lemma room_steady: "room_for K n s \<Longrightarrow> steady w K s"
  by (simp add: room_for_def steady_def cache_ok_def)

lemma extract_all_triple:
  "triple (steady w K) (extract_all w) (\<lambda>ex s. steady w K s \<and> extract_pages w s = Some ex) (steady w K)"
  unfolding triple_def
proof (intro allI impI)
  fix s assume "steady w K s"
  then have "cache_ok w s" and len: "length (sc_pages s) \<le> K" by (simp_all add: steady_def)
  from extract_all_eq [OF this(1)] obtain s' where
    "extract_all w s = (raising ''ValueError'' (extract_pages w s), s')" "cache_ok w s'"
    "sc_pages s' = sc_pages s" "extract_pages w s' = extract_pages w s" by blast
  with len show "case extract_all w s of (Inr ex, s') \<Rightarrow> steady w K s' \<and> extract_pages w s' = Some ex
      | (Inl e, s') \<Rightarrow> steady w K s'"
    by (cases "extract_pages w s") (simp_all add: raising_def steady_def)
qed

lemma raising_Inr [simp]: "raising name x = Inr y \<longleftrightarrow> x = Some y"
  by (simp add: raising_def split: option.split)

lemma judge_pages_triple:
  "triple (steady w K) (judge_pages w cfg late domain)
     (\<lambda>j s. steady w K s \<and> (\<exists>ex. extract_pages w s = Some ex \<and> about (ex_ranked ex) j)) (steady w K)"
  unfolding judge_pages_def
proof (rule triple_and_then [OF extract_all_triple])
  fix ex
  show "triple (\<lambda>s. steady w K s \<and> extract_pages w s = Some ex)
    (\<lambda>s. await late 5 (raising ''AttributeError'' (judge cfg (w_float w) (w_ask w) (ex_ranked ex)
         (if truthy (sc_final_domain s) then or_empty (sc_final_domain s) else domain)
         (pl_title (w_page w) (sc_home_html s)))) s)
    (\<lambda>j s. steady w K s \<and> (\<exists>ex. extract_pages w s = Some ex \<and> about (ex_ranked ex) j)) (steady w K)"
    using about_judged extract_pages_ok
    by (fastforce simp: triple_def await_def split: sum.split)
qed

definition good :: "tld_lib \<Rightarrow> nat \<Rightarrow> domain_result \<Rightarrow> bool" where
  "good tx K r = (result_ok tx r \<and> length (dr_pages_fetched r) \<le> K)"

lemma harvest_triple:
  assumes "\<And>s ex. P s \<Longrightarrow> extract_pages w s = Some ex \<Longrightarrow>
    about (ex_ranked ex) (case judgement of None \<Rightarrow> rules_only (ex_ranked ex) | Some j \<Rightarrow> j)"
    and "\<And>s. P s \<Longrightarrow> steady w K s"
  shows "triple P (harvest w domain judgement why) (\<lambda>r s. good (pl_tld (w_page w)) K r) (steady w K)"
  unfolding triple_def
proof (intro allI impI)
  fix s assume P: "P s"
  note steady = assms(2) [OF P]
  from steady have "cache_ok w s" and len: "length (sc_pages s) \<le> K" by (simp_all add: steady_def)
  from extract_all_eq [OF this(1)] obtain s' where s': "extract_all w s = (raising ''ValueError'' (extract_pages w s), s')"
    "sc_pages s' = sc_pages s" "extract_pages w s' = extract_pages w s" "cache_ok w s'" by blast
  have after: "steady w K s'" using s' len by (simp add: steady_def)
  show "case harvest w domain judgement why s of (Inr r, s') \<Rightarrow> good (pl_tld (w_page w)) K r | (Inl e, s') \<Rightarrow> steady w K s'"
  proof (cases "extract_pages w s")
    case None
    with s'(1) after show ?thesis by (simp add: harvest_def and_then_def raising_def)
  next
    case (Some ex)
    define j where "j = (case judgement of None \<Rightarrow> rules_only (ex_ranked ex) | Some j \<Rightarrow> j)"
    have a: "about (ex_ranked ex) j" unfolding j_def by (rule assms(1) [OF P Some])
    have ok: "ranked_ok (pl_tld (w_page w)) (map fst (sc_pages s')) (ex_ranked ex)"
      using extract_pages_ok [of w s' ex] s'(3) Some by simp
    note R = result_of_ok [OF ok a, of domain _ why]
    have h: "harvest w domain judgement why s =
        (map_sum id (\<lambda>site. result_of domain s' ex j site why)
          (raising ''ValidationError'' (optional_str (ju_site_status j))), s')"
      by (simp add: harvest_def and_then_def s'(1) Some raising_def j_def [symmetric] trust_about [OF a])
    show ?thesis
      unfolding h using R len s'(2) after
      by (cases "optional_str (ju_site_status j)") (simp_all add: raising_def good_def)
  qed
qed

lemma fetch_pages_length: "fetch_pages get n cs = Inr ps \<Longrightarrow> length ps = length cs"
  by (induction get n cs arbitrary: ps rule: fetch_pages.induct) (auto split: sum.splits)

lemma add_page_room: "room_for K (Suc n) s \<Longrightarrow> room_for K n (add_page pt s)"
  by (simp add: room_for_def add_page_def)

lemma add_pages_room: "room_for K (length pts + n) s \<Longrightarrow> room_for K n (fold add_page pts s)"
proof (induction pts arbitrary: s)
  case (Cons pt pts)
  from Cons.prems have "room_for K (length pts + n) (add_page pt s)" by (intro add_page_room) simp
  with Cons.IH show ?case by simp
qed simp

lemma room_le: "room_for K n s \<Longrightarrow> m \<le> n \<Longrightarrow> room_for K m s"
  by (simp add: room_for_def)

lemma fetch_contact_triple:
  "triple (room_for K (length selected)) (fetch_contact w cfg late n selected)
     (\<lambda>(rest, n') s. room_for K (length rest) s) (steady w K)"
proof (cases "find (\<lambda>c. su_tier c = Some ''contact'') selected")
  case None
  then show ?thesis by (simp add: fetch_contact_def triple_def done_with_def)
next
  case (Some contact)
  then have mem: "contact \<in> set selected" by (auto simp: find_Some_iff)
  then have len: "length selected = Suc (length (remove1 contact selected))"
    by (simp add: length_remove1 Suc_pred [OF length_pos_if_in_set])
  show ?thesis
    unfolding triple_def
  proof (intro allI impI)
    fix s assume r: "room_for K (length selected) s"
    have "room_for K (length (remove1 contact selected)) (add_page pt s)" for pt
      using r unfolding len by (rule add_page_room)
    moreover from this have "room_for K 0 (add_page pt s)" for pt by (rule room_le) simp
    ultimately show "case fetch_contact w cfg late n selected s of
        (Inr x, s') \<Rightarrow> (case x of (rest, n') \<Rightarrow> room_for K (length rest)) s' | (Inl e, s') \<Rightarrow> steady w K s'"
      using room_steady [OF r]
      by (cases "fetch_page (w_html w) n contact")
        (simp_all add: fetch_contact_def Some and_then_def await_def Let_def)
  qed
qed

lemma fetch_selected_triple:
  "triple (room_for K (length selected)) (fetch_selected w cfg late n selected) (\<lambda>_. steady w K) (steady w K)"
  unfolding fetch_selected_def
proof (rule triple_and_then [OF fetch_contact_triple], clarify)
  fix rest n'
  show "triple (room_for K (length rest))
      (if rest = [] then done_with ()
       else and_then (await late 4 (map_sum Failed id (fetch_pages (w_html w) n' rest))) (\<lambda>pts. change (fold add_page pts)))
      (\<lambda>_. steady w K) (steady w K)"
  proof (cases "rest = []")
    case True
    then show ?thesis by (simp add: triple_done room_steady)
  next
    case False
    have "room_for K 0 (fold add_page pts s)" if "room_for K (length rest) s" "fetch_pages (w_html w) n' rest = Inr pts" for s pts
      using that fetch_pages_length [OF that(2)] by (intro add_pages_room) simp
    then have ok: "steady w K (fold add_page pts s)"
      if "room_for K (length rest) s" "fetch_pages (w_html w) n' rest = Inr pts" for s pts
      using that room_steady by blast
    show ?thesis
      using False ok room_steady
      by (cases "fetch_pages (w_html w) n' rest")
        (auto simp: triple_def and_then_def await_def change_def)
  qed
qed

lemma discover_length:
  assumes "discover_pages lib text_of final_url html robots sitemap limit = Some (sel, diag)"
  shows "length sel \<le> limit"
proof -
  obtain home where "urlsplit final_url = Some home"
    using assms by (cases "urlsplit final_url") (simp_all add: discover_pages_def)
  from discover_select [OF assms this] select_facts show ?thesis by blast
qed

definition page_limit :: "settings \<Rightarrow> nat" where
  "page_limit cfg = nat (max 1 (max_pages_per_domain cfg))"

definition blank :: "scratch \<Rightarrow> bool" where
  "blank s = (sc_extracted s = None \<and> sc_pages s = [])"

lemma blank_steady: "blank s \<Longrightarrow> steady w K s"
  by (simp add: blank_def steady_def cache_ok_def)

lemma crawl_triple:
  "triple blank (crawl w cfg late domain home n robots sitemap)
     (\<lambda>r s. good (pl_tld (w_page w)) (page_limit cfg) r) (steady w (page_limit cfg))"
  unfolding crawl_def
proof (rule triple_and_then [OF triple_await [where P = blank, OF blank_steady]], assumption)
  fix x :: "scored_url list \<times> diagnostics"
  obtain selected diag where x: "x = (selected, diag)" by force
  let ?d = "raising ''ValueError'' (discover_pages (w_disc w) (w_docs w) (fr_final_url home) (fr_html home) robots sitemap
       (nat (max 0 (max_pages_per_domain cfg - 1))))"
  have start: "triple (\<lambda>s. blank s \<and> ?d = Inr x)
      (change (\<lambda>s. s\<lparr>sc_pages := sc_pages s @ [(fr_final_url home, 0, fr_html home)],
         sc_tokens := sc_tokens s + page_tokens home\<rparr>))
      (\<lambda>_. room_for (page_limit cfg) (length selected)) (steady w (page_limit cfg))"
  proof (rule triple_change)
    fix s assume "blank s \<and> ?d = Inr x"
    moreover from this have "length selected \<le> nat (max 0 (max_pages_per_domain cfg - 1))"
      unfolding x raising_Inr using discover_length by blast
    ultimately show "room_for (page_limit cfg) (length selected)
        (s\<lparr>sc_pages := sc_pages s @ [(fr_final_url home, 0, fr_html home)], sc_tokens := sc_tokens s + page_tokens home\<rparr>)"
      by (simp add: room_for_def blank_def page_limit_def)
  qed
  note judged = harvest_triple [where judgement = "Some j" and P = "\<lambda>s. steady w K s \<and>
    (\<exists>ex. extract_pages w s = Some ex \<and> about (ex_ranked ex) j)" for j K]
  show "triple (\<lambda>s. blank s \<and> ?d = Inr x) (case x of (selected, diag) \<Rightarrow>
     and_then (change (\<lambda>s. s\<lparr>sc_pages := sc_pages s @ [(fr_final_url home, 0, fr_html home)],
       sc_tokens := sc_tokens s + page_tokens home\<rparr>)) (\<lambda>_.
     and_then (fetch_selected w cfg late n selected) (\<lambda>_.
     and_then (judge_pages w cfg late domain) (\<lambda>j.
     harvest w domain (Some j) None))))
     (\<lambda>r s. good (pl_tld (w_page w)) (page_limit cfg) r) (steady w (page_limit cfg))"
    unfolding x prod.case
    by (rule triple_and_then [OF start [unfolded x] triple_and_then [OF fetch_selected_triple
          triple_and_then [OF judge_pages_triple judged]]]) auto
qed

lemma plain_results:
  "0 < K \<Longrightarrow> good tx K (failed_result domain reason mx)" "good tx K (internal_error domain name)"
  "good tx K (parked_result domain p)"
  "0 < K \<Longrightarrow> good tx K ((parked_result domain p)\<lparr>dr_final_domain := d, dr_pages_fetched := [u], dr_jina_tokens := n\<rparr>)"
  by (simp_all add: good_def result_ok_def failed_result_def internal_error_def parked_result_def DomainResult_def)

lemma page_limit_pos: "0 < page_limit cfg"
  by (simp add: page_limit_def)

lemma home_found_triple:
  "triple blank (home_found w cfg late domain dns home n)
     (\<lambda>r s. good (pl_tld (w_page w)) (page_limit cfg) r) (steady w (page_limit cfg))"
proof -
  have pure: "triple blank (\<lambda>s. (x, s)) (\<lambda>_. blank) (steady w (page_limit cfg))" for x :: "stop + 'b"
    by (rule triple_weaken [OF triple_pure [where P = blank, OF blank_steady]]) simp_all
  have final: "triple blank (change (\<lambda>s. s\<lparr>sc_final_domain := d, sc_home_html := h\<rparr>)) (\<lambda>_. blank)
      (steady w (page_limit cfg))" for d h
    by (rule triple_change) (simp add: blank_def)
  show ?thesis
    unfolding home_found_def Let_def
    by (intro triple_and_then [OF pure] triple_and_then [OF final])
      (simp add: crawl_triple triple_done plain_results page_limit_pos)
qed

lemma process_triple:
  "triple blank (process w cfg late domain)
     (\<lambda>r s. good (pl_tld (w_page w)) (page_limit cfg) r) (steady w (page_limit cfg))"
proof -
  have wait: "triple blank (await late k x) (\<lambda>_. blank) (steady w (page_limit cfg))" for k and x :: "stop + 'b"
    by (rule triple_weaken [OF triple_await [where P = blank, OF blank_steady]]) simp_all
  have dns: "triple blank (change (\<lambda>s. s\<lparr>sc_dns := d\<rparr>)) (\<lambda>_. blank) (steady w (page_limit cfg))" for d
    by (rule triple_change) (simp add: blank_def)
  have raise: "triple blank (\<lambda>s. (Inl e, s)) (\<lambda>r s. good (pl_tld (w_page w)) (page_limit cfg) r) (steady w (page_limit cfg))" for e
    by (simp add: triple_def blank_steady)
  have ended: "triple blank (done_with r) (\<lambda>r s. good (pl_tld (w_page w)) (page_limit cfg) r) (steady w (page_limit cfg))"
    if "good (pl_tld (w_page w)) (page_limit cfg) r" for r
    using that by (simp add: triple_done)
  note ends = ended [OF plain_results(1) [OF page_limit_pos]] ended [OF plain_results(3)]
  show ?thesis
    unfolding process_def Let_def
    by (intro triple_and_then [OF wait] triple_and_then [OF dns])
      (auto simp: ends home_found_triple raise intro!: triple_and_then [OF wait] split: prod.split option.split)
qed

lemma attempt_good:
  assumes "attempt_domain w cfg late domain = Inr r"
  shows "good (pl_tld (w_page w)) (page_limit cfg) r"
proof -
  let ?tx = "pl_tld (w_page w)" and ?K = "page_limit cfg"
  obtain x s where p: "process w cfg late domain Scratch = (x, s)" by force
  have "blank Scratch" by (simp add: blank_def Scratch_def)
  with process_triple [of w cfg late domain] p
  have c: "case x of Inr r \<Rightarrow> good ?tx ?K r | Inl e \<Rightarrow> steady w ?K s"
    by (fastforce simp: triple_def split: sum.splits)
  have salvaged: "good ?tx ?K r" if "salvage w domain s = Inr r" "steady w ?K s"
  proof (cases "sc_pages s = []")
    case True
    with that(1) show ?thesis by (auto simp: salvage_def plain_results page_limit_pos)
  next
    case False
    have "triple (steady w ?K) (harvest w domain None (Some ''domain_timeout'')) (\<lambda>r s. good ?tx ?K r) (steady w ?K)"
      by (rule harvest_triple) (simp_all add: about_rules_only)
    with that False show ?thesis
      by (cases "harvest w domain None (Some ''domain_timeout'') s") (auto simp: triple_def salvage_def)
  qed
  show ?thesis
  proof (cases x)
    case (Inr r')
    with assms p c show ?thesis by (simp add: attempt_domain_def)
  next
    case (Inl e)
    with assms p have h: "on_stop w domain e s = Inr r" by (simp add: attempt_domain_def)
    from c Inl have st: "steady w ?K s" by simp
    show ?thesis
    proof (cases "timed_out e")
      case True
      with h have "salvage w domain s = Inr r" by (simp add: on_stop_def)
      from salvaged [OF this st] show ?thesis .
    next
      case False
      with h show ?thesis
        by (auto simp: on_stop_def plain_results page_limit_pos split: stop.splits failure.splits if_splits)
    qed
  qed
qed

section \<open>What escapes\<close>

text \<open>
  The exceptions a domain may end with: the provider's account, a cancellation, and the
  \<open>ValueError\<close> of a page whose links cannot be split, when the salvage meets it again.
\<close>

definition escapes :: "stop \<Rightarrow> bool" where
  "escapes e = (case e of
     Failed (Fetch_Err f) \<Rightarrow> fe_class f = PROVIDER_ACCOUNT
   | Failed Cancelled \<Rightarrow> True
   | Other_Error name \<Rightarrow> name = ''ValueError''
   | _ \<Rightarrow> False)"

lemma rules_only_site: "ju_site_status (trust ranked (rules_only ranked)) = JNull"
  by (simp add: trust_def rules_only_def Judgment_def split: list.split)

lemma salvage_escapes: "salvage w domain s = Inl e \<Longrightarrow> escapes e"
  by (auto simp: salvage_def harvest_def and_then_def extract_all_def rules_only_site raising_def escapes_def Let_def
      split: if_splits option.splits prod.splits)

lemma attempt_escapes:
  assumes "attempt_domain w cfg late domain = Inl e"
  shows "escapes e"
proof -
  obtain x s where p: "process w cfg late domain Scratch = (x, s)" by force
  with assms obtain f where h: "on_stop w domain f s = Inl e" by (cases x) (simp_all add: attempt_domain_def)
  show ?thesis
  proof (cases "timed_out f")
    case True
    with h have "salvage w domain s = Inl e" by (simp add: on_stop_def)
    then show ?thesis by (rule salvage_escapes)
  next
    case False
    with h show ?thesis by (auto simp: on_stop_def escapes_def split: stop.splits failure.splits if_splits)
  qed
qed

section \<open>All attempts\<close>

definition max_attempts :: "settings \<Rightarrow> nat" where
  "max_attempts cfg = nat (max 1 (max_domain_attempts cfg))"

lemma attempts_from_spec:
  assumes "attempts_from ws cfg late domain k left = (out, n)"
  shows "k < n \<and> n \<le> Suc (k + left) \<and> attempt_domain (ws (n - 1)) cfg (late (n - 1)) domain = out \<and>
    (\<forall>r. out = Inr r \<longrightarrow> dr_error_reason r \<in> Some ` set RETRYABLE_DOMAIN_REASONS \<longrightarrow> n = Suc (k + left))"
  using assms
proof (induction left arbitrary: k)
  case 0
  then show ?case by (cases "attempt_domain (ws k) cfg (late k) domain") auto
next
  case (Suc left)
  show ?case
  proof (cases "\<exists>r. attempt_domain (ws k) cfg (late k) domain = Inr r \<and>
      dr_error_reason r \<in> Some ` set RETRYABLE_DOMAIN_REASONS")
    case True
    with Suc.prems have "attempts_from ws cfg late domain (Suc k) left = (out, n)" by auto
    from Suc.IH [OF this] show ?thesis by auto
  next
    case False
    with Suc.prems show ?thesis by (cases "attempt_domain (ws k) cfg (late k) domain") auto
  qed
qed

lemma process_domain_result:
  assumes "fst (process_domain ws cfg late domain) = Inr r"
  shows "\<exists>k. result_ok (pl_tld (w_page (ws k))) r"
proof -
  obtain n where "process_domain ws cfg late domain = (Inr r, n)"
    using assms by (cases "process_domain ws cfg late domain") simp
  from attempts_from_spec [OF this [unfolded process_domain_def]] attempt_good [of "ws (n - 1)" cfg "late (n - 1)" domain r]
  show ?thesis unfolding good_def by blast
qed

text \<open>
  C6: A domain always ends after one to \<open>max_domain_attempts\<close> attempts, whatever the network, the
  resolver, the judging service and the deadline do. If it ends with a result, no address is in it twice, every address
  is well formed and carries at least one source, each source is a page the result lists as
  fetched, at most \<open>max_pages_per_domain\<close> pages are listed, the status is \<open>found\<close> exactly when a
  best address is given, and that one and all business addresses are among the listed ones. A
  reason that asks for a retry is reported only when every attempt is used up. Otherwise it ends
  with an exception, and then with the provider's account error, a cancellation, or the
  \<open>ValueError\<close> of an unsplittable link.
\<close>

theorem process_domain_sound:
  "case process_domain ws cfg late domain of (out, n) \<Rightarrow>
     0 < n \<and> n \<le> max_attempts cfg \<and>
     (case out of
        Inr r \<Rightarrow> result_ok (pl_tld (w_page (ws (n - 1)))) r \<and>
          int (length (dr_pages_fetched r)) \<le> max 1 (max_pages_per_domain cfg) \<and>
          (if dr_error_reason r \<in> Some ` set RETRYABLE_DOMAIN_REASONS then n = max_attempts cfg else True)
      | Inl e \<Rightarrow> escapes e)"
proof -
  obtain out n where p: "process_domain ws cfg late domain = (out, n)" by force
  from attempts_from_spec [OF p [unfolded process_domain_def]]
  have n: "0 < n" "n \<le> max_attempts cfg" "attempt_domain (ws (n - 1)) cfg (late (n - 1)) domain = out"
    "\<forall>r. out = Inr r \<longrightarrow> dr_error_reason r \<in> Some ` set RETRYABLE_DOMAIN_REASONS \<longrightarrow> n = max_attempts cfg"
    by (auto simp: max_attempts_def)
  show ?thesis
  proof (cases out)
    case (Inl e)
    with n show ?thesis by (simp add: p attempt_escapes)
  next
    case (Inr r)
    from attempt_good [OF n(3) [unfolded Inr]] n Inr show ?thesis
      by (simp add: p good_def page_limit_def le_nat_iff)
  qed
qed

text \<open>
  A site with a homepage and a contact page. The first attempt meets an open circuit, the
  second reads both pages and the address of the site's own domain, which both pages carry, wins
  over the freemail one.
\<close>

definition s_hrefs :: "string \<Rightarrow> string list" where
  "s_hrefs html = (if html = ''home'' then [''mailto:joe@gmail.com'', ''mailto:bob@acme.io'', ''/contact'']
     else if html = ''contact'' then [''mailto:bob@acme.io''] else [])"

definition s_world :: "nat \<Rightarrow> world" where
  "s_world k = \<lparr>
     w_resolver = (\<lambda>name type. if type = ''A'' then Inr [''93.184.216.34''] else Inr []),
     w_html = (\<lambda>n url.
       if k = 0 then Inl (Fetch.Circuit_Open 5)
       else if n = 0 then Inr \<lparr>fr_url = url, fr_final_url = url, fr_status = 200, fr_html = ''home'', fr_bytes = 4, fr_jina_tokens = Some 7\<rparr>
       else if n = 1 then Inr \<lparr>fr_url = url, fr_final_url = url, fr_status = 200, fr_html = ''contact'', fr_bytes = 7, fr_jina_tokens = None\<rparr>
       else Inl (Raised (Other_Exc ''OSError'' []))),
     w_text = (\<lambda>_. []), w_docs = (\<lambda>_ _. []),
     w_ask = (\<lambda>_. Inl Exhausted),
     w_page = \<lparr>pl_hrefs = (\<lambda>html. Some (s_hrefs html)), pl_attrs = (\<lambda>_. []), pl_text = id, pl_title = (\<lambda>_. []),
       pl_json = (\<lambda>_. None), pl_unquote = id, pl_tld = s_tld\<rparr>,
     w_disc = s_disc [(''/contact'', ''Contact us''), (''/about'', ''About'')],
     w_facts = \<lparr>fx_hrefs = (\<lambda>html. Some (s_hrefs html)), fx_forms = (\<lambda>_. Some []), fx_e164 = (\<lambda>_. None), fx_numbers = (\<lambda>_. [])\<rparr>,
     w_visible = id, w_float = (\<lambda>_. None)\<rparr>"

lemma sample_run:
  "case process_domain s_world (settings_default\<lparr>max_pages_per_domain := 2\<rparr>) (\<lambda>_ _. False) ''acme.io'' of
     (Inr r, n) \<Rightarrow> n = 2 \<and> dr_status r = Found \<and> dr_best_email r = Some ''bob@acme.io'' \<and> dr_jina_tokens r = 7 \<and>
       map eo_email (dr_all_emails r) = [''bob@acme.io'', ''joe@gmail.com''] \<and>
       map eo_source_urls (dr_all_emails r) = [[''https://acme.io/'', ''https://acme.io/contact''], [''https://acme.io/'']] \<and>
       dr_pages_fetched r = [''https://acme.io/'', ''https://acme.io/contact'']
   | (Inl e, n) \<Rightarrow> False"
  by code_simp

end
