(* ===== verification/Csv.thy ===== *)
theory Csv
  imports Py_Str
begin

text \<open>
  The parts of Python's \<open>csv\<close> module the program uses: the writer in its default dialect with
  \<open>\n\<close> as line terminator, and the reader over a text (a \<open>StringIO\<close> with \<open>newline=""\<close>, so a line
  ends with \<open>\n\<close>, \<open>\r\<close> or both). Reading what was written gives the same records back.
\<close>

abbreviation (input) dquote :: char where "dquote \<equiv> CHR 0x22"
abbreviation (input) newline :: char where "newline \<equiv> CHR 0x0A"
abbreviation (input) carriage :: char where "carriage \<equiv> CHR 0x0D"

section \<open>The writer\<close>

definition needs_quotes :: "char \<Rightarrow> bool" where
  "needs_quotes c = (c = CHR '','' \<or> c = dquote \<or> c = newline \<or> c = carriage)"

definition double_quotes :: "string \<Rightarrow> string" where
  "double_quotes s = concat (map (\<lambda>c. if c = dquote then [c, c] else [c]) s)"

definition csv_field :: "string \<Rightarrow> string" where
  "csv_field s = (if list_ex needs_quotes s then dquote # double_quotes s @ [dquote] else s)"

text \<open>A record of one empty field is quoted, so that it is not an empty line.\<close>

definition csv_line :: "string list \<Rightarrow> string" where
  "csv_line vs = (if vs = [[]] then [dquote, dquote] else join '','' (map csv_field vs)) @ [newline]"

section \<open>The reader\<close>

text \<open>
  \<open>After_Return\<close> follows a \<open>\r\<close> that ended a record: a \<open>\n\<close> right after it belongs to the same line
  end. \<open>None\<close> is \<open>csv.Error\<close>, raised for a field over the size limit.
\<close>

datatype csv_state = Start_Record | After_Return | Start_Field | In_Field | In_Quoted | Quote_Seen

definition FIELD_LIMIT :: nat where "FIELD_LIMIT = 131072"

primrec csv_run :: "char \<Rightarrow> string \<Rightarrow> csv_state \<Rightarrow> string \<Rightarrow> string list \<Rightarrow> string list list option" where
  "csv_run dl [] st f fs = Some (if st \<in> {Start_Record, After_Return} then [] else [fs @ [f]])"
| "csv_run dl (c # s) st f fs =
     (let add = (\<lambda>st'. if length f \<ge> FIELD_LIMIT then None else csv_run dl s st' (f @ [c]) fs)
      in if st = In_Quoted then (if c = dquote then csv_run dl s Quote_Seen f fs else add In_Quoted)
         else if st = Quote_Seen \<and> c = dquote then add In_Quoted
         else if st = After_Return \<and> c = newline then csv_run dl s Start_Record [] []
         else if c = newline \<or> c = carriage
         then map_option (Cons (if st \<in> {Start_Record, After_Return} then [] else fs @ [f]))
                (csv_run dl s (if c = carriage then After_Return else Start_Record) [] [])
         else if c = dl then csv_run dl s Start_Field [] (fs @ [f])
         else if c = dquote \<and> st \<in> {Start_Record, After_Return, Start_Field} then csv_run dl s In_Quoted f fs
         else add In_Field)"

definition csv_read :: "char \<Rightarrow> string \<Rightarrow> string list list option" where
  "csv_read dl s = csv_run dl s Start_Record [] []"

section \<open>Reading what was written\<close>

abbreviation (input) comma :: char where "comma \<equiv> CHR '',''"

lemma run_plain:
  "\<lbrakk> \<not> list_ex needs_quotes v; length f + length v \<le> FIELD_LIMIT \<rbrakk> \<Longrightarrow>
   csv_run comma (v @ s) In_Field f fs = csv_run comma s In_Field (f @ v) fs"
  by (induction v arbitrary: f) (auto simp: needs_quotes_def Let_def)

lemma run_quoted:
  "length f + length v \<le> FIELD_LIMIT \<Longrightarrow>
   csv_run comma (double_quotes v @ dquote # s) In_Quoted f fs = csv_run comma s Quote_Seen (f @ v) fs"
  by (induction v arbitrary: f) (auto simp: double_quotes_def Let_def)

lemma FIELD_LIMIT_pos [simp]: "\<not> FIELD_LIMIT = 0" "\<not> FIELD_LIMIT \<le> 0"
  by (simp_all add: FIELD_LIMIT_def)

text \<open>After a field the reader is in a state that treats a comma or a line end as its end.\<close>

lemma run_field:
  assumes "st \<in> {Start_Record, Start_Field}" and "length v \<le> FIELD_LIMIT"
  shows "\<exists>st'. csv_run comma (csv_field v @ s) st [] fs = csv_run comma s st' v fs \<and>
    st' \<in> {In_Field, Quote_Seen, st} \<and> (st' = st \<longrightarrow> v = [])"
proof (cases "list_ex needs_quotes v")
  case True
  have "csv_run comma (csv_field v @ s) st [] fs = csv_run comma (double_quotes v @ dquote # s) In_Quoted [] fs"
    using True assms(1) by (auto simp: csv_field_def Let_def)
  also have "\<dots> = csv_run comma s Quote_Seen v fs" using run_quoted [of "[]" v s fs] assms(2) by simp
  finally show ?thesis using assms(1) by (intro exI [of _ Quote_Seen]) auto
next
  case False
  show ?thesis
  proof (cases v)
    case Nil
    then show ?thesis by (intro exI [of _ st]) (simp add: csv_field_def)
  next
    case (Cons c w)
    with False have c: "c \<noteq> comma" "c \<noteq> dquote" "c \<noteq> newline" "c \<noteq> carriage" "\<not> list_ex needs_quotes w"
      by (auto simp: needs_quotes_def)
    have "csv_run comma (csv_field v @ s) st [] fs = csv_run comma (w @ s) In_Field [c] fs"
      using False Cons c assms(1) by (auto simp: csv_field_def Let_def)
    also have "\<dots> = csv_run comma s In_Field v fs"
      using run_plain [OF c(5), of "[c]" s fs] assms(2) Cons by simp
    finally show ?thesis using assms(1) by (intro exI [of _ In_Field]) auto
  qed
qed

lemma run_field_comma:
  assumes "st \<in> {Start_Record, Start_Field}" and "length v \<le> FIELD_LIMIT"
  shows "csv_run comma (csv_field v @ comma # s) st [] fs = csv_run comma s Start_Field [] (fs @ [v])"
proof -
  from run_field [OF assms, of "comma # s" fs] obtain st' where
    "csv_run comma (csv_field v @ comma # s) st [] fs = csv_run comma (comma # s) st' v fs"
    "st' \<in> {In_Field, Quote_Seen, st}" by blast
  with assms(1) show ?thesis by (auto simp: Let_def)
qed

lemma run_field_end:
  assumes "st = Start_Field \<or> st = Start_Record \<and> v \<noteq> []" and "length v \<le> FIELD_LIMIT"
  shows "csv_run comma (csv_field v @ newline # s) st [] fs =
    map_option (Cons (fs @ [v])) (csv_run comma s Start_Record [] [])"
proof -
  have st: "st \<in> {Start_Record, Start_Field}" using assms(1) by auto
  from run_field [OF st assms(2), of "newline # s" fs] obtain st' where
    "csv_run comma (csv_field v @ newline # s) st [] fs = csv_run comma (newline # s) st' v fs"
    "st' \<in> {In_Field, Quote_Seen, st}" "st' = st \<longrightarrow> v = []" by blast
  with assms(1) show ?thesis by (auto simp: Let_def)
qed

lemma join_Cons2: "join sep (x # y # ys) = x @ sep @ join sep (y # ys)"
  by (simp add: join_def)

lemma run_fields:
  "\<lbrakk> vs \<noteq> []; list_all (\<lambda>v. length v \<le> FIELD_LIMIT) vs; st = Start_Field \<or> st = Start_Record \<and> vs \<noteq> [[]] \<rbrakk> \<Longrightarrow>
   csv_run comma (join '','' (map csv_field vs) @ newline # s) st [] fs =
     map_option (Cons (fs @ vs)) (csv_run comma s Start_Record [] [])"
proof (induction vs arbitrary: st fs)
  case (Cons v vs)
  show ?case
  proof (cases vs)
    case Nil
    with Cons.prems show ?thesis using run_field_end [of st v s fs] by (auto simp: join_def)
  next
    case (Cons w ws)
    have st: "st \<in> {Start_Record, Start_Field}" using Cons.prems by auto
    have "csv_run comma (join '','' (map csv_field (v # vs)) @ newline # s) st [] fs =
        csv_run comma (join '','' (map csv_field vs) @ newline # s) Start_Field [] (fs @ [v])"
      using run_field_comma [OF st, of v "join '','' (map csv_field vs) @ newline # s" fs] Cons.prems(2) Cons
      by (simp add: join_Cons2)
    with Cons.IH [of Start_Field "fs @ [v]"] Cons.prems(2) Cons show ?thesis by simp
  qed
qed simp

lemma read_line:
  assumes "list_all (\<lambda>v. length v \<le> FIELD_LIMIT) vs"
  shows "csv_run comma (csv_line vs @ s) Start_Record [] [] = map_option (Cons vs) (csv_run comma s Start_Record [] [])"
proof -
  consider "vs = []" | "vs = [[]]" | "vs \<noteq> []" "vs \<noteq> [[]]" by blast
  then show ?thesis
  proof cases
    case 3
    with run_fields [OF 3(1) assms, of Start_Record s "[]"] show ?thesis by (simp add: csv_line_def)
  qed (simp_all add: csv_line_def join_def Let_def)
qed

lemma read_lines:
  "list_all (list_all (\<lambda>v. length v \<le> FIELD_LIMIT)) rows \<Longrightarrow> csv_read comma (concat (map csv_line rows)) = Some rows"
  unfolding csv_read_def by (induction rows) (simp_all add: read_line)

end
