(* ===== verification/Rows.thy ===== *)
theory Rows
  imports Job_Store_Props Csv Py_Net
begin

text \<open>
  The rows a client downloads: the row-shaping half of \<open>src/app/jobs.py\<close>, the older
  \<open>to_csv_row\<close> of \<open>src/app/schemas.py\<close>, and the bodies of \<open>results.csv\<close> and \<open>results.json\<close> in
  \<open>src/app/main.py\<close>. A dictionary is a list of pairs in insertion order. The byte order mark in
  front of the CSV file is left out.
\<close>

section \<open>Names of the values\<close>

fun status_str :: "status \<Rightarrow> string" where
  "status_str Invalid_Input = ''invalid_input''"
| "status_str Fetch_Failed = ''fetch_failed''"
| "status_str Parked_Or_For_Sale = ''parked_or_for_sale''"
| "status_str No_Business_Email = ''no_business_email''"
| "status_str Found = ''found''"
| "status_str Form_Only = ''form_only''"
| "status_str No_Contact_Info = ''no_contact_info''"

fun mx_str :: "mx_provider \<Rightarrow> string" where
  "mx_str Google = ''google''"
| "mx_str Microsoft = ''microsoft''"
| "mx_str Other_Mx = ''other''"
| "mx_str No_Mx = ''none''"

fun source_str :: "best_source \<Rightarrow> string" where
  "source_str By_Typesafe = ''typesafe''"
| "source_str By_Rules = ''rules''"

definition bool_str :: "bool \<Rightarrow> string" where
  "bool_str b = (if b then ''true'' else ''false'')"

text \<open>\<open>f"{x:.3f}"\<close>: the nearest multiple of a thousandth, a tie to the even one.\<close>

definition fixed3 :: "rat \<Rightarrow> string" where
  "fixed3 x =
     (let n = nat (py_round (\<bar>x\<bar> * 1000)); frac = str_nat (n mod 1000)
      in (if x < 0 then ''-'' else []) @ str_nat (n div 1000) @ ''.'' @ replicate (3 - length frac) (CHR ''0'') @ frac)"

section \<open>Cells\<close>

definition EX_PREFIX :: string where "EX_PREFIX = ''ex_''"

definition SOCIAL_FIELDS :: "string list" where
  "SOCIAL_FIELDS = [''facebook'', ''instagram'', ''linkedin'', ''x'', ''youtube'', ''tiktok'', ''yelp'']"

definition RESULT_FIELDS :: "string list" where
  "RESULT_FIELDS = [''domain'', ''final_domain'', ''status'', ''best_email'', ''best_email_source'', ''confidence'',
     ''needs_review'', ''business_emails'', ''all_emails'', ''phones'', ''contact_form_url'',
     ''facebook'', ''instagram'', ''linkedin'', ''x'', ''youtube'', ''tiktok'', ''yelp'',
     ''mx_provider'', ''site_status'', ''pages_fetched'', ''error_reason'', ''retrying'']"

text \<open>\<open>d.get(k, "")\<close>.\<close>

definition get_cell :: "(string \<times> string) list \<Rightarrow> string \<Rightarrow> string" where
  "get_cell cells k = or_empty (map_of cells k)"

text \<open>The cells \<open>result_cells\<close> and \<open>to_csv_row\<close> fill in alike.\<close>

definition shared_cells :: "domain_result \<Rightarrow> (string \<times> string) list" where
  "shared_cells r = [
     (''domain'', dr_domain r),
     (''final_domain'', or_empty (dr_final_domain r)),
     (''status'', status_str (dr_status r)),
     (''best_email'', or_empty (dr_best_email r)),
     (''best_email_source'', or_empty (map_option source_str (dr_best_email_source r))),
     (''confidence'', or_empty (map_option fixed3 (dr_confidence r))),
     (''needs_review'', bool_str (dr_needs_review r)),
     (''business_emails'', join '', '' (dr_business_emails r)),
     (''all_emails'', join '', '' (map eo_email (dr_all_emails r))),
     (''phones'', join '', '' (dr_phones r)),
     (''contact_form_url'', or_empty (dr_contact_form_url r)),
     (''mx_provider'', or_empty (map_option mx_str (dr_mx_provider r))),
     (''site_status'', or_empty (dr_site_status r)),
     (''pages_fetched'', join '', '' (dr_pages_fetched r)),
     (''error_reason'', or_empty (dr_error_reason r))]"

definition social_cells :: "domain_result \<Rightarrow> (string \<times> string) list" where
  "social_cells r = map (\<lambda>network. (network, get_cell (dr_socials r) network)) SOCIAL_FIELDS"

definition result_cells :: "domain_result option \<Rightarrow> string option \<Rightarrow> bool \<Rightarrow> (string \<times> string) list" where
  "result_cells result pending_domain retrying =
     (case result of
        None \<Rightarrow> [(''domain'', or_empty pending_domain), (''status'', ''pending''), (''retrying'', bool_str retrying)]
      | Some r \<Rightarrow> shared_cells r @ [(''retrying'', bool_str retrying)] @ social_cells r)"

section \<open>CSV\<close>

definition FORMULA :: "char list" where
  "FORMULA = [CHR ''='', CHR ''+'', CHR ''-'', CHR ''@'', CHR 0x09, CHR 0x0D]"

definition csv_safe :: "string \<Rightarrow> string" where
  "csv_safe v = (case v of [] \<Rightarrow> [] | c # _ \<Rightarrow> if c \<in> set FORMULA then CHR 0x27 # v else v)"

definition output_header :: "string list \<Rightarrow> string list" where
  "output_header source_columns = map csv_safe source_columns @ map (\<lambda>f. EX_PREFIX @ f) RESULT_FIELDS"

definition output_row ::
  "string list \<Rightarrow> (string \<times> string) list \<Rightarrow> domain_result option \<Rightarrow> string option \<Rightarrow> bool \<Rightarrow> string list" where
  "output_row source_columns raw_row result pending_domain retrying =
     (let cells = result_cells result pending_domain retrying
      in map (\<lambda>c. csv_safe (get_cell raw_row c)) source_columns @
         map (\<lambda>f. csv_safe (get_cell cells f)) RESULT_FIELDS)"

definition source_columns_of :: "job \<Rightarrow> string list" where
  "source_columns_of j = (case j_columns j of None \<Rightarrow> [''website''] | Some [] \<Rightarrow> [''website''] | Some cs \<Rightarrow> cs)"

fun row_cells :: "string list \<Rightarrow> stream_row \<Rightarrow> string list" where
  "row_cells columns (raw_row, result, pending, retrying) = output_row columns raw_row result pending retrying"

definition results_csv :: "job \<Rightarrow> db \<Rightarrow> string" where
  "results_csv j d =
     (let columns = source_columns_of j
      in csv_line (output_header columns) @ concat (map (csv_line \<circ> row_cells columns) (stream_rows (j_id j) d)))"

definition CSV_COLUMNS :: "string list" where
  "CSV_COLUMNS = [''row_index'', ''input_value'', ''domain'', ''final_domain'', ''status'', ''best_email'',
     ''best_email_source'', ''confidence'', ''needs_review'', ''business_emails'', ''all_emails'', ''phones'',
     ''contact_form_url'', ''facebook'', ''instagram'', ''linkedin'', ''x'', ''youtube'', ''tiktok'', ''yelp'',
     ''mx_provider'', ''site_status'', ''pages_fetched'', ''error_reason'']"

definition to_csv_row :: "nat \<Rightarrow> string \<Rightarrow> domain_result option \<Rightarrow> string option \<Rightarrow> string list" where
  "to_csv_row row_index input_value result domain =
     (let row = [(''row_index'', str_nat row_index), (''input_value'', input_value)] @
        (case result of
           None \<Rightarrow> [(''domain'', or_empty domain), (''status'', ''pending'')]
         | Some r \<Rightarrow> shared_cells r @ social_cells r)
      in map (\<lambda>col. csv_safe (get_cell row col)) CSV_COLUMNS)"

section \<open>JSON lines\<close>

text \<open>\<open>json.dumps\<close> of a string and of a dictionary of strings, with \<open>ensure_ascii=False\<close>.\<close>

definition hex_digit :: "nat \<Rightarrow> char" where
  "hex_digit n = ''0123456789abcdef'' ! n"

definition json_char :: "char \<Rightarrow> string" where
  "json_char c =
     (if c = CHR 0x22 then [CHR 0x5C, CHR 0x22]
      else if c = CHR 0x5C then [CHR 0x5C, CHR 0x5C]
      else if c = CHR 0x0A then [CHR 0x5C, CHR ''n'']
      else if c = CHR 0x0D then [CHR 0x5C, CHR ''r'']
      else if c = CHR 0x09 then [CHR 0x5C, CHR ''t'']
      else if c = CHR 0x0C then [CHR 0x5C, CHR ''f'']
      else if c = CHR 0x08 then [CHR 0x5C, CHR ''b'']
      else if ordc c < 32 then [CHR 0x5C] @ ''u00'' @ [hex_digit (ordc c div 16), hex_digit (ordc c mod 16)]
      else [c])"

definition json_str :: "string \<Rightarrow> string" where
  "json_str s = [CHR 0x22] @ concat (map json_char s) @ [CHR 0x22]"

definition json_dict :: "(string \<times> string) list \<Rightarrow> string" where
  "json_dict d = ''{'' @ join '', '' (map (\<lambda>(k, v). json_str k @ '': '' @ json_str v) d) @ ''}''"

definition json_payload ::
  "string list \<Rightarrow> (string \<times> string) list \<Rightarrow> (string \<times> string) list \<Rightarrow> (string \<times> string) list" where
  "json_payload source_columns raw_row cells =
     fold dict_put (map (\<lambda>(k, v). (EX_PREFIX @ k, v)) cells)
       (fold dict_put (map (\<lambda>c. (c, get_cell raw_row c)) source_columns) [])"

fun json_line :: "string list \<Rightarrow> stream_row \<Rightarrow> string" where
  "json_line source_columns (raw_row, result, pending, retrying) =
     json_dict (json_payload source_columns raw_row (result_cells result pending retrying)) @ [CHR 0x0A]"

definition results_json :: "job \<Rightarrow> db \<Rightarrow> string" where
  "results_json j d = concat (map (json_line (source_columns_of j)) (stream_rows (j_id j) d))"

section \<open>What a download is\<close>

definition formula_free :: "string \<Rightarrow> bool" where
  "formula_free v = (case v of [] \<Rightarrow> True | c # _ \<Rightarrow> c \<notin> set FORMULA)"

lemma csv_safe_free [simp]: "formula_free (csv_safe v)"
  by (cases v) (simp_all add: formula_free_def csv_safe_def FORMULA_def)

lemma header_free: "list_all formula_free (output_header cols)"
proof -
  have "formula_free (EX_PREFIX @ f)" for f by (simp add: formula_free_def EX_PREFIX_def FORMULA_def)
  then show ?thesis by (auto simp: output_header_def list_all_iff)
qed

lemma row_free: "list_all formula_free (row_cells cols row)"
  by (cases row) (auto simp: output_row_def Let_def list_all_iff)

lemma row_width: "length (row_cells cols row) = length cols + length RESULT_FIELDS"
  by (cases row) (simp add: output_row_def Let_def)

lemma stream_from_length [simp]: "length (stream_from d pc its) = length its"
  by (induction its arbitrary: pc) (simp_all add: split_def Let_def)

lemma stream_rows_length: "length (stream_rows j d) = length (filter (\<lambda>it. ji_job_id it = j) (job_items d))"
  by (simp add: stream_rows_def)

definition csv_table :: "job \<Rightarrow> db \<Rightarrow> string list list" where
  "csv_table j d = output_header (source_columns_of j) # map (row_cells (source_columns_of j)) (stream_rows (j_id j) d)"

lemma results_csv_lines: "results_csv j d = concat (map csv_line (csv_table j d))"
  by (simp add: results_csv_def csv_table_def Let_def o_def)

text \<open>
  C20: A downloaded CSV file reads back as the rows of the job and runs nothing. Whatever the
  uploaded cells and the fetched pages contain (quotes, delimiters, line breaks), and as long as
  no cell is over the reader's field limit, reading the file gives exactly its header and one
  record for each item of the job, each as wide as the header; and no cell of it starts with a
  character that makes a spreadsheet evaluate it.
\<close>

theorem results_csv_reads_back:
  assumes "list_all (list_all (\<lambda>v. length v \<le> FIELD_LIMIT)) (csv_table j d)"
  shows "csv_read (CHR '','') (results_csv j d) = Some (csv_table j d) \<and>
    length (csv_table j d) = Suc (length (filter (\<lambda>it. ji_job_id it = j_id j) (job_items d))) \<and>
    list_all (\<lambda>row. length row = length (source_columns_of j) + length RESULT_FIELDS \<and> list_all formula_free row)
      (csv_table j d)"
proof (intro conjI)
  show "csv_read (CHR '','') (results_csv j d) = Some (csv_table j d)"
    unfolding results_csv_lines by (rule read_lines [OF assms])
  show "length (csv_table j d) = Suc (length (filter (\<lambda>it. ji_job_id it = j_id j) (job_items d)))"
    by (simp add: csv_table_def stream_rows_length)
  have "length (output_header cols) = length cols + length RESULT_FIELDS" for cols by (simp add: output_header_def)
  then show "list_all (\<lambda>row. length row = length (source_columns_of j) + length RESULT_FIELDS \<and> list_all formula_free row)
      (csv_table j d)"
    using header_free row_free row_width by (simp add: csv_table_def list_all_iff [of _ "map _ _"])
qed

definition s_rows_job :: job where
  "s_rows_job = s_job 1 0 JRunning (Some 7)"

definition s_rows_db :: db where
  "s_rows_db = s_db\<lparr>job_items := [new_item 1 \<lparr>pi_row_index = 0, pi_input_value = ''c.com'', pi_domain = Some ''c.com'',
     pi_status = None, pi_reason = None, pi_domain_source = ''website'',
     pi_raw_row = [(''website'', ''=1, '' @ [CHR 0x22, CHR 0x0A])]\<rparr>]\<rparr>"

theorem results_csv_reads_back_witness:
  "csv_read (CHR '','') (results_csv s_rows_job s_rows_db) = Some (csv_table s_rows_job s_rows_db) \<and>
   hd (csv_table s_rows_job s_rows_db ! 1) = [CHR 0x27] @ ''=1, '' @ [CHR 0x22, CHR 0x0A] \<and>
   csv_table s_rows_job s_rows_db ! 1 ! 3 = ''fetch_failed''"
proof -
  have small: "list_all (list_all (\<lambda>v. length v \<le> 100)) (csv_table s_rows_job s_rows_db)" by code_simp
  have "list_all (list_all (\<lambda>v. length v \<le> FIELD_LIMIT)) (csv_table s_rows_job s_rows_db)"
    using small by (rule list.pred_mono_strong, elim list.pred_mono_strong) (simp add: FIELD_LIMIT_def)
  moreover have "hd (csv_table s_rows_job s_rows_db ! 1) = [CHR 0x27] @ ''=1, '' @ [CHR 0x22, CHR 0x0A]"
    "csv_table s_rows_job s_rows_db ! 1 ! 3 = ''fetch_failed''" by code_simp+
  ultimately show ?thesis using results_csv_reads_back [of s_rows_job s_rows_db] by blast
qed

text \<open>The two shapes of a row agree on the columns they share.\<close>

theorem csv_rows_agree:
  "drop 2 (to_csv_row i v r pending) = butlast (drop (length cols) (output_row cols raw r pending retrying))"
proof -
  have cols: "drop 2 CSV_COLUMNS = butlast RESULT_FIELDS" by code_simp
  have same: "get_cell (case r of None \<Rightarrow> [(''domain'', or_empty pending), (''status'', ''pending'')]
        | Some r \<Rightarrow> shared_cells r @ social_cells r) f = get_cell (result_cells r pending retrying) f"
    if "f \<noteq> ''retrying''" for f
    using that by (simp add: get_cell_def result_cells_def map_add_def split: option.split)
  have skip: "get_cell ([(''row_index'', str_nat i), (''input_value'', v)] @ xs) f = get_cell xs f"
    if "f \<in> set (butlast RESULT_FIELDS)" for f xs
    using that by (auto simp: get_cell_def RESULT_FIELDS_def)
  have "f \<noteq> ''retrying''" if "f \<in> set (butlast RESULT_FIELDS)" for f
    using that by (auto simp: RESULT_FIELDS_def)
  then have "map (\<lambda>f. csv_safe (get_cell ([(''row_index'', str_nat i), (''input_value'', v)] @
        (case r of None \<Rightarrow> [(''domain'', or_empty pending), (''status'', ''pending'')]
         | Some r \<Rightarrow> shared_cells r @ social_cells r)) f)) (butlast RESULT_FIELDS) =
      map (\<lambda>f. csv_safe (get_cell (result_cells r pending retrying) f)) (butlast RESULT_FIELDS)"
    using same skip by (intro map_cong) simp_all
  then show ?thesis
    by (simp add: to_csv_row_def output_row_def Let_def drop_map cols map_butlast)
qed

text \<open>A JSON line is one line, and carries every source cell and every result cell under its key.\<close>

lemma json_char_line: "CHR 0x0A \<notin> set (json_char c)"
proof -
  have digit: "hex_digit n \<noteq> CHR 0x0A" if "n < 16" for n
  proof -
    have "list_all (\<lambda>n. hex_digit n \<noteq> CHR 0x0A) [0..<16]" by code_simp
    with that show ?thesis by (simp add: list_all_iff)
  qed
  have "ordc c div 16 < 16" using ordc_less [of c] by simp
  then show ?thesis using digit [of "ordc c mod 16"] digit [of "ordc c div 16"] by (auto simp: json_char_def)
qed

lemma set_join: "c \<notin> set sep \<Longrightarrow> (\<And>x. x \<in> set xs \<Longrightarrow> c \<notin> set x) \<Longrightarrow> c \<notin> set (join sep xs)"
  by (auto simp: join_def split: list.split)

lemma json_dict_line: "CHR 0x0A \<notin> set (json_dict d)"
proof -
  have str: "CHR 0x0A \<notin> set (json_str s)" for s using json_char_line by (simp add: json_str_def)
  have "CHR 0x0A \<notin> set (join '', '' (map (\<lambda>(k, v). json_str k @ '': '' @ json_str v) d))"
    by (rule set_join) (auto simp: str)
  then show ?thesis by (simp add: json_dict_def)
qed

lemma payload_result:
  assumes "distinct (map fst cells)" and "map_of cells k = Some v"
  shows "map_of (json_payload columns raw cells) (EX_PREFIX @ k) = Some v"
proof -
  let ?ex = "map (\<lambda>(k, v). (EX_PREFIX @ k, v)) cells"
  have "distinct (map fst ?ex)" using assms(1) by (simp add: distinct_map inj_on_def split_def)
  moreover have "map fst ?ex = map (\<lambda>k. EX_PREFIX @ k) (map fst cells)" by (simp add: split_def)
  moreover have "(EX_PREFIX @ k, v) \<in> set ?ex" using map_of_SomeD [OF assms(2)] by force
  ultimately have "map_of (rev ?ex) (EX_PREFIX @ k) = Some v"
    by (intro map_of_is_SomeI) (simp_all add: rev_map [symmetric])
  then show ?thesis by (simp add: json_payload_def map_of_fold_put)
qed

text \<open>A column of the uploaded file whose name is that of a result column is overwritten.\<close>

lemma ex_column_overwritten:
  "map_of (json_payload [''ex_status''] [(''ex_status'', ''kept'')] (result_cells None None False)) ''ex_status'' =
     Some ''pending''"
  by code_simp

end
