(* ===== verification/Ingest.thy ===== *)
theory Ingest
  imports Rows Normalize
begin

text \<open>
  Uploaded files, \<open>src/app/ingest.py\<close>: parsing a file into rows, guessing which column holds the
  website, and normalising that column; the preparation of items in \<open>src/app/jobs.py\<close>; and the
  choice of a column in \<open>create_job\<close> of \<open>src/app/main.py\<close>. An \<open>IngestError\<close> is the left of a sum, by
  its code.

  What is not the program's is in a record: the suffix list and the IDNA codec, the decoding of
  bytes into text with the name of the encoding, the delimiter \<open>csv.Sniffer\<close> guesses from the
  head of a text (\<open>None\<close> is \<open>csv.Error\<close>), and the cells of the first sheet of a workbook up to a
  number of columns, as \<open>iter_rows\<close> gives them (\<open>None\<close> when it cannot be opened).
\<close>

record ingest_lib =
  in_tld :: tld_lib
  in_puny :: "string \<Rightarrow> string option"
  in_decode :: "string \<Rightarrow> string \<times> string"
  in_sniff :: "string \<Rightarrow> char option"
  in_sheet :: "string \<Rightarrow> nat \<Rightarrow> string option list list option"

abbreviation norm_cell :: "ingest_lib \<Rightarrow> string \<Rightarrow> normalized_input" where
  "norm_cell lib \<equiv> normalize_input (in_tld lib) (in_puny lib)"

section \<open>Constants\<close>

definition MAX_COLUMNS :: nat where "MAX_COLUMNS = 500"
definition MAX_ROWS :: nat where "MAX_ROWS = 50000"
definition MAX_BYTES :: nat where "MAX_BYTES = 50 * 1024 * 1024"
definition SNIFF_BYTES :: nat where "SNIFF_BYTES = 20000"
definition DELIMITERS :: string where "DELIMITERS = [CHR '','', CHR '';'', CHR 0x09, CHR ''|'']"
definition CONTENT_THRESHOLD :: rat where "CONTENT_THRESHOLD = 3 / 5"
definition SAMPLE_SIZE :: nat where "SAMPLE_SIZE = 200"

definition HEADER_PRIORITY :: "string list" where
  "HEADER_PRIORITY = [''website'', ''websiteurl'', ''companywebsite'', ''companywebsiteurl'', ''companydomain'',
     ''domain'', ''url'', ''companyurl'', ''homepage'', ''web'', ''site'', ''organizationwebsite'', ''businesswebsite'']"

definition EMAIL_HEADERS :: "string list" where
  "EMAIL_HEADERS = [''email'', ''emailaddress'', ''contactemail'', ''workemail'', ''primaryemail'', ''owneremail'', ''publicemail'']"

definition CELL_EMAILISH :: rx where
  "CELL_EMAILISH = (let part = Chr (\<lambda>c. c \<noteq> CHR ''@'' \<and> \<not> is_space c)
     in seqs [Bol, plus part, lit ''@'', plus part, lit ''.'', rep 2 24 (Chr is_ascii_letter), Eol])"

definition ALLOWED_EXTENSIONS :: "string list" where
  "ALLOWED_EXTENSIONS = [''.csv'', ''.tsv'', ''.txt'', ''.xlsx'', ''.xlsm'']"

section \<open>Parsed files\<close>

record parsed_file =
  pf_headers :: "string list"
  pf_rows :: "(string \<times> string) list list"
  pf_had_header :: bool
  pf_delimiter :: string
  pf_encoding :: string

definition column_of :: "parsed_file \<Rightarrow> string \<Rightarrow> string list" where
  "column_of p name = map (\<lambda>r. strip (get_cell r name)) (pf_rows p)"

datatype confidence = High | Medium | Low | No_Confidence

datatype guess_method = By_Header | By_Content | By_Email | No_Method

record column_guess =
  cg_column :: "string option"
  cg_confidence :: confidence
  cg_method :: guess_method
  cg_scores :: "(string \<times> rat) list"
  cg_email_column :: "string option"

definition ColumnGuess :: column_guess where
  "ColumnGuess = \<lparr>cg_column = None, cg_confidence = No_Confidence, cg_method = No_Method, cg_scores = [], cg_email_column = None\<rparr>"

definition norm_header :: "string \<Rightarrow> string" where
  "norm_header name = filter is_alnum (lower name)"

text \<open>\<open>max(xs, key=f)\<close>: the first of the largest.\<close>

fun first_max :: "('a \<Rightarrow> 'k::linorder) \<Rightarrow> 'a list \<Rightarrow> 'a option" where
  "first_max f [] = None"
| "first_max f (x # xs) = (case first_max f xs of None \<Rightarrow> Some x | Some y \<Rightarrow> Some (if f y > f x then y else x))"

text \<open>The line boundaries of \<open>str.splitlines\<close>.\<close>

definition is_linebreak :: "char \<Rightarrow> bool" where
  "is_linebreak c = (let n = ordc c in 10 \<le> n \<and> n \<le> 13 \<or> 28 \<le> n \<and> n \<le> 30 \<or> n = 133)"

definition sniff_delimiter :: "(string \<Rightarrow> char option) \<Rightarrow> string \<Rightarrow> string \<Rightarrow> char" where
  "sniff_delimiter sniff s filename =
     (if endswith ''.tsv'' (lower filename) then CHR 0x09
      else let head = take SNIFF_BYTES s
           in case sniff head of
                Some dl \<Rightarrow> dl
              | None \<Rightarrow>
                  let first = takeWhile (\<lambda>c. \<not> is_linebreak c) head
                  in case first_max (count_list first) DELIMITERS of
                       None \<Rightarrow> CHR '',''
                     | Some best \<Rightarrow> if 0 < count_list first best then best else CHR '','')"

definition looks_like_header :: "ingest_lib \<Rightarrow> string list \<Rightarrow> bool" where
  "looks_like_header lib cells =
     (let useful = filter (\<lambda>c. strip c \<noteq> []) cells
      in if useful = [] then True else \<not> list_all (\<lambda>c. ni_ok (norm_cell lib c)) useful)"

definition trim_trailing_blanks :: "string list \<Rightarrow> string list" where
  "trim_trailing_blanks cells = rev (dropWhile (\<lambda>c. c = []) (rev cells))"

definition to_row :: "string list \<Rightarrow> string list \<Rightarrow> (string \<times> string) list" where
  "to_row headers rec =
     fold dict_put (map (\<lambda>(i, h). (h, if i < length rec then strip (rec ! i) else [])) (enumerate 0 headers)) []"

definition column_name :: "nat \<Rightarrow> string" where
  "column_name i = ''column_'' @ str_nat (i + 1)"

definition headers_of :: "ingest_lib \<Rightarrow> string list \<Rightarrow> string list" where
  "headers_of lib first =
     (if looks_like_header lib first
      then map (\<lambda>(i, h). if strip h \<noteq> [] then strip h else column_name i) (enumerate 0 first)
      else map column_name [0..<length first])"

definition file_of :: "ingest_lib \<Rightarrow> string list \<Rightarrow> string list list \<Rightarrow> string \<Rightarrow> string \<Rightarrow> string + parsed_file" where
  "file_of lib first records delimiter encoding =
     (let had_header = looks_like_header lib first;
          headers = headers_of lib first;
          body = (if had_header then tl records else records)
      in if MAX_ROWS < length body then Inl ''too_many_rows''
         else Inr \<lparr>pf_headers = headers, pf_rows = map (to_row headers) body, pf_had_header = had_header,
                pf_delimiter = delimiter, pf_encoding = encoding\<rparr>)"

definition sheet_cell :: "string option \<Rightarrow> string" where
  "sheet_cell c = strip (or_empty c)"

text \<open>The rows of a sheet are cut to the width of its first one; reading stops one past the limit.\<close>

definition parse_xlsx :: "ingest_lib \<Rightarrow> string \<Rightarrow> string + parsed_file" where
  "parse_xlsx lib raw =
     (case in_sheet lib raw (MAX_COLUMNS + 1) of
        None \<Rightarrow> Inl ''invalid_file''
      | Some [] \<Rightarrow> Inl ''empty_file''
      | Some (row # rows) \<Rightarrow>
          let first = trim_trailing_blanks (map sheet_cell row)
          in if MAX_COLUMNS < length first then Inl ''too_many_columns''
             else file_of lib first
                    (take (MAX_ROWS + 2) (first # map (\<lambda>r. take (length first) (map sheet_cell r)) rows)) '','' ''xlsx'')"

definition parse_text :: "ingest_lib \<Rightarrow> char \<Rightarrow> string \<Rightarrow> string \<Rightarrow> string + parsed_file" where
  "parse_text lib dl encoding s =
     (case csv_read dl s of
        None \<Rightarrow> Inl ''invalid_file''
      | Some [] \<Rightarrow> Inl ''empty_file''
      | Some (rec # recs) \<Rightarrow>
          let first = trim_trailing_blanks (map strip rec)
          in if MAX_COLUMNS < length first then Inl ''too_many_columns''
             else file_of lib first (rec # recs) [dl] encoding)"

definition parse_bytes :: "ingest_lib \<Rightarrow> string \<Rightarrow> string \<Rightarrow> string + parsed_file" where
  "parse_bytes lib raw filename =
     (let name = lower filename
      in if MAX_BYTES < length raw then Inl ''file_too_large''
         else if endswith ''.xls'' name then Inl ''unsupported_file_type''
         else if CHR ''.'' \<in> set (last (split_on ''/'' name)) \<and> \<not> list_ex (\<lambda>e. endswith e name) ALLOWED_EXTENSIONS
         then Inl ''unsupported_file_type''
         else if endswith ''.xlsx'' name \<or> endswith ''.xlsm'' name then parse_xlsx lib raw
         else let (s, encoding) = in_decode lib raw
              in parse_text lib (sniff_delimiter (in_sniff lib) s filename) encoding s)"

section \<open>Which column holds the website\<close>

definition sample_of :: "string list \<Rightarrow> string list" where
  "sample_of values = take SAMPLE_SIZE (filter (\<lambda>v. strip v \<noteq> []) values)"

text \<open>The share of the sampled values with a property; 0 when there are none.\<close>

definition share_of :: "(string \<Rightarrow> bool) \<Rightarrow> string list \<Rightarrow> rat" where
  "share_of P values =
     (let sample = sample_of values
      in if sample = [] then 0 else of_nat (length (filter P sample)) / of_nat (length sample))"

definition score_column :: "ingest_lib \<Rightarrow> string list \<Rightarrow> rat" where
  "score_column lib = share_of (\<lambda>v. ni_ok (norm_cell lib v) \<and> ni_source (norm_cell lib v) = ''website'')"

definition score_emails :: "string list \<Rightarrow> rat" where
  "score_emails = share_of (\<lambda>v. rx_match CELL_EMAILISH v \<noteq> None)"

definition social_share :: "ingest_lib \<Rightarrow> string list \<Rightarrow> rat" where
  "social_share lib = share_of (\<lambda>v. ni_reason (norm_cell lib v) = Some ''social_or_directory'')"

text \<open>\<open>xs.index(x)\<close> for an \<open>x\<close> in \<open>xs\<close>.\<close>

definition index_of :: "'a list \<Rightarrow> 'a \<Rightarrow> nat" where
  "index_of xs x = length (takeWhile (\<lambda>y. y \<noteq> x) xs)"

definition header_names :: "string list \<Rightarrow> (string \<times> string) list" where
  "header_names headers = fold dict_put (map (\<lambda>h. (norm_header h, h)) headers) []"

definition scores_by :: "(string \<Rightarrow> rat) \<Rightarrow> string list \<Rightarrow> (string \<times> rat) list" where
  "scores_by f headers = fold dict_put (map (\<lambda>h. (h, f h)) headers) []"

definition enough :: "(string \<times> rat) list \<Rightarrow> string \<Rightarrow> bool" where
  "enough scores h = (CONTENT_THRESHOLD \<le> (case map_of scores h of None \<Rightarrow> 0 | Some x \<Rightarrow> x))"

definition best_content :: "ingest_lib \<Rightarrow> parsed_file \<Rightarrow> (string \<times> rat) list \<Rightarrow> string option" where
  "best_content lib p scores =
     (case sort_key (\<lambda>h. (- the (map_of scores h), social_share lib (column_of p h), index_of (pf_headers p) h)) (pf_headers p) of
        [] \<Rightarrow> None
      | best # _ \<Rightarrow> if best \<noteq> [] \<and> enough scores best then Some best else None)"

definition best_emails :: "parsed_file \<Rightarrow> string option" where
  "best_emails p =
     (let normed = header_names (pf_headers p);
          scores = scores_by (\<lambda>h. score_emails (column_of p h)) (pf_headers p)
      in case find (\<lambda>want. case map_of normed want of None \<Rightarrow> False | Some h \<Rightarrow> enough scores h) EMAIL_HEADERS of
           Some want \<Rightarrow> map_of normed want
         | None \<Rightarrow>
             (case first_max (\<lambda>h. the (map_of scores h)) (map fst scores) of
                None \<Rightarrow> None
              | Some h \<Rightarrow> if h \<noteq> [] \<and> enough scores h then Some h else None))"

definition detect_column :: "ingest_lib \<Rightarrow> parsed_file \<Rightarrow> column_guess" where
  "detect_column lib p =
     (let normed = header_names (pf_headers p)
      in case find (\<lambda>want. map_of normed want \<noteq> None) HEADER_PRIORITY of
           Some want \<Rightarrow> ColumnGuess\<lparr>cg_column := map_of normed want, cg_confidence := High, cg_method := By_Header\<rparr>
         | None \<Rightarrow>
             let scores = scores_by (\<lambda>h. score_column lib (column_of p h)) (pf_headers p)
             in case best_content lib p scores of
                  Some best \<Rightarrow> ColumnGuess\<lparr>cg_column := Some best, cg_confidence := Medium, cg_method := By_Content,
                    cg_scores := scores\<rparr>
                | None \<Rightarrow>
                    (case best_emails p of
                       Some h \<Rightarrow> ColumnGuess\<lparr>cg_confidence := Low, cg_method := By_Email, cg_scores := scores,
                         cg_email_column := Some h\<rparr>
                     | None \<Rightarrow> ColumnGuess\<lparr>cg_scores := scores\<rparr>))"

section \<open>Normalising a column\<close>

definition derive_cell :: "ingest_lib \<Rightarrow> bool \<Rightarrow> string \<Rightarrow> normalized_input" where
  "derive_cell lib derive v =
     (let n = norm_cell lib v
      in if derive \<and> \<not> ni_ok n \<and> CHR ''@'' \<in> set v \<and>
            ni_reason n \<noteq> Some ''free_email_only'' \<and> ni_reason n \<noteq> Some ''social_or_directory''
         then let derived = norm_cell lib (last (split_on ''@'' v))
              in if ni_ok derived then derived\<lparr>ni_source := ''email''\<rparr> else n
         else n)"

definition normalize_column :: "ingest_lib \<Rightarrow> parsed_file \<Rightarrow> string \<Rightarrow> bool \<Rightarrow> normalized_input list" where
  "normalize_column lib p column derive = map (derive_cell lib derive) (column_of p column)"

text \<open>\<open>column or guess.column or guess.email_column\<close>.\<close>

definition pick_column :: "column_guess \<Rightarrow> string option \<Rightarrow> string option" where
  "pick_column guess column = str_or column (str_or (cg_column guess) (cg_email_column guess))"

definition derives :: "column_guess \<Rightarrow> string option \<Rightarrow> bool" where
  "derives guess column = (cg_method guess = By_Email \<and> column = cg_email_column guess)"

definition item_of :: "nat \<Rightarrow> string \<Rightarrow> (string \<times> string) list \<Rightarrow> normalized_input \<Rightarrow> prepared_item" where
  "item_of i value row n = \<lparr>pi_row_index = i, pi_input_value = strip value, pi_domain = ni_domain n,
     pi_status = (if ni_ok n then None else Some Invalid_Input), pi_reason = ni_reason n,
     pi_domain_source = ni_source n, pi_raw_row = row\<rparr>"

text \<open>\<open>None\<close> is the \<open>ValueError\<close> when there is no column.\<close>

definition prepare_items :: "ingest_lib \<Rightarrow> parsed_file \<Rightarrow> column_guess \<Rightarrow> string option \<Rightarrow> prepared_item list option" where
  "prepare_items lib p guess column =
     (let col = pick_column guess column
      in if \<not> truthy col then None
         else Some (map (\<lambda>(i, row, n). item_of i (get_cell row (or_empty col)) row n)
                (enumerate 0 (zip (pf_rows p) (normalize_column lib p (or_empty col) (derives guess col))))))"

definition prepare_plain :: "ingest_lib \<Rightarrow> string list \<Rightarrow> prepared_item list" where
  "prepare_plain lib values =
     map (\<lambda>(i, raw). item_of i raw [(''website'', strip raw)] (norm_cell lib raw)) (enumerate 0 values)"

text \<open>
  The items of an upload in \<open>_create_job\<close>: an unknown column and a file without a website column
  are refused.
\<close>

definition upload_items :: "ingest_lib \<Rightarrow> parsed_file \<Rightarrow> string option \<Rightarrow> string + string \<times> prepared_item list" where
  "upload_items lib p column =
     (let guess = detect_column lib p
      in if truthy column \<and> or_empty column \<notin> set (pf_headers p) then Inl ''unknown_column''
         else let chosen = pick_column guess column
              in if \<not> truthy chosen then Inl ''no_website_column''
                 else case prepare_items lib p guess chosen of
                        None \<Rightarrow> Inl ''internal_error''
                      | Some items \<Rightarrow> Inr (or_empty chosen, items))"

record sample_row =
  sr_value :: string
  sr_domain :: "string option"
  sr_ok :: bool
  sr_reason :: "string option"

record preview_reply =
  pv_column :: "string option"
  pv_derived_from_email :: bool
  pv_detected_column :: "string option"
  pv_confidence :: confidence
  pv_method :: guess_method
  pv_email_column :: "string option"
  pv_candidate_columns :: "(string \<times> rat) list"
  pv_columns :: "string list"
  pv_row_count :: nat
  pv_empty_website_count :: nat
  pv_unique_domains :: nat
  pv_duplicate_domains :: nat
  pv_invalid_count :: nat
  pv_samples :: "sample_row list"
  pv_free_email_skipped :: nat
  pv_had_header :: bool
  pv_delimiter :: string
  pv_encoding :: string

definition preview :: "ingest_lib \<Rightarrow> parsed_file \<Rightarrow> column_guess \<Rightarrow> nat \<Rightarrow> string option \<Rightarrow> preview_reply" where
  "preview lib p guess samples column =
     (let col = pick_column guess column;
          derive = derives guess col;
          normalized = (if truthy col then normalize_column lib p (or_empty col) derive else []);
          domains = List.map_filter (\<lambda>n. if ni_ok n then ni_domain n else None) normalized;
          values = (if truthy col then column_of p (or_empty col) else [])
      in \<lparr>pv_column = col, pv_derived_from_email = derive, pv_detected_column = cg_column guess,
          pv_confidence = cg_confidence guess, pv_method = cg_method guess, pv_email_column = cg_email_column guess,
          pv_candidate_columns = map (\<lambda>h. (h, of_int (py_round
            ((case map_of (cg_scores guess) h of None \<Rightarrow> 0 | Some x \<Rightarrow> x) * 1000)) / 1000)) (pf_headers p),
          pv_columns = pf_headers p, pv_row_count = length (pf_rows p),
          pv_empty_website_count = count_where (\<lambda>n. ni_reason n = Some ''empty'') normalized,
          pv_unique_domains = card (set domains), pv_duplicate_domains = length domains - card (set domains),
          pv_invalid_count = count_where (\<lambda>n. \<not> ni_ok n) normalized,
          pv_samples = map (\<lambda>(raw, n). \<lparr>sr_value = raw, sr_domain = ni_domain n, sr_ok = ni_ok n, sr_reason = ni_reason n\<rparr>)
            (take samples (zip values normalized)),
          pv_free_email_skipped = count_where (\<lambda>n. ni_reason n = Some ''free_email_only'') normalized,
          pv_had_header = pf_had_header p, pv_delimiter = pf_delimiter p, pv_encoding = pf_encoding p\<rparr>)"

end
