(* ===== verification/Ingest_Props.thy ===== *)
theory Ingest_Props
  imports Ingest
begin

text \<open>
  What becomes of an uploaded file: its limits, that every row becomes one item with its cells
  kept, that the column is one of the file's, and that every key is a site worth crawling.
\<close>

section \<open>Rows\<close>

definition row_fits :: "string list \<Rightarrow> (string \<times> string) list \<Rightarrow> bool" where
  "row_fits headers row = (set (map fst row) = set headers \<and> distinct (map fst row))"

definition cell_at :: "string list \<Rightarrow> nat \<Rightarrow> string" where
  "cell_at rec i = (if i < length rec then strip (rec ! i) else [])"

lemma to_row_alt: "to_row headers rec = fold dict_put (map (\<lambda>(i, h). (h, cell_at rec i)) (enumerate 0 headers)) []"
  by (simp add: to_row_def cell_at_def)

lemma to_row_fits: "row_fits headers (to_row headers rec)"
proof -
  have "set (map fst (to_row headers rec)) = set headers"
    unfolding to_row_alt fst_fold_put by (simp add: split_def o_def flip: set_map)
  moreover have "distinct (map fst (to_row headers rec))"
    unfolding to_row_alt by (rule distinct_fold_put) simp
  ultimately show ?thesis by (simp add: row_fits_def)
qed

text \<open>When no two columns share a name, a row has every cell of its record, stripped.\<close>

lemma to_row_cells:
  assumes "distinct headers" and "i < length headers"
  shows "get_cell (to_row headers rec) (headers ! i) = cell_at rec i"
proof -
  let ?kvs = "map (\<lambda>(i, h). (h, cell_at rec i)) (enumerate 0 headers)"
  have keys: "map fst ?kvs = headers" by (simp add: split_def o_def)
  have "(headers ! i, cell_at rec i) = ?kvs ! i" using assms(2) by (simp add: nth_enumerate_eq)
  then have "(headers ! i, cell_at rec i) \<in> set ?kvs" using assms(2) by (metis length_enumerate length_map nth_mem)
  moreover have "distinct (map fst (rev ?kvs))" unfolding rev_map [symmetric] keys using assms(1) by simp
  ultimately have "map_of (rev ?kvs) (headers ! i) = Some (cell_at rec i)" by (intro map_of_is_SomeI) simp_all
  then show ?thesis by (simp add: get_cell_def to_row_alt map_of_fold_put)
qed

text \<open>Two columns of one name: the cell of the first is gone.\<close>

lemma duplicate_header_loses: "to_row [''phone'', ''phone''] [''1'', ''2''] = [(''phone'', ''2'')]"
  by code_simp

section \<open>Files\<close>

definition good_file :: "parsed_file \<Rightarrow> bool" where
  "good_file p = (length (pf_headers p) \<le> MAX_COLUMNS \<and> length (pf_rows p) \<le> MAX_ROWS \<and>
     list_all (\<lambda>h. h \<noteq> []) (pf_headers p) \<and> list_all (row_fits (pf_headers p)) (pf_rows p))"

lemma headers_of_facts: "length (headers_of lib first) = length first" "list_all (\<lambda>h. h \<noteq> []) (headers_of lib first)"
  by (auto simp: headers_of_def column_name_def list_all_iff split: if_splits)

lemma file_of_good:
  assumes "file_of lib first recs dl enc = Inr p" and "length first \<le> MAX_COLUMNS"
  shows "good_file p"
  using assms headers_of_facts [of lib first] to_row_fits
  by (auto simp: file_of_def good_file_def Let_def list_all_iff split: if_splits)

lemma parse_text_good: "parse_text lib dl enc s = Inr p \<Longrightarrow> good_file p"
  by (auto simp: parse_text_def Let_def intro: file_of_good split: option.splits list.splits if_splits)

lemma parse_xlsx_good: "parse_xlsx lib raw = Inr p \<Longrightarrow> good_file p"
  by (auto simp: parse_xlsx_def Let_def intro: file_of_good split: option.splits list.splits if_splits)

text \<open>Every file that is parsed at all keeps the limits, whatever its name and its contents.\<close>

theorem parsed_within_limits: "parse_bytes lib raw filename = Inr p \<Longrightarrow> length raw \<le> MAX_BYTES \<and> good_file p"
  by (auto simp: parse_bytes_def Let_def split_def parse_text_good parse_xlsx_good split: if_splits)

section \<open>Columns\<close>

lemma header_names_in: "map_of (header_names headers) k = Some h \<Longrightarrow> h \<in> set headers"
  by (auto simp: header_names_def map_of_fold_put map_of_eq_Some_iff dest: map_of_SomeD)

lemma scores_by_in: "set (map fst (scores_by f headers)) = set headers"
  by (simp add: scores_by_def fst_fold_put [unfolded set_map] image_image)

lemma first_max_in: "first_max f xs = Some x \<Longrightarrow> x \<in> set xs"
  by (induction xs arbitrary: x) (auto split: option.splits if_splits)

lemma best_content_in:
  assumes "best_content lib p scores = Some h"
  shows "h \<in> set (pf_headers p)"
proof -
  define xs where "xs = sort_key (\<lambda>h. (- the (map_of scores h), social_share lib (column_of p h), index_of (pf_headers p) h))
    (pf_headers p)"
  have "h \<in> set xs"
    using assms unfolding best_content_def xs_def [symmetric] by (cases xs) (simp_all split: if_splits)
  then show ?thesis by (simp add: xs_def)
qed

lemma best_emails_in:
  assumes "best_emails p = Some h"
  shows "h \<in> set (pf_headers p)"
proof -
  let ?scores = "scores_by (\<lambda>h. score_emails (column_of p h)) (pf_headers p)"
  have "(\<exists>want. map_of (header_names (pf_headers p)) want = Some h) \<or>
      first_max (\<lambda>h. the (map_of ?scores h)) (map fst ?scores) = Some h"
    using assms unfolding best_emails_def Let_def by (auto split: option.splits if_splits)
  then show ?thesis
  proof (elim disjE exE)
    fix want assume "map_of (header_names (pf_headers p)) want = Some h"
    then show ?thesis by (rule header_names_in)
  next
    assume "first_max (\<lambda>h. the (map_of ?scores h)) (map fst ?scores) = Some h"
    from first_max_in [OF this] show ?thesis unfolding scores_by_in .
  qed
qed

lemma detect_in:
  assumes "detect_column lib p = g"
  shows "cg_column g = Some h \<Longrightarrow> h \<in> set (pf_headers p)" "cg_email_column g = Some h \<Longrightarrow> h \<in> set (pf_headers p)"
  unfolding assms [symmetric] detect_column_def Let_def
  by (auto simp: ColumnGuess_def dest: header_names_in best_content_in best_emails_in split: option.splits)

section \<open>Items\<close>

definition item_ok :: "string \<Rightarrow> prepared_item \<Rightarrow> bool" where
  "item_ok col it = (pi_input_value it = strip (get_cell (pi_raw_row it) col) \<and>
     (case pi_domain it of
        None \<Rightarrow> pi_status it = Some Invalid_Input \<and> pi_reason it \<noteq> None
      | Some key \<Rightarrow> pi_status it = None \<and> good_key key))"

lemma norm_good:
  assumes "\<And>h. tx_registered (in_tld lib) h \<noteq> [] \<Longrightarrow> in_site h (tx_registered (in_tld lib) h)"
    and "\<And>h h'. in_puny lib h = Some h' \<Longrightarrow> CHR ''/'' \<notin> set h'"
  shows "case ni_domain (derive_cell lib derive v) of
      None \<Rightarrow> \<not> ni_ok (derive_cell lib derive v) \<and> ni_reason (derive_cell lib derive v) \<noteq> None
    | Some key \<Rightarrow> ni_ok (derive_cell lib derive v) \<and> good_key key"
proof -
  have ok: "case ni_domain (norm_cell lib v) of None \<Rightarrow> \<not> ni_ok (norm_cell lib v) \<and> ni_reason (norm_cell lib v) \<noteq> None
    | Some key \<Rightarrow> ni_ok (norm_cell lib v) \<and> good_key key" for v
    using normalize_facts [where tx = "in_tld lib" and puny = "in_puny lib" and raw = v, OF assms] by (auto split: option.splits)
  show ?thesis
  proof (cases "derive_cell lib derive v = norm_cell lib v")
    case True
    show ?thesis unfolding True by (rule ok)
  next
    case False
    let ?d = "norm_cell lib (last (split_on ''@'' v))"
    from False have "derive_cell lib derive v = ?d\<lparr>ni_source := ''email''\<rparr>"
      by (auto simp: derive_cell_def Let_def split: if_splits)
    then show ?thesis using ok [of "last (split_on ''@'' v)"] by (simp add: ni_ok_def split: option.splits)
  qed
qed

lemma item_of_ok:
  assumes "case ni_domain n of None \<Rightarrow> \<not> ni_ok n \<and> ni_reason n \<noteq> None | Some key \<Rightarrow> ni_ok n \<and> good_key key"
  shows "item_ok col (item_of i (get_cell row col) row n)"
  using assms by (simp add: item_ok_def item_of_def split: option.splits)

lemma prepare_items_nth:
  assumes "prepare_items lib p guess (Some col) = Some items" and "col \<noteq> []"
  shows "length items = length (pf_rows p)" "\<And>i. i < length (pf_rows p) \<Longrightarrow>
    items ! i = item_of i (get_cell (pf_rows p ! i) col) (pf_rows p ! i)
      (derive_cell lib (derives guess (Some col)) (strip (get_cell (pf_rows p ! i) col)))"
  using assms
  by (auto simp: prepare_items_def pick_column_def str_or_def normalize_column_def column_of_def nth_enumerate_eq Let_def)

lemma upload_items_cases:
  assumes "upload_items lib p column = Inr (col, items)"
  shows "col \<in> set (pf_headers p) \<and> col \<noteq> [] \<and> prepare_items lib p (detect_column lib p) (Some col) = Some items"
proof -
  define g where "g = detect_column lib p"
  define chosen where "chosen = pick_column g column"
  from assms have a: "truthy column \<longrightarrow> or_empty column \<in> set (pf_headers p)" "truthy chosen"
    "prepare_items lib p g chosen = Some items" "col = or_empty chosen"
    unfolding upload_items_def Let_def g_def [symmetric] chosen_def [symmetric]
    by (auto split: if_splits option.splits)
  from a(2, 4) have c: "chosen = Some col" "col \<noteq> []" by (cases chosen; simp)+
  have "col \<in> set (pf_headers p)"
    using c a(1) detect_in [OF g_def [symmetric]]
    by (auto simp: chosen_def pick_column_def str_or_def split: if_splits)
  with c a(3) show ?thesis by (simp add: g_def)
qed

definition body_of :: "parsed_file \<Rightarrow> string list list \<Rightarrow> string list list" where
  "body_of p recs = (if pf_had_header p then tl recs else recs)"

lemma parse_text_rows:
  assumes "parse_text lib dl enc s = Inr p"
  shows "\<exists>recs. csv_read dl s = Some recs \<and> pf_rows p = map (to_row (pf_headers p)) (body_of p recs)"
proof -
  obtain rec recs where r: "csv_read dl s = Some (rec # recs)"
    using assms by (auto simp: parse_text_def split: option.splits list.splits)
  with assms obtain first where "file_of lib first (rec # recs) [dl] enc = Inr p"
    by (auto simp: parse_text_def Let_def split: if_splits)
  then have "pf_rows p = map (to_row (pf_headers p)) (body_of p (rec # recs))"
    by (auto simp: file_of_def body_of_def Let_def split: if_splits)
  with r show ?thesis by blast
qed

lemma upload_facts:
  assumes "\<And>h. tx_registered (in_tld lib) h \<noteq> [] \<Longrightarrow> in_site h (tx_registered (in_tld lib) h)"
    and "\<And>h h'. in_puny lib h = Some h' \<Longrightarrow> CHR ''/'' \<notin> set h'"
    and "parse_text lib dl enc s = Inr p" and "upload_items lib p column = Inr (col, items)"
  shows "\<exists>recs. csv_read dl s = Some recs \<and> length items = length (body_of p recs) \<and> length items \<le> MAX_ROWS \<and>
    col \<in> set (pf_headers p) \<and>
    (\<forall>i < length items. pi_row_index (items ! i) = i \<and> item_ok col (items ! i) \<and>
      (distinct (pf_headers p) \<longrightarrow>
        map (get_cell (pi_raw_row (items ! i))) (pf_headers p) =
          map (cell_at (body_of p recs ! i)) [0..<length (pf_headers p)]))"
proof -
  from parse_text_rows [OF assms(3)] obtain recs where r: "csv_read dl s = Some recs"
    and rows: "pf_rows p = map (to_row (pf_headers p)) (body_of p recs)" by blast
  from upload_items_cases [OF assms(4)] have col: "col \<in> set (pf_headers p)" "col \<noteq> []"
    and prep: "prepare_items lib p (detect_column lib p) (Some col) = Some items" by simp_all
  note nth = prepare_items_nth [OF prep col(2)]
  have len: "length items = length (body_of p recs)" using nth(1) rows by simp
  have "length items \<le> MAX_ROWS" using parse_text_good [OF assms(3)] nth(1) by (simp add: good_file_def)
  moreover have "pi_row_index (items ! i) = i \<and> item_ok col (items ! i)" if "i < length items" for i
    using nth(2) [of i] that nth(1) item_of_ok [OF norm_good [OF assms(1, 2)]] by (simp add: item_of_def)
  moreover have "map (get_cell (pi_raw_row (items ! i))) (pf_headers p) =
      map (cell_at (body_of p recs ! i)) [0..<length (pf_headers p)]"
    if "i < length items" "distinct (pf_headers p)" for i
    using that nth(2) [of i] nth(1) rows by (intro nth_equalityI) (simp_all add: item_of_def to_row_cells)
  ultimately show ?thesis using r len col(1) by blast
qed


definition s_ingest :: ingest_lib where
  "s_ingest = \<lparr>in_tld = s_reg, in_puny = s_puny, in_decode = (\<lambda>raw. (raw, ''utf-8'')), in_sniff = (\<lambda>_. None),
     in_sheet = (\<lambda>_ _. None)\<rparr>"

definition s_upload :: string where
  "s_upload = ''name;Web-Site'' @ [CHR 0x0D, CHR 0x0A] @ ''Acme; https://www.acme.io/about'' @ [CHR 0x0A] @ ''Bob;n/a''"

text \<open>The limits are compared as binary integers when a sample is evaluated.\<close>

lemma limits_as_int [code_unfold]:
  "(FIELD_LIMIT \<le> n) = (131072 \<le> int n)" "(MAX_ROWS < n) = (50000 < int n)" "(MAX_COLUMNS < n) = (500 < int n)"
  by (auto simp: FIELD_LIMIT_def MAX_ROWS_def MAX_COLUMNS_def)

lemma csv_run_code [code]:
  "csv_run dl [] st f fs = Some (if st = Start_Record \<or> st = After_Return then [] else [fs @ [f]])"
  "csv_run dl (c # s) st f fs =
     (if st = In_Quoted then
        (if c = dquote then csv_run dl s Quote_Seen f fs
         else if FIELD_LIMIT \<le> length f then None else csv_run dl s In_Quoted (f @ [c]) fs)
      else if st = Quote_Seen \<and> c = dquote then (if FIELD_LIMIT \<le> length f then None else csv_run dl s In_Quoted (f @ [c]) fs)
      else if st = After_Return \<and> c = newline then csv_run dl s Start_Record [] []
      else if c = newline \<or> c = carriage
      then map_option (Cons (if st = Start_Record \<or> st = After_Return then [] else fs @ [f]))
             (csv_run dl s (if c = carriage then After_Return else Start_Record) [] [])
      else if c = dl then csv_run dl s Start_Field [] (fs @ [f])
      else if c = dquote \<and> (st = Start_Record \<or> st = After_Return \<or> st = Start_Field) then csv_run dl s In_Quoted f fs
      else if FIELD_LIMIT \<le> length f then None else csv_run dl s In_Field (f @ [c]) fs)"
  by (cases st; simp add: Let_def)+

lemma s_upload_parsed:
  "parse_text s_ingest (CHR '';'') ''utf-8'' s_upload =
     Inr \<lparr>pf_headers = [''name'', ''Web-Site''], pf_rows = [[(''name'', ''Acme''), (''Web-Site'', ''https://www.acme.io/about'')], [(''name'', ''Bob''), (''Web-Site'', ''n/a'')]],
       pf_had_header = True, pf_delimiter = '';'', pf_encoding = ''utf-8''\<rparr>"
  by code_simp

definition s_file :: parsed_file where
  "s_file = (case parse_text s_ingest (CHR '';'') ''utf-8'' s_upload of Inr p \<Rightarrow> p)"

lemma s_file_items:
  "case upload_items s_ingest s_file None of Inl e \<Rightarrow> False | Inr (col, items) \<Rightarrow>
     col = ''Web-Site'' \<and> map pi_domain items = [Some ''acme.io'', None]"
  unfolding s_file_def s_upload_parsed by code_simp


text \<open>
  A comment in \<open>normalize_column\<close> says that a free provider is not brought back; a cell whose first
  part is an address of the network brings it back.
\<close>

definition s_free :: ingest_lib where
  "s_free = s_ingest\<lparr>in_tld := s_reg\<lparr>tx_domain := (\<lambda>d. fst (partition_at ''.'' d))\<rparr>\<rparr>"

lemma free_provider_returns:
  "ni_reason (derive_cell s_free True ''bob@gmail.com'') = Some ''free_email_only'' \<and>
   ni_domain (derive_cell s_free True ''10.0.0.1, bob@gmail.com'') = Some ''gmail.com''"
  by code_simp

end
