(* ===== verification/Py_Bytes.thy ===== *)
theory Py_Bytes
  imports Py_Str
begin

text \<open>
  Bytes and text in the standard library: UTF-8 as \<open>str.encode\<close> and \<open>bytes.decode\<close> have it, and the
  two directions of \<open>base64\<close>. Bytes are strings of the 256 characters. Text of the model is of the
  same characters, so a decoded sequence for a character beyond them counts as malformed.
\<close>

section \<open>UTF-8\<close>

definition utf8_char :: "char \<Rightarrow> string" where
  "utf8_char c = (let n = ordc c in if n < 128 then [c] else [char_of (192 + n div 64), char_of (128 + n mod 64)])"

definition utf8_encode :: "string \<Rightarrow> string" where
  "utf8_encode s = concat (map utf8_char s)"

text \<open>\<open>None\<close> is \<open>UnicodeDecodeError\<close>. A lead byte of 192 or 193 would be an overlong form.\<close>

fun utf8_decode :: "string \<Rightarrow> string option" where
  "utf8_decode [] = Some []"
| "utf8_decode [b] = (if ordc b < 128 then Some [b] else None)"
| "utf8_decode (b # c # s) =
     (if ordc b < 128 then map_option (Cons b) (utf8_decode (c # s))
      else if (ordc b = 194 \<or> ordc b = 195) \<and> 128 \<le> ordc c \<and> ordc c < 192
      then map_option (Cons (char_of ((ordc b - 192) * 64 + (ordc c - 128)))) (utf8_decode s)
      else None)"

lemma utf8_decode_ascii: "ordc b < 128 \<Longrightarrow> utf8_decode (b # s) = map_option (Cons b) (utf8_decode s)"
  by (cases s) auto

lemma utf8_round_trip [simp]: "utf8_decode (utf8_encode s) = Some s"
proof (induction s)
  case (Cons c s)
  show ?case
  proof (cases "ordc c < 128")
    case True
    then show ?thesis using Cons by (simp add: utf8_encode_def utf8_char_def Let_def utf8_decode_ascii)
  next
    case False
    let ?n = "ordc c"
    have n: "128 \<le> ?n" "?n < 256" using False ordc_less by auto
    then have lead: "?n div 64 = 2 \<or> ?n div 64 = 3" by auto
    have "?n div 64 * 64 + ?n mod 64 = ?n" by simp
    then have "?n div 64 = 2 \<Longrightarrow> 128 + ?n mod 64 = ?n" "?n div 64 = 3 \<Longrightarrow> 192 + ?n mod 64 = ?n" by simp_all
    then show ?thesis
      using Cons lead False by (auto simp: utf8_encode_def utf8_char_def Let_def)
  qed
qed (simp add: utf8_encode_def)

section \<open>base64\<close>

definition B64_ALPHABET :: string where
  "B64_ALPHABET = ''ABCDEFGHIJKLMNOPQRSTUVWXYZabcdefghijklmnopqrstuvwxyz0123456789+/''"

definition b64_char :: "nat \<Rightarrow> char" where
  "b64_char n = B64_ALPHABET ! n"

definition b64_val :: "char \<Rightarrow> nat option" where
  "b64_val c = (let i = length (takeWhile (\<lambda>x. x \<noteq> c) B64_ALPHABET) in if i < 64 then Some i else None)"

fun b64encode :: "string \<Rightarrow> string" where
  "b64encode [] = []"
| "b64encode [a] = [b64_char (ordc a div 4), b64_char (ordc a mod 4 * 16), CHR ''='', CHR ''='']"
| "b64encode [a, b] = [b64_char (ordc a div 4), b64_char (ordc a mod 4 * 16 + ordc b div 16),
     b64_char (ordc b mod 16 * 4), CHR ''='']"
| "b64encode (a # b # c # s) = b64_char (ordc a div 4) # b64_char (ordc a mod 4 * 16 + ordc b div 16) #
     b64_char (ordc b mod 16 * 4 + ordc c div 64) # b64_char (ordc c mod 64) # b64encode s"

lemma b64encode_Nil [simp]: "b64encode s = [] \<longleftrightarrow> s = []"
  by (cases s rule: b64encode.cases) auto

text \<open>
  \<open>binascii.a2b_base64\<close> without its strict mode: the position in a group of four, the bits left over
  from the last character and the padding seen since; characters outside the alphabet are skipped,
  and padding that completes a group ends the input. \<open>None\<close> is \<open>binascii.Error\<close>.
\<close>

fun a2b_base64 :: "string \<Rightarrow> nat \<Rightarrow> nat \<Rightarrow> nat \<Rightarrow> string option" where
  "a2b_base64 [] quad left pads = (if quad = 0 then Some [] else None)"
| "a2b_base64 (c # s) quad left pads =
     (if c = CHR ''='' then
        (if 2 \<le> quad \<and> 4 \<le> quad + (pads + 1) then Some []
         else a2b_base64 s quad left (if 2 \<le> quad then pads + 1 else pads))
      else case b64_val c of
        None \<Rightarrow> a2b_base64 s quad left pads
      | Some v \<Rightarrow>
          if quad = 0 then a2b_base64 s 1 v 0
          else if quad = 1 then map_option (Cons (char_of (left * 4 + v div 16))) (a2b_base64 s 2 (v mod 16) 0)
          else if quad = 2 then map_option (Cons (char_of (left * 16 + v div 4))) (a2b_base64 s 3 (v mod 4) 0)
          else map_option (Cons (char_of (left * 64 + v))) (a2b_base64 s 0 0 0))"

text \<open>\<open>base64.b64decode\<close> of a text: anything that is not ASCII is a \<open>ValueError\<close>, as is \<open>binascii.Error\<close>.\<close>

definition b64decode :: "string \<Rightarrow> string option" where
  "b64decode s = (if list_all (\<lambda>c. ordc c < 128) s then a2b_base64 s 0 0 0 else None)"

lemma b64_chars: "list_all (\<lambda>n. b64_val (b64_char n) = Some n \<and> b64_char n \<noteq> CHR ''='' \<and> ordc (b64_char n) < 128) [0..<64]"
  by code_simp

lemma b64_char_simps [simp]:
  assumes "n < 64"
  shows "b64_val (b64_char n) = Some n" "b64_char n \<noteq> CHR ''=''" "ordc (b64_char n) < 128"
  using b64_chars assms by (auto simp: list_all_iff)

lemma ordc_bits [simp]:
  "ordc c div 4 < 64" "ordc c div 16 < 16" "ordc c div 64 < 4"
  using ordc_less [of c] by (auto simp: less_mult_imp_div_less)

lemma bits_small [simp]:
  "ordc a mod 4 * 16 < 64" "ordc a mod 16 * 4 < 64" "ordc a mod 64 < 64"
  "ordc a mod 4 * 16 + ordc b div 16 < 64" "ordc a mod 16 * 4 + ordc b div 64 < 64"
proof -
  have m: "ordc a mod 4 < 4" "ordc a mod 16 < 16" "ordc a mod 64 < 64" by simp_all
  show "ordc a mod 4 * 16 < 64" "ordc a mod 16 * 4 < 64" "ordc a mod 64 < 64" using m by linarith+
  show "ordc a mod 4 * 16 + ordc b div 16 < 64" using m(1) ordc_bits(2) [of b] by linarith
  show "ordc a mod 16 * 4 + ordc b div 64 < 64" using m(2) ordc_bits(3) [of b] by linarith
qed

lemma a2b_b64encode: "a2b_base64 (b64encode s) 0 l p = Some s"
proof (induction s arbitrary: l p rule: b64encode.induct)
  case (4 a b c s)
  have "(ordc a mod 4 * 16 + ordc b div 16) div 16 = ordc a mod 4" "(ordc a mod 4 * 16 + ordc b div 16) mod 16 = ordc b div 16"
    "(ordc b mod 16 * 4 + ordc c div 64) div 4 = ordc b mod 16" "(ordc b mod 16 * 4 + ordc c div 64) mod 4 = ordc c div 64"
    using ordc_bits(2) [of b] ordc_bits(3) [of c] by (simp_all add: div_add1_eq)
  then show ?case using 4 by simp
next
  case (3 a b)
  have "(ordc a mod 4 * 16 + ordc b div 16) div 16 = ordc a mod 4" "(ordc a mod 4 * 16 + ordc b div 16) mod 16 = ordc b div 16"
    using ordc_bits(2) [of b] by (simp_all add: div_add1_eq)
  then show ?case by simp
qed simp_all

lemma equal_ascii: "ordc (CHR ''='') < 128"
  by (simp add: ordc_def)

lemma b64encode_ascii: "list_all (\<lambda>c. ordc c < 128) (b64encode s)"
  by (induction s rule: b64encode.induct) (simp_all add: equal_ascii)

lemma b64_round_trip [simp]: "b64decode (b64encode s) = Some s"
  by (simp add: b64decode_def b64encode_ascii a2b_b64encode)

end
