(* ===== verification/Provider_Keys.thy ===== *)
theory Provider_Keys
  imports Py_Bytes Settings Breaker
begin

text \<open>
  The keys of the providers set from the portal: \<open>src/app/provider_keys.py\<close>. The cipher is a
  parameter; the nonce \<open>os.urandom\<close> gives is an argument. The three tables are a record of their own
  and the module's variables are the memory of a process. Timestamps stay numbers.
\<close>

record aead_lib =
  aead_encrypt :: "string \<Rightarrow> string \<Rightarrow> string \<Rightarrow> string \<Rightarrow> string"
  aead_decrypt :: "string \<Rightarrow> string \<Rightarrow> string \<Rightarrow> string \<Rightarrow> string option"

section \<open>Tables and memory\<close>

definition PROVIDERS :: "string list" where "PROVIDERS = [''jina'', ''typesafe'']"
definition REFRESH_S :: rat where "REFRESH_S = 30"

record key_row =
  kr_provider :: string
  kr_ciphertext :: string
  kr_nonce :: string
  kr_last4 :: string
  kr_updated_by :: string
  kr_updated_at :: time

record audit_row =
  au_provider :: string
  au_action :: string
  au_last4 :: "string option"
  au_actor :: string
  au_request_id :: "string option"
  au_at :: time

text \<open>What \<open>Worker.health\<close> reports; the breaker is missing when the fetcher has no gate.\<close>

record breaker_report =
  bp_state :: breaker_mode
  bp_open_for_s :: rat
  bp_opened_count :: nat
  bp_last_open_reasons :: "(string \<times> nat) list"

record health =
  hl_worker :: string
  hl_concurrency :: int
  hl_in_flight :: nat
  hl_last_claim_at :: "time option"
  hl_breaker :: "breaker_report option"

text \<open>The values of the JSON object in \<open>process_status.status\<close>.\<close>

datatype status_value = Key_Used string "string option" | Health health

record process_row =
  ps_name :: string
  ps_status :: "(string \<times> status_value) list"
  ps_updated_at :: time

record key_db =
  provider_keys :: "key_row list"
  provider_key_audit :: "audit_row list"
  process_status :: "process_row list"

record key_meta =
  km_last4 :: string
  km_updated_by :: string
  km_updated_at :: time

record key_memory =
  m_keys :: "(string \<times> string) list"
  m_meta :: "(string \<times> key_meta) list"
  m_failed :: "string list"
  m_loaded_at :: time
  m_process_name :: "string option"

definition key_memory_start :: key_memory where
  "key_memory_start = \<lparr>m_keys = [], m_meta = [], m_failed = [], m_loaded_at = 0, m_process_name = None\<rparr>"

section \<open>The cipher\<close>

datatype key_error = Key_Store_Unavailable string | Decrypt_Failed

definition master_key :: "settings \<Rightarrow> key_error + string" where
  "master_key cfg =
     (let raw = provider_key_encryption_key cfg
      in if raw = [] then Inl (Key_Store_Unavailable ''PROVIDER_KEY_ENCRYPTION_KEY is not set'')
         else case b64decode raw of
                None \<Rightarrow> Inl (Key_Store_Unavailable ''PROVIDER_KEY_ENCRYPTION_KEY is not base64'')
              | Some key \<Rightarrow>
                  if length key \<noteq> 32 then Inl (Key_Store_Unavailable ''PROVIDER_KEY_ENCRYPTION_KEY must decode to 32 bytes'')
                  else Inr key)"

definition encrypt :: "aead_lib \<Rightarrow> settings \<Rightarrow> string \<Rightarrow> string \<Rightarrow> string \<Rightarrow> key_error + string \<times> string" where
  "encrypt lib cfg nonce provider secret =
     (case master_key cfg of
        Inl e \<Rightarrow> Inl e
      | Inr key \<Rightarrow> Inr (b64encode (aead_encrypt lib key nonce (utf8_encode secret) (utf8_encode provider)), b64encode nonce))"

text \<open>Any exception but \<open>KeyStoreUnavailable\<close>, from the encodings or the cipher, is \<open>Decrypt_Failed\<close>.\<close>

definition decrypt :: "aead_lib \<Rightarrow> settings \<Rightarrow> string \<Rightarrow> string \<Rightarrow> string \<Rightarrow> key_error + string" where
  "decrypt lib cfg provider ciphertext nonce =
     (case master_key cfg of
        Inl e \<Rightarrow> Inl e
      | Inr key \<Rightarrow>
          (case b64decode nonce of
             None \<Rightarrow> Inl Decrypt_Failed
           | Some n \<Rightarrow>
               (case b64decode ciphertext of
                  None \<Rightarrow> Inl Decrypt_Failed
                | Some ct \<Rightarrow>
                    (case aead_decrypt lib key n ct (utf8_encode provider) of
                       None \<Rightarrow> Inl Decrypt_Failed
                     | Some plain \<Rightarrow>
                         (case utf8_decode plain of None \<Rightarrow> Inl Decrypt_Failed | Some s \<Rightarrow> Inr s)))))"

section \<open>The key in use\<close>

definition env_key :: "settings \<Rightarrow> string \<Rightarrow> string" where
  "env_key cfg provider = (if provider = ''jina'' then jina_api_key cfg else typesafe_api_key cfg)"

definition current :: "settings \<Rightarrow> key_memory \<Rightarrow> string \<Rightarrow> string" where
  "current cfg m provider =
     (if provider \<in> set (m_failed m) then []
      else case map_of (m_keys m) provider of Some k \<Rightarrow> k | None \<Rightarrow> env_key cfg provider)"

definition key_source :: "settings \<Rightarrow> key_memory \<Rightarrow> string \<Rightarrow> string" where
  "key_source cfg m provider =
     (if provider \<in> set (m_failed m) then ''unreadable''
      else if map_of (m_keys m) provider \<noteq> None then ''portal''
      else if current cfg m provider \<noteq> [] then ''environment'' else ''none'')"

text \<open>\<open>s[-4:]\<close>\<close>

definition last4 :: "string \<Rightarrow> string" where
  "last4 s = drop (length s - 4) s"

record key_info =
  ki_source :: string
  ki_decrypt_failed :: bool
  ki_last4 :: "string option"
  ki_updated_by :: "string option"
  ki_updated_at :: "time option"

definition describe_one :: "settings \<Rightarrow> key_memory \<Rightarrow> string \<Rightarrow> key_info" where
  "describe_one cfg m p =
     (let key = current cfg m p; meta = map_of (m_meta m) p
      in \<lparr>ki_source = key_source cfg m p, ki_decrypt_failed = (p \<in> set (m_failed m)),
          ki_last4 = (if map_of (m_keys m) p \<noteq> None \<or> p \<in> set (m_failed m) then map_option km_last4 meta
                      else if key \<noteq> [] then Some (last4 key) else None),
          ki_updated_by = map_option km_updated_by meta, ki_updated_at = map_option km_updated_at meta\<rparr>)"

definition describe :: "settings \<Rightarrow> key_memory \<Rightarrow> (string \<times> key_info) list" where
  "describe cfg m = map (\<lambda>p. (p, describe_one cfg m p)) PROVIDERS"

section \<open>Reports\<close>

text \<open>\<open>a || b\<close> of two JSON objects is \<open>fold dict_put b a\<close>.\<close>

definition merge_status :: "time \<Rightarrow> string \<Rightarrow> (string \<times> status_value) list \<Rightarrow> key_db \<Rightarrow> key_db" where
  "merge_status now name fs d =
     (if \<exists>r \<in> set (process_status d). ps_name r = name
      then d\<lparr>process_status := upd_where (\<lambda>r. ps_name r = name)
        (\<lambda>r. r\<lparr>ps_status := fold dict_put fs (ps_status r), ps_updated_at := now\<rparr>) (process_status d)\<rparr>
      else d\<lparr>process_status := process_status d @
        [\<lparr>ps_name = name, ps_status = fold dict_put fs [], ps_updated_at = now\<rparr>]\<rparr>)"

definition key_report :: "settings \<Rightarrow> key_memory \<Rightarrow> (string \<times> status_value) list" where
  "key_report cfg m = map (\<lambda>p. (p, Key_Used (key_source cfg m p)
     (let l = last4 (current cfg m p) in if l = [] then None else Some l))) PROVIDERS"

text \<open>\<open>_report\<close>: a failing statement is rolled back and logged; \<open>works\<close> says whether it succeeds.\<close>

definition report :: "settings \<Rightarrow> bool \<Rightarrow> time \<Rightarrow> string \<Rightarrow> key_memory \<Rightarrow> key_db \<Rightarrow> key_db" where
  "report cfg works now name m d = (if works then merge_status now name (key_report cfg m) d else d)"

definition report_health :: "time \<Rightarrow> key_memory \<Rightarrow> health \<Rightarrow> key_db \<Rightarrow> key_db" where
  "report_health now m h d =
     (if truthy (m_process_name m) then merge_status now (or_empty (m_process_name m)) [(''health'', Health h)] d else d)"

definition processes :: "key_db \<Rightarrow> (string \<times> (string \<times> status_value) list \<times> time) list" where
  "processes d = map (\<lambda>r. (ps_name r, ps_status r, ps_updated_at r)) (process_status d)"

section \<open>Loading, saving and removing\<close>

definition load_row :: "aead_lib \<Rightarrow> settings \<Rightarrow> key_row \<Rightarrow> key_memory \<Rightarrow> key_memory" where
  "load_row lib cfg r m =
     (let m = m\<lparr>m_meta := dict_put (kr_provider r, \<lparr>km_last4 = kr_last4 r, km_updated_by = kr_updated_by r,
            km_updated_at = kr_updated_at r\<rparr>) (m_meta m)\<rparr>
      in case decrypt lib cfg (kr_provider r) (kr_ciphertext r) (kr_nonce r) of
           Inr s \<Rightarrow> m\<lparr>m_keys := dict_put (kr_provider r, s) (m_keys m)\<rparr>
         | Inl e \<Rightarrow> m\<lparr>m_failed := List.insert (kr_provider r) (m_failed m)\<rparr>)"

definition load :: "aead_lib \<Rightarrow> settings \<Rightarrow> key_row list \<Rightarrow> key_memory \<Rightarrow> key_memory" where
  "load lib cfg rows m = fold (load_row lib cfg) rows (m\<lparr>m_keys := [], m_meta := [], m_failed := []\<rparr>)"

text \<open>The clocks of a call: the monotonic clock before and after the query, and the database's.\<close>

record clocks =
  ck_before :: time
  ck_after :: time
  ck_now :: time
  ck_report_works :: bool

definition refresh :: "aead_lib \<Rightarrow> settings \<Rightarrow> clocks \<Rightarrow> bool \<Rightarrow> key_db \<times> key_memory \<Rightarrow> key_db \<times> key_memory" where
  "refresh lib cfg ck force s =
     (let (d, m) = s
      in if \<not> force \<and> ck_before ck - m_loaded_at m < REFRESH_S then (d, m)
         else let m' = (load lib cfg (provider_keys d) m)\<lparr>m_loaded_at := ck_after ck\<rparr>
              in (if truthy (m_process_name m')
                  then report cfg (ck_report_works ck) (ck_now ck) (or_empty (m_process_name m')) m' d else d, m'))"

definition set_process_name :: "string \<Rightarrow> key_memory \<Rightarrow> key_memory" where
  "set_process_name name m = m\<lparr>m_process_name := Some name\<rparr>"

definition audit :: "time \<Rightarrow> string \<Rightarrow> string \<Rightarrow> string option \<Rightarrow> string \<Rightarrow> string option \<Rightarrow> key_db \<Rightarrow> key_db" where
  "audit now provider action l4 actor request d =
     d\<lparr>provider_key_audit := provider_key_audit d @ [\<lparr>au_provider = provider, au_action = action, au_last4 = l4,
         au_actor = actor, au_request_id = request, au_at = now\<rparr>]\<rparr>"

definition recent_audit :: "nat \<Rightarrow> key_db \<Rightarrow> audit_row list" where
  "recent_audit n d = take n (sort_key (\<lambda>a. - au_at a) (provider_key_audit d))"

definition upsert_key :: "key_row \<Rightarrow> key_db \<Rightarrow> key_db" where
  "upsert_key row d =
     (if \<exists>r \<in> set (provider_keys d). kr_provider r = kr_provider row
      then d\<lparr>provider_keys := upd_where (\<lambda>r. kr_provider r = kr_provider row) (\<lambda>_. row) (provider_keys d)\<rparr>
      else d\<lparr>provider_keys := provider_keys d @ [row]\<rparr>)"

definition save ::
  "aead_lib \<Rightarrow> settings \<Rightarrow> clocks \<Rightarrow> string \<Rightarrow> string \<Rightarrow> string \<Rightarrow> string \<Rightarrow> string option \<Rightarrow> key_db \<times> key_memory \<Rightarrow>
     key_error option \<times> key_db \<times> key_memory" where
  "save lib cfg ck nonce provider secret who request s =
     (case encrypt lib cfg nonce provider secret of
        Inl e \<Rightarrow> (Some e, s)
      | Inr (ciphertext, n) \<Rightarrow>
          let row = \<lparr>kr_provider = provider, kr_ciphertext = ciphertext, kr_nonce = n, kr_last4 = last4 secret,
                kr_updated_by = who, kr_updated_at = ck_now ck\<rparr>;
              d = audit (ck_now ck) provider ''saved'' (Some (last4 secret)) who request (upsert_key row (fst s))
          in (None, refresh lib cfg ck True (d, snd s)))"

definition clear ::
  "aead_lib \<Rightarrow> settings \<Rightarrow> clocks \<Rightarrow> string \<Rightarrow> string \<Rightarrow> string option \<Rightarrow> key_db \<times> key_memory \<Rightarrow> key_db \<times> key_memory" where
  "clear lib cfg ck provider who request s =
     (let d = fst s;
          d = d\<lparr>provider_keys := filter (\<lambda>r. kr_provider r \<noteq> provider) (provider_keys d)\<rparr>
      in refresh lib cfg ck True (audit (ck_now ck) provider ''removed'' None who request d, snd s))"

end
