(* ===== verification/Provider_Keys_Props.thy ===== *)
theory Provider_Keys_Props
  imports Provider_Keys
begin

text \<open>
  Several processes, each with its own environment and its own copy of the keys, over one database:
  a saved key takes over everywhere, a key that cannot be read is not replaced by an older one, and
  nothing but the last four characters of a key is ever shown.
\<close>

section \<open>Loading\<close>

definition row_key :: "aead_lib \<Rightarrow> settings \<Rightarrow> key_row \<Rightarrow> string option" where
  "row_key lib cfg r = (case decrypt lib cfg (kr_provider r) (kr_ciphertext r) (kr_nonce r) of Inr s \<Rightarrow> Some s | Inl e \<Rightarrow> None)"

definition row_of :: "key_row list \<Rightarrow> string \<Rightarrow> key_row option" where
  "row_of rows p = map_of (map (\<lambda>r. (kr_provider r, r)) rows) p"

lemma load_row_simps:
  "map_of (m_keys (load_row lib cfg r m)) p =
     (if p = kr_provider r \<and> row_key lib cfg r \<noteq> None then row_key lib cfg r else map_of (m_keys m) p)"
  "(p \<in> set (m_failed (load_row lib cfg r m))) = (p \<in> set (m_failed m) \<or> p = kr_provider r \<and> row_key lib cfg r = None)"
  by (auto simp: load_row_def Let_def row_key_def map_of_dict_put split: sum.splits)

lemma row_of_simps:
  "row_of [] p = None" "row_of (r # rows) p = (if p = kr_provider r then Some r else row_of rows p)"
  by (auto simp: row_of_def)

lemma row_of_None: "row_of rows p = None \<longleftrightarrow> p \<notin> kr_provider ` set rows"
  by (induction rows) (auto simp: row_of_simps)

lemma fold_load:
  assumes "distinct (map kr_provider rows)"
  shows "map_of (m_keys (fold (load_row lib cfg) rows m)) p =
      (case row_of rows p of Some r \<Rightarrow> if row_key lib cfg r \<noteq> None then row_key lib cfg r else map_of (m_keys m) p
       | None \<Rightarrow> map_of (m_keys m) p)"
    and "(p \<in> set (m_failed (fold (load_row lib cfg) rows m))) =
      (p \<in> set (m_failed m) \<or> (\<exists>r. row_of rows p = Some r \<and> row_key lib cfg r = None))"
  using assms
proof (induction rows arbitrary: m)
  case (Cons r rows)
  case 1
  then show ?case using Cons(1) [of "load_row lib cfg r m"] row_of_None [of rows "kr_provider r"]
    by (auto simp: row_of_simps load_row_simps split: option.splits)
  case 2
  then show ?case using Cons(2) [of "load_row lib cfg r m"] row_of_None [of rows "kr_provider r"]
    by (auto simp: row_of_simps load_row_simps split: option.splits)
qed (simp_all add: row_of_simps)

lemma current_load:
  assumes "distinct (map kr_provider rows)"
  shows "current cfg ((load lib cfg rows m)\<lparr>m_loaded_at := t\<rparr>) p =
    (case row_of rows p of None \<Rightarrow> env_key cfg p | Some r \<Rightarrow> (case row_key lib cfg r of None \<Rightarrow> [] | Some s \<Rightarrow> s))"
  by (auto simp: current_def load_def fold_load [OF assms] split: option.splits)

section \<open>Processes over one database\<close>

record key_sys =
  ks_tables :: key_db
  ks_mem :: "nat \<Rightarrow> key_memory"

definition key_sys_start :: key_sys where
  "key_sys_start = \<lparr>ks_tables = \<lparr>provider_keys = [], provider_key_audit = [], process_status = []\<rparr>,
     ks_mem = (\<lambda>_. key_memory_start)\<rparr>"

text \<open>The calls a process makes; the first argument is the process.\<close>

datatype key_event =
  Set_Name nat string
| Refresh nat clocks bool
| Save nat clocks string string string string "string option"
| Clear nat clocks string string "string option"
| Report_Health nat time health

definition run_in :: "nat \<Rightarrow> (key_db \<times> key_memory \<Rightarrow> key_db \<times> key_memory) \<Rightarrow> key_sys \<Rightarrow> key_sys" where
  "run_in a f s = (let x = f (ks_tables s, ks_mem s a) in \<lparr>ks_tables = fst x, ks_mem = (ks_mem s)(a := snd x)\<rparr>)"

fun key_step :: "aead_lib \<Rightarrow> (nat \<Rightarrow> settings) \<Rightarrow> key_event \<Rightarrow> key_sys \<Rightarrow> key_sys" where
  "key_step lib cfg (Set_Name a name) s = run_in a (\<lambda>(d, m). (d, set_process_name name m)) s"
| "key_step lib cfg (Refresh a ck force) s = run_in a (refresh lib (cfg a) ck force) s"
| "key_step lib cfg (Save a ck nonce p secret who req) s =
     run_in a (\<lambda>x. snd (save lib (cfg a) ck nonce p secret who req x)) s"
| "key_step lib cfg (Clear a ck p who req) s = run_in a (clear lib (cfg a) ck p who req) s"
| "key_step lib cfg (Report_Health a now h) s = run_in a (\<lambda>(d, m). (report_health now m h d, m)) s"

definition key_run :: "aead_lib \<Rightarrow> (nat \<Rightarrow> settings) \<Rightarrow> key_event list \<Rightarrow> key_sys" where
  "key_run lib cfg es = fold (key_step lib cfg) es key_sys_start"

abbreviation rows_of :: "key_sys \<Rightarrow> key_row list" where
  "rows_of s \<equiv> provider_keys (ks_tables s)"

fun changes :: "string \<Rightarrow> key_event \<Rightarrow> bool" where
  "changes p (Save a ck nonce q secret who req) = (q = p)"
| "changes p (Clear a ck q who req) = (q = p)"
| "changes p _ = False"

lemma tables_kept [simp]:
  "provider_keys (merge_status now name fs d) = provider_keys d" "provider_keys (audit now p act l w r d) = provider_keys d"
  "provider_keys (report cfg ok now name m d) = provider_keys d" "provider_keys (report_health now m h d) = provider_keys d"
  "provider_keys (fst (refresh lib cfg ck force x)) = provider_keys (fst x)"
  by (auto simp: merge_status_def audit_def report_def report_health_def refresh_def Let_def split: prod.splits)

text \<open>The rows after an event.\<close>

fun rows_step :: "aead_lib \<Rightarrow> (nat \<Rightarrow> settings) \<Rightarrow> key_event \<Rightarrow> key_row list \<Rightarrow> key_row list" where
  "rows_step lib cfg (Save a ck nonce p secret who req) rows =
     (case encrypt lib (cfg a) nonce p secret of Inl e \<Rightarrow> rows
      | Inr (c, n) \<Rightarrow>
          let row = \<lparr>kr_provider = p, kr_ciphertext = c, kr_nonce = n, kr_last4 = last4 secret, kr_updated_by = who,
                kr_updated_at = ck_now ck\<rparr>
          in if p \<in> kr_provider ` set rows then upd_where (\<lambda>r. kr_provider r = p) (\<lambda>_. row) rows else rows @ [row])"
| "rows_step lib cfg (Clear a ck p who req) rows = filter (\<lambda>r. kr_provider r \<noteq> p) rows"
| "rows_step lib cfg _ rows = rows"

lemma rows_key_step: "rows_of (key_step lib cfg e s) = rows_step lib cfg e (rows_of s)"
proof (cases e)
  case (Save a ck nonce p secret who req)
  have "(\<exists>r \<in> set (rows_of s). kr_provider r = p) = (p \<in> kr_provider ` set (rows_of s))" by auto
  then show ?thesis unfolding Save
    by (simp add: run_in_def save_def Let_def upsert_key_def split: sum.split prod.split)
qed (simp_all add: run_in_def clear_def Let_def split_def)

lemma providers_upd:
  "kr_provider row = p \<Longrightarrow> map kr_provider (upd_where (\<lambda>r. kr_provider r = p) (\<lambda>_. row) rows) = map kr_provider rows"
  by (induction rows) (auto simp: upd_where_def)

lemma distinct_rows_step: "distinct (map kr_provider rows) \<Longrightarrow> distinct (map kr_provider (rows_step lib cfg e rows))"
  by (cases e) (auto simp: Let_def providers_upd distinct_map_filter split: sum.splits)

lemma distinct_rows_fold:
  "distinct (map kr_provider (rows_of s)) \<Longrightarrow> distinct (map kr_provider (rows_of (fold (key_step lib cfg) es s)))"
  by (induction es arbitrary: s) (simp_all add: rows_key_step distinct_rows_step)

lemma distinct_rows_run: "distinct (map kr_provider (rows_of (key_run lib cfg es)))"
  unfolding key_run_def by (rule distinct_rows_fold) (simp add: key_sys_start_def)

lemma row_of_upd:
  "kr_provider row = q \<Longrightarrow> row_of (upd_where (\<lambda>r. kr_provider r = q) (\<lambda>_. row) rows) p =
     (if p = q \<and> q \<in> kr_provider ` set rows then Some row else row_of rows p)"
  by (induction rows) (auto simp: row_of_simps upd_where_def)

lemma row_of_append: "row_of (rows @ [r]) p = (case row_of rows p of Some x \<Rightarrow> Some x | None \<Rightarrow> if p = kr_provider r then Some r else None)"
  by (induction rows) (auto simp: row_of_simps)

lemma row_of_filter: "row_of (filter (\<lambda>r. kr_provider r \<noteq> q) rows) p = (if p = q then None else row_of rows p)"
  by (induction rows) (auto simp: row_of_simps)

lemma row_of_quiet: "\<not> changes p e \<Longrightarrow> row_of (rows_step lib cfg e rows) p = row_of rows p"
  by (cases e) (auto simp: Let_def row_of_upd row_of_append row_of_filter split: sum.splits option.splits)

lemma row_of_quiet_run:
  "list_all (\<lambda>e. \<not> changes p e) es \<Longrightarrow> row_of (rows_of (fold (key_step lib cfg) es s)) p = row_of (rows_of s) p"
  by (induction es arbitrary: s) (simp_all add: rows_key_step row_of_quiet)

section \<open>A saved key takes over\<close>

text \<open>
  What is relied on of the cipher: a text comes back under the key and the associated data it was
  encrypted with, and under any other there is an error.
\<close>

definition aead_ok :: "aead_lib \<Rightarrow> bool" where
  "aead_ok lib = (\<forall>key key' nonce plain aad aad'.
     aead_decrypt lib key' nonce (aead_encrypt lib key nonce plain aad) aad' = (if key' = key \<and> aad' = aad then Some plain else None))"

lemma decrypt_encrypted:
  assumes "aead_ok lib" and "encrypt lib cfg nonce p secret = Inr (c, n)"
  shows "decrypt lib cfg' p c n =
    (case master_key cfg' of Inl e \<Rightarrow> Inl e | Inr k \<Rightarrow> if master_key cfg' = master_key cfg then Inr secret else Inl Decrypt_Failed)"
proof -
  obtain k where k: "master_key cfg = Inr k"
    and c: "c = b64encode (aead_encrypt lib k nonce (utf8_encode secret) (utf8_encode p))" "n = b64encode nonce"
    using assms(2) by (auto simp: encrypt_def split: sum.splits)
  show ?thesis using assms(1) k by (auto simp: decrypt_def c aead_ok_def split: sum.splits)
qed

lemma row_of_saved:
  assumes "encrypt lib (cfg a) nonce p secret = Inr (c, n)"
  shows "\<exists>r. row_of (rows_step lib cfg (Save a ck nonce p secret who req) rows) p = Some r \<and>
    kr_provider r = p \<and> kr_ciphertext r = c \<and> kr_nonce r = n"
  using assms row_of_None [of rows p]
  by (auto simp: Let_def row_of_upd row_of_append image_iff split: option.splits)

lemma current_refreshed:
  assumes "force \<or> REFRESH_S \<le> ck_before ck - m_loaded_at (ks_mem s b)" and "distinct (map kr_provider (rows_of s))"
  shows "current (cfg b) (ks_mem (key_step lib cfg (Refresh b ck force) s) b) p =
    (case row_of (rows_of s) p of None \<Rightarrow> env_key (cfg b) p | Some r \<Rightarrow> (case row_key lib (cfg b) r of None \<Rightarrow> [] | Some k \<Rightarrow> k))"
  using assms by (auto simp: run_in_def refresh_def Let_def current_load)


text \<open>A cipher for the samples: the key and the associated data are written in front.\<close>

definition s_tag :: "string \<Rightarrow> string \<Rightarrow> string" where
  "s_tag key aad = b64encode key @ CHR '' '' # b64encode aad"

definition s_aead :: aead_lib where
  "s_aead = \<lparr>aead_encrypt = (\<lambda>key nonce plain aad. s_tag key aad @ CHR '' '' # plain),
     aead_decrypt = (\<lambda>key nonce c aad. let tag = s_tag key aad @ '' '' in
       if take (length tag) c = tag then Some (drop (length tag) c) else None)\<rparr>"

lemma b64encode_inj: "b64encode s = b64encode s' \<Longrightarrow> s = s'"
  by (metis b64_round_trip option.inject)

lemma b64encode_no_blank: "CHR '' '' \<notin> set (b64encode s)"
proof -
  have "list_all (\<lambda>n. b64_char n \<noteq> CHR '' '') [0..<64]" by code_simp
  then have "b64_char n \<noteq> CHR '' ''" if "n < 64" for n using that by (auto simp: list_all_iff)
  then show ?thesis by (induction s rule: b64encode.induct) (simp_all add: eq_commute [of "CHR '' ''"])
qed

lemma blank_split:
  "CHR '' '' \<notin> set x \<Longrightarrow> CHR '' '' \<notin> set x' \<Longrightarrow> x @ CHR '' '' # y = x' @ CHR '' '' # y' \<longleftrightarrow> x = x' \<and> y = y'"
  by (induction x arbitrary: x') (auto simp: Cons_eq_append_conv, (case_tac x'; auto)+)

lemma s_aead_ok: "aead_ok s_aead"
proof -
  have "take (length (s_tag k' a' @ '' '')) (s_tag k a @ CHR '' '' # plain) = s_tag k' a' @ '' '' \<longleftrightarrow> k' = k \<and> a' = a" for k k' a a' plain
  proof
    assume "take (length (s_tag k' a' @ '' '')) (s_tag k a @ CHR '' '' # plain) = s_tag k' a' @ '' ''"
    then obtain z where "s_tag k a @ CHR '' '' # plain = (s_tag k' a' @ '' '') @ z" by (metis append_take_drop_id)
    then show "k' = k \<and> a' = a"
      by (auto simp: s_tag_def blank_split b64encode_no_blank dest: b64encode_inj)
  qed auto
  then show ?thesis by (auto simp: aead_ok_def s_aead_def Let_def)
qed

definition s_key_env :: "nat \<Rightarrow> settings" where
  "s_key_env a = settings_default\<lparr>jina_api_key := ''jina_leaked_1'',
     provider_key_encryption_key := (if a = 2 then [] else b64encode (replicate 32 (CHR ''k'')))\<rparr>"

definition s_clocks :: clocks where
  "s_clocks = \<lparr>ck_before = 40, ck_after = 41, ck_now = 1000, ck_report_works = True\<rparr>"


section \<open>What is shown of a key\<close>

definition cfg_like :: "settings \<Rightarrow> settings \<Rightarrow> bool" where
  "cfg_like c c' = (provider_key_encryption_key c = provider_key_encryption_key c' \<and> (\<forall>p. last4 (env_key c p) = last4 (env_key c' p)))"

fun event_like :: "key_event \<Rightarrow> key_event \<Rightarrow> bool" where
  "event_like (Save a ck nonce p x who req) e =
     (case e of Save a' ck' nonce' p' x' who' req' \<Rightarrow> (a, ck, p, who, req) = (a', ck', p', who', req') \<and> last4 x = last4 x' | _ \<Rightarrow> False)"
| "event_like e e' = (e = e')"

definition row_shown :: "key_row \<Rightarrow> string \<times> string \<times> string \<times> time" where
  "row_shown r = (kr_provider r, kr_last4 r, kr_updated_by r, kr_updated_at r)"

definition sealed :: "aead_lib \<Rightarrow> string \<Rightarrow> string \<Rightarrow> key_row \<Rightarrow> bool" where
  "sealed lib k x r = (\<exists>n. kr_nonce r = b64encode n \<and>
     kr_ciphertext r = b64encode (aead_encrypt lib k n (utf8_encode x) (utf8_encode (kr_provider r))))"

definition row_like :: "aead_lib \<Rightarrow> key_row \<Rightarrow> key_row \<Rightarrow> bool" where
  "row_like lib r r' = (row_shown r = row_shown r' \<and> (\<exists>k x x'. last4 x = last4 x' \<and> sealed lib k x r \<and> sealed lib k x' r'))"

definition key_like :: "string \<times> string \<Rightarrow> string \<times> string \<Rightarrow> bool" where
  "key_like e e' = (fst e = fst e' \<and> last4 (snd e) = last4 (snd e'))"

definition mem_like :: "key_memory \<Rightarrow> key_memory \<Rightarrow> bool" where
  "mem_like m m' = (list_all2 key_like (m_keys m) (m_keys m') \<and> m_meta m = m_meta m' \<and> m_failed m = m_failed m' \<and>
     m_loaded_at m = m_loaded_at m' \<and> m_process_name m = m_process_name m')"

definition tables_like :: "aead_lib \<Rightarrow> key_db \<Rightarrow> key_db \<Rightarrow> bool" where
  "tables_like lib d d' = (list_all2 (row_like lib) (provider_keys d) (provider_keys d') \<and>
     provider_key_audit d = provider_key_audit d' \<and> process_status d = process_status d')"

lemma last4_Nil [simp]: "last4 s = [] \<longleftrightarrow> s = []"
  by (cases s) (auto simp: last4_def)

lemma map_of_like: "list_all2 key_like ks ks' \<Longrightarrow> rel_option (\<lambda>x x'. last4 x = last4 x') (map_of ks p) (map_of ks' p)"
  by (induction rule: list_all2_induct) (auto simp: key_like_def)

lemma dict_put_like: "list_all2 key_like ks ks' \<Longrightarrow> last4 x = last4 x' \<Longrightarrow> list_all2 key_like (dict_put (p, x) ks) (dict_put (p, x') ks')"
  by (induction rule: list_all2_induct) (simp_all add: key_like_def [abs_def] split_paired_all)

lemma current_like:
  assumes "cfg_like c c'" and "mem_like m m'"
  shows "last4 (current c m p) = last4 (current c' m' p)" "current c m p = [] \<longleftrightarrow> current c' m' p = []"
    "map_of (m_keys m) p = None \<longleftrightarrow> map_of (m_keys m') p = None"
proof -
  have r: "rel_option (\<lambda>x x'. last4 x = last4 x') (map_of (m_keys m) p) (map_of (m_keys m') p)"
    using assms(2) by (simp add: mem_like_def map_of_like)
  then show l: "last4 (current c m p) = last4 (current c' m' p)"
    using assms by (auto simp: current_def mem_like_def cfg_like_def split: option.split)
  show "current c m p = [] \<longleftrightarrow> current c' m' p = []" using l by (metis last4_Nil)
  show "map_of (m_keys m) p = None \<longleftrightarrow> map_of (m_keys m') p = None" using r by (cases "map_of (m_keys m) p"; cases "map_of (m_keys m') p") auto
qed

lemma shown_like:
  assumes "cfg_like c c'" and "mem_like m m'"
  shows "describe c m = describe c' m'" "key_report c m = key_report c' m'"
  using assms(2) by (simp_all add: describe_def describe_one_def key_report_def key_source_def Let_def current_like [OF assms] mem_like_def)

lemma decrypt_sealed:
  assumes "aead_ok lib" and "sealed lib k x r"
  shows "decrypt lib c (kr_provider r) (kr_ciphertext r) (kr_nonce r) =
    (case master_key c of Inl e \<Rightarrow> Inl e | Inr k' \<Rightarrow> if k' = k then Inr x else Inl Decrypt_Failed)"
proof -
  from assms(2) obtain n where n: "kr_nonce r = b64encode n"
    "kr_ciphertext r = b64encode (aead_encrypt lib k n (utf8_encode x) (utf8_encode (kr_provider r)))"
    by (auto simp: sealed_def)
  show ?thesis using assms(1) by (simp add: decrypt_def n aead_ok_def split: sum.split)
qed

lemma load_row_like:
  assumes "aead_ok lib" and "cfg_like c c'" and "row_like lib r r'" and "mem_like m m'"
  shows "mem_like (load_row lib c r m) (load_row lib c' r' m')"
proof -
  from assms(3) obtain k x x' where s: "last4 x = last4 x'" "sealed lib k x r" "sealed lib k x' r'" and eq: "row_shown r = row_shown r'"
    by (auto simp: row_like_def)
  have mk: "master_key c' = master_key c" using assms(2) by (simp add: cfg_like_def master_key_def)
  have eqs: "kr_provider r' = kr_provider r" "kr_last4 r' = kr_last4 r" "kr_updated_by r' = kr_updated_by r" "kr_updated_at r' = kr_updated_at r"
    using eq by (simp_all add: row_shown_def)
  show ?thesis
    using assms(4) dict_put_like [OF _ s(1)]
    by (simp add: load_row_def Let_def decrypt_sealed [OF assms(1) s(2)] decrypt_sealed [OF assms(1) s(3)] mk mem_like_def split: sum.split)
       (auto simp: eqs)
qed

lemma load_like:
  assumes "aead_ok lib" and "cfg_like c c'" and "list_all2 (row_like lib) rows rows'" and "mem_like m m'"
  shows "mem_like (load lib c rows m) (load lib c' rows' m')"
proof -
  have "mem_like n n' \<Longrightarrow> mem_like (fold (load_row lib c) rows n) (fold (load_row lib c') rows' n')" for n n'
    using assms(3) by (induction arbitrary: n n' rule: list_all2_induct) (simp_all add: load_row_like [OF assms(1, 2)])
  then show ?thesis using assms(4) by (simp add: load_def mem_like_def)
qed

definition pair_like :: "aead_lib \<Rightarrow> key_db \<times> key_memory \<Rightarrow> key_db \<times> key_memory \<Rightarrow> bool" where
  "pair_like lib x x' = (tables_like lib (fst x) (fst x') \<and> mem_like (snd x) (snd x'))"

lemma tables_like_upd:
  assumes "tables_like lib d d'"
  shows "tables_like lib (merge_status now name fs d) (merge_status now name fs d')"
    "tables_like lib (audit now p act l w r d) (audit now p act l w r d')"
  using assms by (auto simp: tables_like_def merge_status_def audit_def)

lemma refresh_like:
  assumes "aead_ok lib" and "cfg_like c c'" and "pair_like lib x x'"
  shows "pair_like lib (refresh lib c ck force x) (refresh lib c' ck force x')"
proof -
  obtain d m d' m' where x: "x = (d, m)" "x' = (d', m')" by (cases x; cases x')
  from assms(3) have t: "tables_like lib d d'" and m: "mem_like m m'" by (simp_all add: pair_like_def x)
  define n where "n = (load lib c (provider_keys d) m)\<lparr>m_loaded_at := ck_after ck\<rparr>"
  define n' where "n' = (load lib c' (provider_keys d') m')\<lparr>m_loaded_at := ck_after ck\<rparr>"
  have n: "mem_like n n'"
    using load_like [OF assms(1, 2) _ m, of "provider_keys d" "provider_keys d'"] t by (simp add: n_def n'_def tables_like_def mem_like_def)
  have names: "m_process_name n' = m_process_name n" "m_loaded_at m' = m_loaded_at m" using n m by (simp_all add: mem_like_def)
  show ?thesis
    using t m n shown_like(2) [OF assms(2) n]
    by (simp add: x refresh_def Let_def n_def [symmetric] n'_def [symmetric] pair_like_def report_def names tables_like_upd)
qed

lemma like_providers: "list_all2 (row_like lib) rows rows' \<Longrightarrow> map kr_provider rows = map kr_provider rows'"
  by (induction rule: list_all2_induct) (auto simp: row_like_def row_shown_def)

lemma upsert_like:
  assumes "tables_like lib d d'" and "row_like lib row row'"
  shows "tables_like lib (upsert_key row d) (upsert_key row' d')"
proof -
  from assms(1) have rows: "list_all2 (row_like lib) (provider_keys d) (provider_keys d')" by (simp add: tables_like_def)
  have p: "kr_provider row' = kr_provider row" using assms(2) by (simp add: row_like_def row_shown_def)
  have "kr_provider ` set (provider_keys d) = kr_provider ` set (provider_keys d')"
    using arg_cong [OF like_providers [OF rows], of set] by simp
  then have "(\<exists>r \<in> set (provider_keys d). kr_provider r = q) = (\<exists>r \<in> set (provider_keys d'). kr_provider r = q)" for q
    by (metis imageE image_eqI)
  moreover have "list_all2 (row_like lib) (upd_where (\<lambda>r. kr_provider r = kr_provider row) (\<lambda>_. row) (provider_keys d))
      (upd_where (\<lambda>r. kr_provider r = kr_provider row) (\<lambda>_. row') (provider_keys d'))"
    using rows assms(2) by (induction rule: list_all2_induct) (auto simp: upd_where_def row_like_def row_shown_def)
  ultimately show ?thesis
    using assms by (simp add: upsert_key_def tables_like_def p list_all2_appendI)
qed

lemma save_like:
  assumes "aead_ok lib" and "cfg_like c c'" and "pair_like lib x x'" and "last4 s = last4 s'"
  shows "pair_like lib (snd (save lib c ck n p s who req x)) (snd (save lib c' ck n' p s' who req x'))"
proof (cases "master_key c")
  case (Inl e)
  moreover have "master_key c' = master_key c" using assms(2) by (simp add: cfg_like_def master_key_def)
  ultimately show ?thesis using assms(3) by (simp add: save_def encrypt_def)
next
  case (Inr k)
  have mk: "master_key c' = Inr k" using assms(2) Inr by (simp add: cfg_like_def master_key_def)
  define row where "row m x l = \<lparr>kr_provider = p,
    kr_ciphertext = b64encode (aead_encrypt lib k m (utf8_encode x) (utf8_encode p)), kr_nonce = b64encode m,
    kr_last4 = l, kr_updated_by = who, kr_updated_at = ck_now ck\<rparr>" for m x l
  have "row_like lib (row n s (last4 s)) (row n' s' (last4 s'))"
    using assms(4) by (auto simp: row_like_def row_shown_def row_def sealed_def)
  then have "pair_like lib (audit (ck_now ck) p act l who req (upsert_key (row n s (last4 s)) (fst x)), snd x)
      (audit (ck_now ck) p act l who req (upsert_key (row n' s' (last4 s')) (fst x')), snd x')" for act l
    using assms(3) by (simp add: pair_like_def tables_like_upd upsert_like)
  from refresh_like [OF assms(1, 2) this] show ?thesis
    using assms(4) by (simp add: save_def encrypt_def Inr mk Let_def row_def [symmetric])
qed

lemma clear_like:
  assumes "aead_ok lib" and "cfg_like c c'" and "pair_like lib x x'"
  shows "pair_like lib (clear lib c ck p who req x) (clear lib c' ck p who req x')"
proof -
  have "list_all2 (row_like lib) rows rows' \<Longrightarrow>
      list_all2 (row_like lib) (filter (\<lambda>r. kr_provider r \<noteq> p) rows) (filter (\<lambda>r. kr_provider r \<noteq> p) rows')" for rows rows'
    by (induction rule: list_all2_induct) (auto simp: row_like_def row_shown_def)
  then show ?thesis
    unfolding clear_def Let_def using assms(3)
    by (intro refresh_like [OF assms(1, 2)]) (simp add: pair_like_def tables_like_def audit_def)
qed

definition sys_like :: "aead_lib \<Rightarrow> key_sys \<Rightarrow> key_sys \<Rightarrow> bool" where
  "sys_like lib s s' = (\<forall>a. pair_like lib (ks_tables s, ks_mem s a) (ks_tables s', ks_mem s' a))"

lemma run_in_like:
  assumes "sys_like lib s s'" and "pair_like lib (f (ks_tables s, ks_mem s a)) (f' (ks_tables s', ks_mem s' a))"
  shows "sys_like lib (run_in a f s) (run_in a f' s')"
  using assms by (auto simp: sys_like_def run_in_def pair_like_def Let_def)

lemma key_step_like:
  assumes "aead_ok lib" and "\<And>a. cfg_like (cfg a) (cfg' a)" and "event_like e e'" and "sys_like lib s s'"
  shows "sys_like lib (key_step lib cfg e s) (key_step lib cfg' e' s')"
proof -
  have p: "pair_like lib (ks_tables s, ks_mem s a) (ks_tables s', ks_mem s' a)" for a using assms(4) by (simp add: sys_like_def)
  show ?thesis
  proof (cases e)
    case (Save a ck n q x who req)
    with assms(3) obtain n' x' where e': "e' = Save a ck n' q x' who req" "last4 x = last4 x'" by (cases e') auto
    show ?thesis unfolding Save e' key_step.simps
      by (rule run_in_like [OF assms(4)]) (rule save_like [OF assms(1, 2) p e'(2)])
  next
    case (Report_Health a now h)
    then show ?thesis using assms(3, 4) p [of a]
      by (auto intro!: run_in_like simp: pair_like_def report_health_def mem_like_def tables_like_upd)
  next
    case (Set_Name a name)
    then show ?thesis using assms(3, 4) p [of a] by (auto intro!: run_in_like simp: pair_like_def set_process_name_def mem_like_def)
  next
    case (Refresh a ck force)
    then show ?thesis using assms(3) by (auto intro!: run_in_like [OF assms(4)] refresh_like [OF assms(1, 2) p])
  next
    case (Clear a ck q who req)
    then show ?thesis using assms(3) by (auto intro!: run_in_like [OF assms(4)] clear_like [OF assms(1, 2) p])
  qed
qed

lemma fold_step_like:
  assumes "aead_ok lib" and "\<And>a. cfg_like (cfg a) (cfg' a)" and "list_all2 event_like es es'" and "sys_like lib s s'"
  shows "sys_like lib (fold (key_step lib cfg) es s) (fold (key_step lib cfg') es' s')"
  using assms(3, 4) by (induction arbitrary: s s' rule: list_all2_induct) (simp_all add: key_step_like [OF assms(1, 2)])

text \<open>Everything the service shows about keys: the table without its ciphertexts, the audit, the processes, the descriptions.\<close>

definition shown :: "(nat \<Rightarrow> settings) \<Rightarrow> key_sys \<Rightarrow>
  (string \<times> string \<times> string \<times> time) list \<times> audit_row list \<times> (string \<times> (string \<times> status_value) list \<times> time) list \<times>
  (nat \<Rightarrow> (string \<times> key_info) list)" where
  "shown cfg s = (map row_shown (rows_of s), provider_key_audit (ks_tables s), processes (ks_tables s),
     \<lambda>a. describe (cfg a) (ks_mem s a))"

text \<open>
  C22: Nothing but the last four characters of a key ever leaves. Run the same calls twice, with
  keys that differ, in the saves and in the environments of the processes, but agree in their last
  four characters: the audit, the status of every process, the descriptions every process gives
  and the columns kept beside the ciphertexts are the same in both runs. So nobody who sees them learns
  more about a key than its last four characters.
\<close>

theorem keys_never_shown:
  assumes "aead_ok lib" and "\<And>a. cfg_like (cfg a) (cfg' a)" and "list_all2 event_like es es'"
  shows "shown cfg (key_run lib cfg es) = shown cfg' (key_run lib cfg' es')"
proof -
  have "sys_like lib key_sys_start key_sys_start"
    by (simp add: sys_like_def pair_like_def tables_like_def mem_like_def key_sys_start_def key_memory_start_def)
  then have like: "sys_like lib (key_run lib cfg es) (key_run lib cfg' es')"
    unfolding key_run_def by (rule fold_step_like [OF assms])
  then have t: "tables_like lib (ks_tables (key_run lib cfg es)) (ks_tables (key_run lib cfg' es'))"
    by (simp add: sys_like_def pair_like_def)
  have "list_all2 (row_like lib) rows rows' \<Longrightarrow> map row_shown rows = map row_shown rows'" for rows rows'
    by (induction rule: list_all2_induct) (auto simp: row_like_def)
  with t like shown_like(1) [OF assms(2)] show ?thesis
    by (auto simp: shown_def tables_like_def processes_def sys_like_def pair_like_def)
qed

definition s_shown :: "string \<Rightarrow> key_event list" where
  "s_shown x = [Set_Name 1 ''worker'', Save 0 s_clocks ''123456789012'' ''jina'' x ''ann'' None, Refresh 1 s_clocks False]"

theorem keys_never_shown_witness:
  "shown s_key_env (key_run s_aead s_key_env (s_shown ''jina_first_0042'')) =
   shown s_key_env (key_run s_aead s_key_env (s_shown ''jina_other_key_0042'')) \<and>
   ''jina_first_0042'' \<noteq> ''jina_other_key_0042''"
  using keys_never_shown [OF s_aead_ok, of s_key_env s_key_env "s_shown ''jina_first_0042''" "s_shown ''jina_other_key_0042''"]
  by (simp add: cfg_like_def s_shown_def last4_def)

end
