(* ===== verification/Providers.thy ===== *)
theory Providers
  imports Provider_Keys_Props Judge Job_Api_Props
begin

text \<open>
  The credit and the keys of the providers as the portal sees them: \<open>src/app/providers.py\<close> and the
  endpoints under \<open>/providers\<close> of \<open>src/app/main.py\<close>. What a provider answers is an argument: nothing
  for an error of the HTTP client, else the status and the JSON of the body, if it is JSON.
  The start of the month, which the database computes, is an argument too.
\<close>

type_synonym vendor_reply = "(int \<times> jval option) option"

definition CACHE_S :: rat where "CACHE_S = 300"
definition WORKER_SILENT_S :: int where "WORKER_SILENT_S = 120"

section \<open>Asking the providers\<close>

definition jina_state :: "settings \<Rightarrow> int option \<Rightarrow> string" where
  "jina_state cfg balance =
     (case balance of
        None \<Rightarrow> ''unknown''
      | Some b \<Rightarrow> if b \<le> 0 then ''empty'' else if b < jina_low_balance_tokens cfg then ''low'' else ''ok'')"

text \<open>\<open>int(x)\<close> cuts towards zero; a truth value counts as an int.\<close>

definition int_of_json :: "jval \<Rightarrow> int option" where
  "int_of_json v = (case v of
     JNum x \<Rightarrow> Some (if x \<ge> 0 then \<lfloor>x\<rfloor> else \<lceil>x\<rceil>) | JBool b \<Rightarrow> Some (if b then 1 else 0) | _ \<Rightarrow> None)"

text \<open>\<open>Inl\<close> is the \<open>AttributeError\<close> of \<open>.get\<close> on a value that is not an object, which is not caught.\<close>

definition jina_balance :: "vendor_reply \<Rightarrow> exn + int option" where
  "jina_balance reply =
     (case reply of
        None \<Rightarrow> Inr None
      | Some (status, body) \<Rightarrow>
          if status \<noteq> 200 then Inr None
          else (case body of
             None \<Rightarrow> Inr None
           | Some v \<Rightarrow>
               (case jget (jor v (JObj [])) ''wallet'' of
                  None \<Rightarrow> Inl Attribute_Error
                | Some w \<Rightarrow>
                    (case jget (jor w (JObj [])) ''total_balance'' of
                       None \<Rightarrow> Inl Attribute_Error
                     | Some balance \<Rightarrow> Inr (int_of_json balance)))))"

definition typesafe_key_status :: "vendor_reply \<Rightarrow> string" where
  "typesafe_key_status reply =
     (case reply of
        None \<Rightarrow> ''unknown''
      | Some (status, _) \<Rightarrow>
          if status = 200 then ''ok'' else if status = 401 \<or> status = 403 then ''rejected''
          else if status = 402 then ''empty'' else ''unknown'')"

definition ask_jina :: "settings \<Rightarrow> key_memory \<Rightarrow> (string \<Rightarrow> vendor_reply) \<Rightarrow> exn + string \<times> int option" where
  "ask_jina cfg m wallet =
     (let key = current cfg m ''jina''
      in if key = [] then Inr (''not_configured'', None)
         else case jina_balance (wallet key) of Inl e \<Rightarrow> Inl e | Inr balance \<Rightarrow> Inr (jina_state cfg balance, balance))"

definition ask_typesafe :: "settings \<Rightarrow> key_memory \<Rightarrow> (string \<Rightarrow> vendor_reply) \<Rightarrow> string" where
  "ask_typesafe cfg m models =
     (let key = current cfg m ''typesafe'' in if key = [] then ''not_configured'' else typesafe_key_status (models key))"

section \<open>The status strip\<close>

record vendors =
  vn_jina_status :: string
  vn_balance_tokens :: "int option"
  vn_typesafe_status :: string
  vn_checked_at :: time

record usage =
  us_jina_tokens :: int
  us_typesafe_calls :: nat
  us_domains_fetched :: nat

definition usage_since :: "time \<Rightarrow> db \<Rightarrow> usage" where
  "usage_since month d =
     (let rows = filter (\<lambda>r. jd_state r = Done \<and> (case jd_finished_at r of None \<Rightarrow> False | Some f \<Rightarrow> f \<ge> month)) (job_domains d)
      in \<lparr>us_jina_tokens = (\<Sum>r\<leftarrow>rows. jd_jina_tokens r), us_typesafe_calls = count_where jd_typesafe_called rows,
          us_domains_fetched = count_where (\<lambda>r. \<not> jd_from_cache r) rows\<rparr>)"

record worker_status =
  ws_status :: string
  ws_last_seen_s :: "int option"
  ws_in_flight :: "nat option"
  ws_concurrency :: "int option"
  ws_last_claim_at :: "time option"
  ws_breaker :: "breaker_report option"

definition worker_health :: "time \<Rightarrow> key_db \<Rightarrow> worker_status" where
  "worker_health now d =
     (case find (\<lambda>r. ps_name r = ''worker'') (process_status d) of
        None \<Rightarrow> \<lparr>ws_status = ''never_seen'', ws_last_seen_s = None, ws_in_flight = None, ws_concurrency = None,
          ws_last_claim_at = None, ws_breaker = None\<rparr>
      | Some r \<Rightarrow>
          let x = now - ps_updated_at r; age = (if x \<ge> 0 then \<lfloor>x\<rfloor> else \<lceil>x\<rceil>);
              health = (case map_of (ps_status r) ''health'' of Some (Health h) \<Rightarrow> Some h | _ \<Rightarrow> None)
          in \<lparr>ws_status = (if age < WORKER_SILENT_S then ''ok'' else ''silent''), ws_last_seen_s = Some age,
              ws_in_flight = map_option hl_in_flight health, ws_concurrency = map_option hl_concurrency health,
              ws_last_claim_at = Option.bind health hl_last_claim_at, ws_breaker = Option.bind health hl_breaker\<rparr>)"

type_synonym provider_cache = "(time \<times> vendors) option"

record provider_reply =
  pr_vendors :: vendors
  pr_usage :: usage
  pr_low_threshold :: int
  pr_worker :: worker_status

record vendor_net =
  net_wallet :: "string \<Rightarrow> vendor_reply"
  net_models :: "string \<Rightarrow> vendor_reply"

definition vendors_now ::
  "settings \<Rightarrow> key_memory \<Rightarrow> vendor_net \<Rightarrow> time \<Rightarrow> time \<Rightarrow> provider_cache \<Rightarrow> provider_cache \<times> (exn + vendors)" where
  "vendors_now cfg m net tick wall cache =
     (let stale = (case cache of None \<Rightarrow> True | Some (t, _) \<Rightarrow> tick - t > CACHE_S)
      in if stale then
           (case ask_jina cfg m (net_wallet net) of
              Inl e \<Rightarrow> (cache, Inl e)
            | Inr (status, balance) \<Rightarrow>
                let v = \<lparr>vn_jina_status = status, vn_balance_tokens = balance,
                      vn_typesafe_status = ask_typesafe cfg m (net_models net), vn_checked_at = wall\<rparr>
                in (Some (tick, v), Inr v))
         else (cache, Inr (snd (the cache))))"

definition provider_status ::
  "aead_lib \<Rightarrow> settings \<Rightarrow> vendor_net \<Rightarrow> clocks \<Rightarrow> time \<Rightarrow> db \<Rightarrow> key_db \<times> key_memory \<Rightarrow> provider_cache \<Rightarrow>
     (key_db \<times> key_memory) \<times> provider_cache \<times> (exn + provider_reply)" where
  "provider_status lib cfg net ck month d s cache =
     (let s = refresh lib cfg ck False s;
          (cache, v) = vendors_now cfg (snd s) net (ck_after ck) (ck_now ck) cache
      in (s, cache, case v of
            Inl e \<Rightarrow> Inl e
          | Inr v \<Rightarrow> Inr \<lparr>pr_vendors = v, pr_usage = usage_since month d, pr_low_threshold = jina_low_balance_tokens cfg,
              pr_worker = worker_health (ck_now ck) (fst s)\<rparr>))"

definition cached_jina_status :: "provider_cache \<Rightarrow> string" where
  "cached_jina_status cache = (case cache of None \<Rightarrow> ''unknown'' | Some (_, v) \<Rightarrow> vn_jina_status v)"

text \<open>The last field of \<open>estimate\<close>.\<close>

definition blocked_by :: "provider_cache \<Rightarrow> string option" where
  "blocked_by cache = (if cached_jina_status cache = ''empty'' then Some ''jina_credit'' else None)"

section \<open>Changing a key\<close>

text \<open>The state of the process that serves the portal, over the queue's tables and its own.\<close>

record portal =
  po_keys :: "key_db \<times> key_memory"
  po_cache :: provider_cache
  po_changes :: "string \<Rightarrow> time list"
  po_db :: db

text \<open>\<open>\S+\<close> of the validation library: the white space of Unicode.\<close>

definition key_body_ok :: "string \<Rightarrow> bool" where
  "key_body_ok key = (10 \<le> length key \<and> length key \<le> 300 \<and>
     list_all (\<lambda>c. \<not> (9 \<le> ordc c \<and> ordc c \<le> 13 \<or> ordc c = 32 \<or> ordc c = 133 \<or> ordc c = 160)) key)"

definition require_admin :: "principal \<Rightarrow> exn option" where
  "require_admin who = (if p_is_admin who then None else Some (api ''forbidden''))"

text \<open>What the three endpoints check first: an admin, a known provider, and the limit on changes.\<close>

definition key_change_allowed :: "time \<Rightarrow> principal \<Rightarrow> string \<Rightarrow> (string \<Rightarrow> time list) \<Rightarrow> (string \<Rightarrow> time list) \<times> exn option" where
  "key_change_allowed now who name recent =
     (case require_admin who of
        Some e \<Rightarrow> (recent, Some e)
      | None \<Rightarrow> if name \<notin> set PROVIDERS then (recent, Some (api ''not_found'')) else limit_key_changes now who recent)"

text \<open>The provider is asked about the new key: its status and balance, or the refusal.\<close>

definition check_new_key :: "settings \<Rightarrow> vendor_net \<Rightarrow> string \<Rightarrow> string \<Rightarrow> exn + string \<times> int option" where
  "check_new_key cfg net provider key =
     (if provider = ''jina''
      then (case jina_balance (net_wallet net key) of
              Inl e \<Rightarrow> Inl e
            | Inr None \<Rightarrow> Inl (api ''invalid_provider_key'')
            | Inr (Some b) \<Rightarrow> Inr (jina_state cfg (Some b), Some b))
      else let status = typesafe_key_status (net_models net key)
           in if status = ''rejected'' then Inl (api ''invalid_provider_key'')
              else if status = ''unknown'' then Inl (ApiError ''invalid_provider_key'' (Some 30) (Some 503))
              else Inr (status, None))"

record key_reply =
  kp_provider :: string
  kp_status :: string
  kp_balance :: "int option"
  kp_last4 :: string
  kp_resumed :: nat

definition put_provider_key ::
  "aead_lib \<Rightarrow> settings \<Rightarrow> vendor_net \<Rightarrow> clocks \<Rightarrow> (uuid \<Rightarrow> time) \<Rightarrow> string \<Rightarrow> string option \<Rightarrow> principal \<Rightarrow> string \<Rightarrow> string \<Rightarrow>
     portal \<Rightarrow> portal \<times> (exn + key_reply)" where
  "put_provider_key lib cfg net ck later nonce request who name key s =
     (if \<not> key_body_ok key then (s, Inl (api ''validation_error''))
      else
        let (recent, refused) = key_change_allowed (ck_before ck) who name (po_changes s);
            s = s\<lparr>po_changes := recent\<rparr>
        in case refused of
             Some e \<Rightarrow> (s, Inl e)
           | None \<Rightarrow>
               (case check_new_key cfg net name key of
                  Inl e \<Rightarrow> (s, Inl e)
                | Inr (status, balance) \<Rightarrow>
                    let (failed, keys) = save lib cfg ck nonce name key (p_name who) request (po_keys s)
                    in if failed \<noteq> None then (s, Inl (api ''key_store_unavailable''))
                       else
                         let (d, resumed) =
                               (if name = ''jina'' \<and> (case balance of None \<Rightarrow> False | Some b \<Rightarrow> b \<ge> jina_resume_min_tokens cfg)
                                then resume_paused_for (ck_now ck) later ''jina_account'' (po_db s) else (po_db s, 0))
                         in (s\<lparr>po_keys := keys, po_cache := None, po_db := d\<rparr>,
                             Inr \<lparr>kp_provider = name, kp_status = status, kp_balance = balance, kp_last4 = last4 key,
                               kp_resumed = resumed\<rparr>)))"

definition delete_provider_key ::
  "aead_lib \<Rightarrow> settings \<Rightarrow> clocks \<Rightarrow> string option \<Rightarrow> principal \<Rightarrow> string \<Rightarrow> portal \<Rightarrow> portal \<times> (exn + string \<times> key_info)" where
  "delete_provider_key lib cfg ck request who name s =
     (let (recent, refused) = key_change_allowed (ck_before ck) who name (po_changes s);
          s = s\<lparr>po_changes := recent\<rparr>
      in case refused of
           Some e \<Rightarrow> (s, Inl e)
         | None \<Rightarrow>
             let keys = clear lib cfg ck name (p_name who) request (po_keys s)
             in (s\<lparr>po_keys := keys, po_cache := None\<rparr>, Inr (name, describe_one cfg (snd keys) name)))"

record keys_reply =
  kg_keys :: "(string \<times> key_info) list"
  kg_can_save :: bool
  kg_processes :: "(string \<times> (string \<times> status_value) list \<times> time) list"
  kg_audit :: "audit_row list"

definition get_provider_keys ::
  "aead_lib \<Rightarrow> settings \<Rightarrow> clocks \<Rightarrow> principal \<Rightarrow> portal \<Rightarrow> portal \<times> (exn + keys_reply)" where
  "get_provider_keys lib cfg ck who s =
     (case require_admin who of
        Some e \<Rightarrow> (s, Inl e)
      | None \<Rightarrow>
          let keys = refresh lib cfg ck True (po_keys s)
          in (s\<lparr>po_keys := keys\<rparr>,
              Inr \<lparr>kg_keys = describe cfg (snd keys), kg_can_save = (provider_key_encryption_key cfg \<noteq> []),
                kg_processes = processes (fst keys), kg_audit = recent_audit 10 (fst keys)\<rparr>))"

section \<open>What a change does\<close>

lemma save_current:
  assumes "aead_ok lib" and "distinct (map kr_provider (provider_keys (fst x)))"
    and "save lib cfg ck nonce p secret who req x = (None, y)"
  shows "current cfg (snd y) p = secret"
proof -
  obtain c n where enc: "encrypt lib cfg nonce p secret = Inr (c, n)" using assms(3) by (auto simp: save_def split: sum.splits)
  then obtain k where k: "master_key cfg = Inr k" by (auto simp: encrypt_def split: sum.splits)
  define s where "s = \<lparr>ks_tables = fst x, ks_mem = (\<lambda>_. snd x)\<rparr>"
  define e where "e = Save 0 ck nonce p secret who req"
  have s: "distinct (map kr_provider (rows_of s))" using assms(2) by (simp add: s_def)
  obtain r where r: "row_of (rows_step lib (\<lambda>_. cfg) e (rows_of s)) p = Some r" "kr_provider r = p" "kr_ciphertext r = c" "kr_nonce r = n"
    using row_of_saved [where lib = lib and cfg = "\<lambda>_. cfg" and a = 0, OF enc] unfolding e_def by metis
  have "y = refresh lib cfg ck True (audit (ck_now ck) p ''saved'' (Some (last4 secret)) who req
      (upsert_key \<lparr>kr_provider = p, kr_ciphertext = c, kr_nonce = n, kr_last4 = last4 secret, kr_updated_by = who,
        kr_updated_at = ck_now ck\<rparr> (fst x)), snd x)" (is "y = refresh lib cfg ck True (?d, snd x)")
    using assms(3) by (simp add: save_def enc Let_def)
  moreover have "provider_keys ?d = rows_step lib (\<lambda>_. cfg) e (rows_of s)"
    by (simp add: e_def s_def enc Let_def upsert_key_def image_iff) (metis (no_types))
  moreover have "distinct (map kr_provider (rows_step lib (\<lambda>_. cfg) e (rows_of s)))" by (rule distinct_rows_step [OF s])
  ultimately have "current cfg (snd y) p = (case row_key lib cfg r of None \<Rightarrow> [] | Some s \<Rightarrow> s)"
    using r(1) by (simp add: refresh_def Let_def current_load)
  then show ?thesis using k by (simp add: row_key_def r decrypt_encrypted [OF assms(1) enc])
qed

lemma audit_kept [simp]: "provider_key_audit (fst (refresh lib cfg ck force x)) = provider_key_audit (fst x)"
  by (auto simp: refresh_def Let_def report_def merge_status_def split: prod.splits)

lemma save_audit:
  assumes "save lib cfg ck nonce p secret who req x = (None, y)"
  shows "provider_key_audit (fst y) = provider_key_audit (fst x) @
    [\<lparr>au_provider = p, au_action = ''saved'', au_last4 = Some (last4 secret), au_actor = who, au_request_id = req, au_at = ck_now ck\<rparr>]"
  using assms by (auto simp: save_def Let_def audit_def upsert_key_def split: sum.splits)

definition waits_for :: "string \<Rightarrow> job \<Rightarrow> bool" where
  "waits_for reason x = (j_status x = JPaused \<and> j_pause_reason x = Some reason)"

lemma complete_waits: "list_ex (waits_for r) (jobs (fst (complete_if_finished t j d))) \<Longrightarrow> list_ex (waits_for r) (jobs d)"
  by (auto simp: complete_if_finished_def Let_def complete_job_def waits_for_def list_ex_iff set_upd_where split: if_splits)

lemma resume_all:
  "\<not> list_ex (waits_for r) (jobs (fst (resume_paused_for now later r d)))"
proof -
  have "\<not> list_ex (waits_for r) (jobs (fold (\<lambda>j e. fst (complete_if_finished (later j) j e)) ids e))"
    if "\<not> list_ex (waits_for r) (jobs e)" for ids e
    using that by (induction ids arbitrary: e) (auto dest: complete_waits)
  moreover have "\<not> list_ex (waits_for r) (jobs (d\<lparr>jobs := upd_where
      (\<lambda>x. j_status x = JPaused \<and> j_pause_reason x = Some r) (resume_job_row now) (jobs d)\<rparr>))"
    by (auto simp: list_ex_iff set_upd_where waits_for_def resume_job_row_def)
  ultimately show ?thesis unfolding resume_paused_for_def Let_def fst_conv by blast
qed

definition enough_credit :: "settings \<Rightarrow> int option \<Rightarrow> bool" where
  "enough_credit cfg balance = (case balance of None \<Rightarrow> False | Some b \<Rightarrow> b \<ge> jina_resume_min_tokens cfg)"


definition s_net :: vendor_net where
  "s_net = \<lparr>net_wallet = (\<lambda>_. Some (200, Some (JObj [(''wallet'', JObj [(''total_balance'', JNum 90000000)])]))),
     net_models = (\<lambda>_. None)\<rparr>"

definition s_portal :: portal where
  "s_portal = \<lparr>po_keys = (ks_tables key_sys_start, key_memory_start), po_cache = None, po_changes = (\<lambda>_. []), po_db = s_db\<rparr>"

abbreviation (input) s_put :: "portal \<times> (exn + key_reply)" where
  "s_put \<equiv> put_provider_key s_aead (s_key_env 0) s_net s_clocks (\<lambda>_. 0) ''123456789012'' None ADMIN ''jina'' ''jina_fresh_2'' s_portal"

lemma s_put_accepted: "\<exists>s' reply. s_put = (s', Inr reply) \<and> kp_balance reply = Some 90000000"
proof -
  have body: "key_body_ok ''jina_fresh_2''" by code_simp
  have "master_key (s_key_env 0) = Inr (replicate 32 (CHR ''k''))"
    by (simp add: master_key_def s_key_env_def Let_def del: replicate.simps)
  then obtain y where save: "save s_aead (s_key_env 0) s_clocks ''123456789012'' ''jina'' ''jina_fresh_2'' (p_name ADMIN) None (po_keys s_portal) = (None, y)"
    by (simp add: save_def encrypt_def Let_def del: replicate.simps)
  have allowed: "key_change_allowed t ADMIN ''jina'' (po_changes s_portal) = ((\<lambda>_. [])(''admin'' := [t]), None)" for t
    by (simp add: key_change_allowed_def require_admin_def ADMIN_def PROVIDERS_def limit_key_changes_def KEY_CHANGES_PER_MINUTE_def s_portal_def)
  have "check_new_key (s_key_env 0) s_net ''jina'' ''jina_fresh_2'' = Inr (jina_state (s_key_env 0) (Some 90000000), Some 90000000)"
    by (simp add: check_new_key_def jina_balance_def s_net_def jor_def int_of_json_def)
  then show ?thesis by (simp add: put_provider_key_def body allowed save Let_def split: prod.split)
qed


text \<open>
  The module says that any failure to read the balance counts as unknown; an answer that is JSON but not
  an object raises.
\<close>

lemma wallet_not_object_raises: "jina_balance (Some (200, Some (JList [JNum 1]))) = Inl Attribute_Error"
  by code_simp

end
