(* ===== verification/Worker_Loop.thy ===== *)
theory Worker_Loop
  imports Provider_Keys_Props Worker Py_Net
begin

text \<open>
  The main loop of a worker, \<open>Worker.run\<close> of \<open>src/app/worker.py\<close>: the slots, the claims, the stop signal
  and the drain, and the two background loops. A step is what the event loop runs between two
  awaits, or one transaction; the handlers, other processes and the signal interleave freely.
\<close>

section \<open>Background loops\<close>

definition REAP_EVERY_S :: rat where "REAP_EVERY_S = 30"

text \<open>\<open>health\<close>: reading the state of the breaker may move it from open to half open.\<close>

definition worker_report ::
  "time \<Rightarrow> string \<Rightarrow> int \<Rightarrow> nat \<Rightarrow> time option \<Rightarrow> breaker option \<Rightarrow> breaker option \<times> health" where
  "worker_report now worker concurrency in_flight last_claim breaker =
     (let b = map_option (breaker_state now) breaker
      in (b, \<lparr>hl_worker = worker, hl_concurrency = concurrency, hl_in_flight = in_flight,
          hl_last_claim_at = (if last_claim = Some 0 then None else last_claim),
          hl_breaker = map_option (\<lambda>x. \<lparr>bp_state = br_mode x, bp_open_for_s = of_int (py_round (br_open_for x * 10)) / 10,
            bp_opened_count = br_opened_count x, bp_last_open_reasons = br_last_open_reasons x\<rparr>) b\<rparr>))"

text \<open>
  One round of \<open>_heartbeat_loop\<close>. An exception ends the block it is raised in: \<open>ok\<close> says of the lease
  update, the health report and the reload of the keys whether it succeeds.
\<close>

definition heartbeat_round ::
  "aead_lib \<Rightarrow> settings \<Rightarrow> clocks \<Rightarrow> (nat \<Rightarrow> bool) \<Rightarrow> string list \<Rightarrow> health \<Rightarrow> db \<times> key_db \<times> key_memory \<Rightarrow> db \<times> key_db \<times> key_memory" where
  "heartbeat_round lib cfg ck ok tokens h s =
     (let (d, kd, m) = s;
          d = (if ok 0 then heartbeat (ck_now ck) tokens d else d);
          kd = (if ok 0 \<and> ok 1 then report_health (ck_now ck) m h kd else kd);
          (kd, m) = (if ok 2 then refresh lib cfg ck False (kd, m) else (kd, m))
      in (d, kd, m))"

definition reap_round :: "time \<Rightarrow> time \<Rightarrow> (nat \<Rightarrow> bool) \<Rightarrow> db \<Rightarrow> db" where
  "reap_round now later ok d =
     (let d = (if ok 0 then fst (reap now d) else d)
      in if ok 0 \<and> ok 1 then fst (complete_finished_jobs later d) else d)"

section \<open>The loop\<close>

text \<open>
  \<open>Top\<close> is the test of the loop, \<open>Waiting\<close> is \<open>_acquire_or_stop\<close>, \<open>Claiming\<close> the claim with a slot held,
  \<open>Idle\<close> the pause after an empty claim, \<open>Draining\<close> is \<open>_drain\<close> before its last transaction.
\<close>

datatype loop_pc = Top | Waiting | Claiming | Idle | Draining | Stopped bool

record loop =
  lp_pc :: loop_pc
  lp_slots :: nat
  lp_live :: "claimed list"
  lp_stop :: bool
  lp_db :: db
  lp_late :: nat

text \<open>A transaction of the handler of a claim.\<close>

inductive handler_tx :: "claimed \<Rightarrow> db \<Rightarrow> db \<Rightarrow> bool" for c where
  lock: "handler_tx c d (fst (lock_domain now c d))"
| unlock: "handler_tx c d (unlock_domain c d)"
| requeue: "handler_tx c d (requeue now c delay count d)"
| finish: "handler_tx c d (fst (finish now c res from_cache write_cache d))"
| pause: "handler_tx c d (pause_active_jobs now reason d)"

text \<open>
  What else happens to the database takes no row and no lock under a token of this worker.
\<close>

definition uses_token :: "string \<Rightarrow> db \<Rightarrow> bool" where
  "uses_token t d = ((\<exists>r \<in> set (job_domains d). jd_state r = Running \<and> jd_claimed_by r = Some t) \<or>
     (\<exists>x \<in> set (domains d). d_lock_owner x = Some t))"

definition others :: "string \<Rightarrow> db \<Rightarrow> db \<Rightarrow> bool" where
  "others w d d' = (\<forall>h. uses_token (new_token w h) d' \<longrightarrow> uses_token (new_token w h) d)"

text \<open>
  The steps of the loop itself. \<open>lost\<close> is an exception in the claim, before or after its transaction
  took effect; \<open>lp_late\<close> counts the claims made with the stop signal set. \<open>give_up\<close> is an exception in the
  last transaction of the drain.
\<close>

inductive loop_step :: "string \<Rightarrow> loop \<Rightarrow> loop \<Rightarrow> bool" for w where
  enter: "\<lbrakk> lp_pc s = Top; \<not> lp_stop s \<rbrakk> \<Longrightarrow> loop_step w s (s\<lparr>lp_pc := Waiting\<rparr>)"
| leave: "\<lbrakk> lp_pc s = Top \<or> lp_pc s = Waiting; lp_stop s \<rbrakk> \<Longrightarrow> loop_step w s (s\<lparr>lp_pc := Draining\<rparr>)"
| acquire: "\<lbrakk> lp_pc s = Waiting; \<not> lp_stop s; 0 < lp_slots s \<rbrakk> \<Longrightarrow>
    loop_step w s (s\<lparr>lp_pc := Claiming, lp_slots := lp_slots s - 1\<rparr>)"
| claimed: "\<lbrakk> lp_pc s = Claiming; claim locked now w hex (lp_db s) = (d, Some c) \<rbrakk> \<Longrightarrow>
    loop_step w s (s\<lparr>lp_pc := Top, lp_live := c # lp_live s, lp_db := d, lp_late := lp_late s + (if lp_stop s then 1 else 0)\<rparr>)"
| empty: "\<lbrakk> lp_pc s = Claiming; claim locked now w hex (lp_db s) = (d, None) \<rbrakk> \<Longrightarrow>
    loop_step w s (s\<lparr>lp_pc := Idle, lp_slots := lp_slots s + 1, lp_db := d\<rparr>)"
| lost: "\<lbrakk> lp_pc s = Claiming; d = lp_db s \<or> d = fst (claim locked now w hex (lp_db s)) \<rbrakk> \<Longrightarrow>
    loop_step w s (s\<lparr>lp_pc := Idle, lp_slots := lp_slots s + 1, lp_db := d, lp_late := lp_late s + (if lp_stop s then 1 else 0)\<rparr>)"
| polled: "lp_pc s = Idle \<Longrightarrow> loop_step w s (s\<lparr>lp_pc := Top\<rparr>)"
| cancelled: "\<lbrakk> lp_pc s = Draining; c \<in> set (lp_live s) \<rbrakk> \<Longrightarrow>
    loop_step w s (s\<lparr>lp_live := remove1 c (lp_live s), lp_slots := lp_slots s + 1\<rparr>)"
| released: "\<lbrakk> lp_pc s = Draining; lp_live s = [] \<rbrakk> \<Longrightarrow>
    loop_step w s (s\<lparr>lp_pc := Stopped True, lp_db := release_worker now w (lp_db s)\<rparr>)"
| give_up: "\<lbrakk> lp_pc s = Draining; lp_live s = [] \<rbrakk> \<Longrightarrow> loop_step w s (s\<lparr>lp_pc := Stopped False\<rparr>)"

text \<open>What happens around it: handlers, the signal, heartbeats and other processes.\<close>

inductive around_step :: "string \<Rightarrow> loop \<Rightarrow> loop \<Rightarrow> bool" for w where
  handler: "\<lbrakk> c \<in> set (lp_live s); handler_tx c (lp_db s) d \<rbrakk> \<Longrightarrow> around_step w s (s\<lparr>lp_db := d\<rparr>)"
| ended: "c \<in> set (lp_live s) \<Longrightarrow>
    around_step w s (s\<lparr>lp_live := remove1 c (lp_live s), lp_slots := lp_slots s + 1\<rparr>)"
| signal: "around_step w s (s\<lparr>lp_stop := True\<rparr>)"
| beat: "around_step w s (s\<lparr>lp_db := heartbeat now (map c_token (lp_live s)) (lp_db s)\<rparr>)"
| other: "others w (lp_db s) d \<Longrightarrow> around_step w s (s\<lparr>lp_db := d\<rparr>)"

definition loop_start :: "nat \<Rightarrow> string \<Rightarrow> loop \<Rightarrow> bool" where
  "loop_start n w s = (plain_id w \<and> lp_pc s = Top \<and> lp_slots s = n \<and> lp_live s = [] \<and> \<not> lp_stop s \<and> lp_late s = 0)"

definition worker_step :: "string \<Rightarrow> loop \<Rightarrow> loop \<Rightarrow> bool" where
  "worker_step w s t = (loop_step w s t \<or> around_step w s t)"

inductive_cases loop_stepE: "loop_step w s t"
inductive_cases around_stepE: "around_step w s t"

section \<open>The invariant\<close>

definition loop_inv :: "nat \<Rightarrow> string \<Rightarrow> loop \<Rightarrow> bool" where
  "loop_inv n w s = (plain_id w \<and> lp_slots s + length (lp_live s) + (if lp_pc s = Claiming then 1 else 0) = n \<and>
     lp_late s + (if lp_pc s = Claiming then 1 else 0) \<le> 1 \<and> (lp_late s > 0 \<longrightarrow> lp_stop s) \<and>
     (lp_stop s \<or> lp_pc s \<notin> {Draining, Stopped True, Stopped False}) \<and>
     (\<forall>b. lp_pc s = Stopped b \<longrightarrow> lp_live s = []) \<and>
     (lp_pc s = Stopped True \<longrightarrow> (\<forall>h. \<not> uses_token (new_token w h) (lp_db s))))"

lemma release_unused:
  assumes "plain_id w"
  shows "\<not> uses_token (new_token w h) (release_worker now w d)"
  using release_worker_exact [OF assms, of now d] by (auto simp: uses_token_def set_upd_where release_row_def)

lemma heartbeat_unused: "uses_token t (heartbeat now tokens d) = uses_token t d"
  by (auto simp: uses_token_def heartbeat_def bex_upd_where)

lemma loop_inv_step:
  assumes "worker_step w s t" and "loop_inv n w s"
  shows "loop_inv n w t"
proof -
  have plain: "plain_id w" using assms(2) by (simp add: loop_inv_def)
  have len: "c \<in> set cs \<Longrightarrow> Suc (length (remove1 c cs)) = length cs" for c and cs :: "claimed list"
    by (simp add: length_remove1) (metis Suc_pred length_pos_if_in_set)
  from assms(1) consider "loop_step w s t" | "around_step w s t" by (auto simp: worker_step_def)
  then show ?thesis
  proof cases
    case 1
    then show ?thesis using assms(2) len
      by (cases rule: loop_step.cases) (auto simp: loop_inv_def release_unused [OF plain] split: if_splits)
  next
    case 2
    then show ?thesis using assms(2) len
      by (cases rule: around_step.cases) (auto simp: loop_inv_def heartbeat_unused others_def split: if_splits)
  qed
qed

interpretation wl: invariant_system "loop_start n w" "worker_step w" "loop_inv n w" for n w
  by unfold_locales (simp add: loop_start_def loop_inv_def, rule loop_inv_step)

section \<open>Shutdown\<close>

definition loop_rank :: "loop \<Rightarrow> nat" where
  "loop_rank s = length (lp_live s) +
     (case lp_pc s of Claiming \<Rightarrow> 4 | Idle \<Rightarrow> 3 | Top \<Rightarrow> 2 | Waiting \<Rightarrow> 2 | Draining \<Rightarrow> 1 | Stopped _ \<Rightarrow> 0)"

lemma remove_shorter: "c \<in> set cs \<Longrightarrow> length (remove1 c cs) < length cs"
  using length_pos_if_in_set [of c cs] by (simp add: length_remove1)

lemma rank_loop: "loop_step w s t \<Longrightarrow> lp_stop s \<Longrightarrow> loop_rank t < loop_rank s"
  by (cases rule: loop_step.cases) (auto simp: loop_rank_def remove_shorter)

lemma rank_around: "around_step w s t \<Longrightarrow> loop_rank t \<le> loop_rank s"
  by (cases rule: around_step.cases) (auto simp: loop_rank_def less_imp_le [OF remove_shorter])

lemma loop_can_step:
  assumes "lp_stop s" and "\<And>b. lp_pc s \<noteq> Stopped b"
  shows "\<exists>t. loop_step w s t"
proof (cases "lp_pc s")
  case Claiming
  then show ?thesis using loop_step.lost [OF Claiming, of "lp_db s"] by blast
next
  case Draining
  show ?thesis
  proof (cases "lp_live s")
    case Nil
    then show ?thesis using loop_step.give_up [OF Draining] by blast
  next
    case (Cons c cs)
    then show ?thesis using loop_step.cancelled [OF Draining, of c] by auto
  qed
qed (use assms in \<open>auto intro: loop_step.intros\<close>)


text \<open>A worker with one slot is stopped while it claims, and drains.\<close>

definition s_loop :: "loop_pc \<Rightarrow> nat \<Rightarrow> claimed list \<Rightarrow> bool \<Rightarrow> db \<Rightarrow> nat \<Rightarrow> loop" where
  "s_loop pc n cs st d l = \<lparr>lp_pc = pc, lp_slots = n, lp_live = cs, lp_stop = st, lp_db = d, lp_late = l\<rparr>"

lemma loop_then:
  "reachable (loop_start n w) (worker_step w) s \<Longrightarrow> worker_step w s t \<Longrightarrow> reachable (loop_start n w) (worker_step w) t"
  by (rule reachable.step)

lemma s_loop_run:
  assumes "claim (\<lambda>_. False) 100 ''w'' (\<lambda>_. ''h'') s_db = (d, Some c)"
  shows "reachable (loop_start 1 ''w'') (worker_step ''w'') (s_loop (Stopped True) 1 [] True (release_worker 101 ''w'' d) 1)"
proof -
  note lp = s_loop_def worker_step_def
  have start: "reachable (loop_start 1 ''w'') (worker_step ''w'') (s_loop Top 1 [] False s_db 0)"
    by (rule reachable.init) (simp add: loop_start_def s_loop_def plain_id_def)
  have "worker_step ''w'' (s_loop Top 1 [] False s_db 0) (s_loop Waiting 1 [] False s_db 0)"
    using loop_step.enter [of "s_loop Top 1 [] False s_db 0" "''w''"] by (simp add: lp)
  note r = loop_then [OF start this]
  have "worker_step ''w'' (s_loop Waiting 1 [] False s_db 0) (s_loop Claiming 0 [] False s_db 0)"
    using loop_step.acquire [of "s_loop Waiting 1 [] False s_db 0" "''w''"] by (simp add: lp)
  note r = loop_then [OF r this]
  have "worker_step ''w'' (s_loop Claiming 0 [] False s_db 0) (s_loop Claiming 0 [] True s_db 0)"
    using around_step.signal [of "''w''" "s_loop Claiming 0 [] False s_db 0"] by (simp add: lp)
  note r = loop_then [OF r this]
  have "lp_pc (s_loop Claiming 0 [] True s_db 0) = Claiming"
    "claim (\<lambda>_. False) 100 ''w'' (\<lambda>_. ''h'') (lp_db (s_loop Claiming 0 [] True s_db 0)) = (d, Some c)"
    using assms by (simp_all add: s_loop_def)
  from loop_step.claimed [OF this]
  have "worker_step ''w'' (s_loop Claiming 0 [] True s_db 0) (s_loop Top 0 [c] True d 1)" by (simp add: lp)
  note r = loop_then [OF r this]
  have "worker_step ''w'' (s_loop Top 0 [c] True d 1) (s_loop Draining 0 [c] True d 1)"
    using loop_step.leave [of "s_loop Top 0 [c] True d 1" "''w''"] by (simp add: lp)
  note r = loop_then [OF r this]
  have "worker_step ''w'' (s_loop Draining 0 [c] True d 1) (s_loop Draining 1 [] True d 1)"
    using loop_step.cancelled [of "s_loop Draining 0 [c] True d 1" c "''w''"] by (simp add: lp)
  note r = loop_then [OF r this]
  have "worker_step ''w'' (s_loop Draining 1 [] True d 1) (s_loop (Stopped True) 1 [] True (release_worker 101 ''w'' d) 1)"
    using loop_step.released [of "s_loop Draining 1 [] True d 1" "''w''" 101] by (simp add: lp)
  from loop_then [OF r this] show ?thesis .
qed


end
