(* ===== verification/Webhook_Pool.thy ===== *)
theory Webhook_Pool
  imports Prelude "HOL-Library.Multiset"
begin

text \<open>
  The pool of deliverers, \<open>WebhookSender\<close> of \<open>src/app/webhook.py\<close>: a bounded queue, a fixed number of tasks
  that take from it, and the window on shutdown. A delivery is a parameter; that it raises makes no difference to
  the pool. The ghosts \<open>wp_submitted\<close>, \<open>wp_started\<close>, \<open>wp_finished\<close> and \<open>wp_cut\<close> record what was handed in,
  taken, completed, and cancelled on the way.
\<close>

record 'p delivery =
  dv_url :: string
  dv_event :: 'p
  dv_id :: "string option"

datatype pool_phase = Serving | Closing | Closed "nat option"

record 'p pool =
  wp_queue :: "'p delivery list"
  wp_busy :: "'p delivery list"
  wp_unfinished :: nat
  wp_phase :: pool_phase
  wp_submitted :: "'p delivery list"
  wp_started :: "'p delivery list"
  wp_finished :: "'p delivery list"
  wp_cut :: "'p delivery list"

definition WebhookSender :: "'p pool" where
  "WebhookSender = \<lparr>wp_queue = [], wp_busy = [], wp_unfinished = 0, wp_phase = Serving, wp_submitted = [], wp_started = [],
     wp_finished = [], wp_cut = []\<rparr>"

text \<open>\<open>payload.setdefault("delivery_id", uuid4().hex)\<close>\<close>

definition with_id :: "string \<Rightarrow> 'p delivery \<Rightarrow> 'p delivery" where
  "with_id fresh x = (case dv_id x of None \<Rightarrow> x\<lparr>dv_id := Some fresh\<rparr> | Some i \<Rightarrow> x)"

text \<open>
  The queue takes an entry only while it has room, and counts the unfinished ones until \<open>task_done\<close>.
  The argument of \<open>Closed\<close> is the number of entries the warning reports when the window is over.
\<close>

inductive pool_step :: "nat \<Rightarrow> nat \<Rightarrow> 'p pool \<Rightarrow> 'p pool \<Rightarrow> bool" for senders max_pending where
  submit: "\<lbrakk> wp_phase s \<in> {Serving, Closing}; length (wp_queue s) < max_pending \<rbrakk> \<Longrightarrow>
    pool_step senders max_pending s (s\<lparr>wp_queue := wp_queue s @ [with_id fresh x], wp_unfinished := wp_unfinished s + 1,
      wp_submitted := wp_submitted s @ [with_id fresh x]\<rparr>)"
| take: "\<lbrakk> wp_phase s \<in> {Serving, Closing}; length (wp_busy s) < senders; wp_queue s = x # q \<rbrakk> \<Longrightarrow>
    pool_step senders max_pending s (s\<lparr>wp_queue := q, wp_busy := x # wp_busy s, wp_started := wp_started s @ [x]\<rparr>)"
| task_done: "\<lbrakk> wp_phase s \<in> {Serving, Closing}; x \<in> set (wp_busy s) \<rbrakk> \<Longrightarrow>
    pool_step senders max_pending s (s\<lparr>wp_busy := remove1 x (wp_busy s), wp_unfinished := wp_unfinished s - 1,
      wp_finished := wp_finished s @ [x]\<rparr>)"
| close: "wp_phase s = Serving \<Longrightarrow> pool_step senders max_pending s (s\<lparr>wp_phase := Closing\<rparr>)"
| joined: "\<lbrakk> wp_phase s = Closing; wp_unfinished s = 0 \<rbrakk> \<Longrightarrow>
    pool_step senders max_pending s (s\<lparr>wp_phase := Closed None\<rparr>)"
| window_over: "wp_phase s = Closing \<Longrightarrow>
    pool_step senders max_pending s (s\<lparr>wp_phase := Closed (Some (length (wp_queue s))), wp_busy := [], wp_cut := wp_busy s\<rparr>)"

definition pool_start :: "'p pool \<Rightarrow> bool" where
  "pool_start s = (s = WebhookSender)"

definition have_ids :: "'p delivery list \<Rightarrow> bool" where
  "have_ids xs = list_all (\<lambda>x. dv_id x \<noteq> None) xs"

definition pool_inv :: "nat \<Rightarrow> nat \<Rightarrow> 'p pool \<Rightarrow> bool" where
  "pool_inv senders max_pending s = (length (wp_queue s) \<le> max_pending \<and> length (wp_busy s) \<le> senders \<and>
     wp_submitted s = wp_started s @ wp_queue s \<and> have_ids (wp_started s @ wp_queue s) \<and>
     mset (wp_started s) = mset (wp_finished s) + mset (wp_busy s) + mset (wp_cut s) \<and>
     wp_unfinished s = length (wp_queue s) + length (wp_busy s) + length (wp_cut s) \<and>
     (case wp_phase s of Closed None \<Rightarrow> wp_queue s = [] \<and> wp_busy s = [] \<and> wp_cut s = []
      | Closed (Some n) \<Rightarrow> n = length (wp_queue s) \<and> wp_busy s = [] | _ \<Rightarrow> wp_cut s = []))"

lemma pool_inv_step:
  assumes "pool_step senders max_pending s t" and "pool_inv senders max_pending s"
  shows "pool_inv senders max_pending t"
proof -
  note ok = assms(2) [unfolded pool_inv_def]
  from assms(1) show ?thesis
  proof cases
    case (submit fresh x)
    have "dv_id (with_id fresh x) \<noteq> None" by (simp add: with_id_def split: option.split)
    with submit ok show ?thesis unfolding pool_inv_def have_ids_def by (cases "wp_phase s") auto
  next
    case (task_done x)
    have "mset (wp_busy s) = add_mset x (mset (remove1 x (wp_busy s)))" using task_done(3) by simp
    moreover have "length (wp_busy s) = Suc (length (remove1 x (wp_busy s)))"
      using task_done(3) length_pos_if_in_set [OF task_done(3)] by (simp add: length_remove1)
    ultimately show ?thesis using task_done(1, 2) ok unfolding pool_inv_def by (cases "wp_phase s") simp_all
  next
    case (take x q)
    then show ?thesis using ok unfolding pool_inv_def by (cases "wp_phase s") simp_all
  next
    case joined
    then show ?thesis using ok unfolding pool_inv_def by simp
  qed (use ok in \<open>simp_all add: pool_inv_def\<close>)
qed

interpretation wp: invariant_system pool_start "pool_step senders max_pending" "pool_inv senders max_pending" for senders max_pending
  by unfold_locales (simp add: pool_start_def pool_inv_def WebhookSender_def have_ids_def, rule pool_inv_step)

text \<open>
  C14: The pool of webhook senders is bounded and loses nothing while it runs. In every state it can
  reach at most \<open>max_pending\<close> deliveries wait and at most as many are on their way as there are senders. What
  was taken up is exactly the earlier part of what was submitted, in that order, and the rest waits; each of
  those taken up was completed, is on its way, or was cut off when the window on shutdown was over, each
  once. Every delivery has an id. A shutdown within the window has completed everything that was submitted.
\<close>

theorem webhook_pool_sound:
  assumes "reachable pool_start (pool_step senders max_pending) s"
  shows "length (wp_queue s) \<le> max_pending \<and> length (wp_busy s) \<le> senders \<and>
    wp_submitted s = wp_started s @ wp_queue s \<and>
    mset (wp_started s) = mset (wp_finished s) + mset (wp_busy s) + mset (wp_cut s) \<and>
    have_ids (wp_submitted s) \<and>
    (wp_phase s \<in> {Serving, Closing} \<longrightarrow> wp_cut s = []) \<and>
    (wp_phase s = Closed None \<longrightarrow> mset (wp_finished s) = mset (wp_submitted s))"
  using wp.inv_reachable [OF assms] by (auto simp: pool_inv_def split: pool_phase.splits)

text \<open>
  The warning on shutdown counts what still waits and not what was cut off on its way: here one delivery is lost
  and none reported.
\<close>

lemma pool_then:
  "reachable pool_start (pool_step n k) s \<Longrightarrow> pool_step n k s t \<Longrightarrow> reachable pool_start (pool_step n k) t"
  by (rule reachable.step)

definition s_delivery :: "nat delivery" where
  "s_delivery = \<lparr>dv_url = ''https://hooks.example/x'', dv_event = 1, dv_id = None\<rparr>"

definition s_pool :: "nat delivery list \<Rightarrow> nat delivery list \<Rightarrow> nat \<Rightarrow> pool_phase \<Rightarrow> nat delivery list \<Rightarrow> nat delivery list \<Rightarrow>
    nat delivery list \<Rightarrow> nat delivery list \<Rightarrow> nat pool" where
  "s_pool q b u ph sub st fn ct = \<lparr>wp_queue = q, wp_busy = b, wp_unfinished = u, wp_phase = ph, wp_submitted = sub,
     wp_started = st, wp_finished = fn, wp_cut = ct\<rparr>"

lemma s_pool_taken:
  defines "x \<equiv> with_id ''u1'' s_delivery"
  shows "reachable pool_start (pool_step 10 1000) (s_pool [] [x] 1 Closing [x] [x] [] [])"
proof -
  have "reachable pool_start (pool_step 10 1000) (s_pool [] [] 0 Serving [] [] [] [])"
    by (rule reachable.init) (simp add: pool_start_def WebhookSender_def s_pool_def)
  moreover have "pool_step 10 1000 (s_pool [] [] 0 Serving [] [] [] []) (s_pool [x] [] 1 Serving [x] [] [] [])"
    using pool_step.submit [of "s_pool [] [] 0 Serving [] [] [] []" 1000 10 "''u1''" s_delivery] by (simp add: s_pool_def x_def)
  ultimately have r: "reachable pool_start (pool_step 10 1000) (s_pool [x] [] 1 Serving [x] [] [] [])" by (rule pool_then)
  have "pool_step 10 1000 (s_pool [x] [] 1 Serving [x] [] [] []) (s_pool [] [x] 1 Serving [x] [x] [] [])"
    using pool_step.take [of "s_pool [x] [] 1 Serving [x] [] [] []" 10 x "[]" 1000] by (simp add: s_pool_def)
  from pool_then [OF r this] have r: "reachable pool_start (pool_step 10 1000) (s_pool [] [x] 1 Serving [x] [x] [] [])" .
  have "pool_step 10 1000 (s_pool [] [x] 1 Serving [x] [x] [] []) (s_pool [] [x] 1 Closing [x] [x] [] [])"
    using pool_step.close [of "s_pool [] [x] 1 Serving [x] [x] [] []" 10 1000] by (simp add: s_pool_def)
  from pool_then [OF r this] show ?thesis .
qed

lemma cut_not_reported:
  defines "x \<equiv> with_id ''u1'' s_delivery"
  shows "reachable pool_start (pool_step 10 1000) (s_pool [] [] 1 (Closed (Some 0)) [x] [x] [] [x])"
proof -
  have "pool_step 10 1000 (s_pool [] [x] 1 Closing [x] [x] [] []) (s_pool [] [] 1 (Closed (Some 0)) [x] [x] [] [x])"
    using pool_step.window_over [of "s_pool [] [x] 1 Closing [x] [x] [] []" 10 1000] by (simp add: s_pool_def)
  from pool_then [OF s_pool_taken this [unfolded x_def]] show ?thesis unfolding x_def .
qed

theorem webhook_pool_sound_witness:
  "\<exists>s. reachable pool_start (pool_step 10 1000) s \<and> wp_phase s = Closed None \<and> mset (wp_finished s) = mset (wp_submitted s) \<and>
     map dv_event (wp_submitted s) = [1 :: nat]"
proof -
  define x where "x = with_id ''u1'' s_delivery"
  have r: "reachable pool_start (pool_step 10 1000) (s_pool [] [x] 1 Closing [x] [x] [] [])" using s_pool_taken by (simp add: x_def)
  have "pool_step 10 1000 (s_pool [] [x] 1 Closing [x] [x] [] []) (s_pool [] [] 0 Closing [x] [x] [x] [])"
    using pool_step.task_done [of "s_pool [] [x] 1 Closing [x] [x] [] []" x 10 1000] by (simp add: s_pool_def)
  from pool_then [OF r this] have r: "reachable pool_start (pool_step 10 1000) (s_pool [] [] 0 Closing [x] [x] [x] [])" .
  have "pool_step 10 1000 (s_pool [] [] 0 Closing [x] [x] [x] []) (s_pool [] [] 0 (Closed None) [x] [x] [x] [])"
    using pool_step.joined [of "s_pool [] [] 0 Closing [x] [x] [x] []" 10 1000] by (simp add: s_pool_def)
  from pool_then [OF r this] have r: "reachable pool_start (pool_step 10 1000) (s_pool [] [] 0 (Closed None) [x] [x] [x] [])" .
  have "dv_event x = 1" by (simp add: x_def with_id_def s_delivery_def)
  with webhook_pool_sound [OF r] r show ?thesis by (intro exI [of _ "s_pool [] [] 0 (Closed None) [x] [x] [x] []"]) (simp add: s_pool_def)
qed

end
