(* ===== verification/Upload_Api.thy ===== *)
theory Upload_Api
  imports Py_Bytes Ingest_Props Job_Api_Props
begin

text \<open>
  How a file reaches the job endpoints of \<open>src/app/main.py\<close>: the limit on a body, the form, the preview and the
  creation of a job from a file or from JSON, and the name a download is offered under. The
  framework's parser of forms and the validation library are parameters: a form is given parsed, a JSON
  body as what validation makes of it.
\<close>

section \<open>The size of a body\<close>

definition BODY_LIMIT :: "settings \<Rightarrow> int" where
  "BODY_LIMIT cfg = max_upload_bytes cfg + 1024 * 1024"

text \<open>\<open>bytes.isdigit\<close> and \<open>int\<close>; a text of more than 4300 digits is a \<open>ValueError\<close>.\<close>

definition is_digits :: "string \<Rightarrow> bool" where
  "is_digits s = (s \<noteq> [] \<and> list_all is_digit s)"

definition digits_value :: "string \<Rightarrow> int" where
  "digits_value s = foldl (\<lambda>n c. n * 10 + (int (ordc c) - 48)) 0 s"

definition declared_over :: "int \<Rightarrow> string option \<Rightarrow> exn + bool" where
  "declared_over limit declared =
     (case declared of
        None \<Rightarrow> Inr False
      | Some s \<Rightarrow> if \<not> is_digits s then Inr False
                  else if length s > 4300 then Inl Value_Error else Inr (digits_value s > limit))"

text \<open>\<open>limited_receive\<close>: the chunks the application is handed, and whether the next one was refused.\<close>

fun limited_receive :: "int \<Rightarrow> nat \<Rightarrow> string list \<Rightarrow> string list \<times> bool" where
  "limited_receive limit seen [] = ([], False)"
| "limited_receive limit seen (c # cs) =
     (let seen = seen + length c
      in if int seen > limit then ([], True)
         else let (rest, refused) = limited_receive limit seen cs in (c # rest, refused))"

datatype body_outcome = Rejected_Unread | Handed "string list" bool

definition body_size_limit :: "int \<Rightarrow> string option \<Rightarrow> string list \<Rightarrow> exn + body_outcome" where
  "body_size_limit limit declared body =
     (case declared_over limit declared of
        Inl e \<Rightarrow> Inl e
      | Inr True \<Rightarrow> Inr Rejected_Unread
      | Inr False \<Rightarrow> (let (chunks, refused) = limited_receive limit 0 body in Inr (Handed chunks refused)))"

lemma limited_receive_bound:
  "int seen \<le> limit \<Longrightarrow> limited_receive limit seen cs = (ds, refused) \<Longrightarrow>
     int (seen + length (concat ds)) \<le> limit \<and> (\<exists>rest. cs = ds @ rest \<and> (refused = (rest \<noteq> [])) \<and>
       (rest \<noteq> [] \<longrightarrow> int (seen + length (concat ds) + length (hd rest)) > limit))"
proof (induction cs arbitrary: seen ds refused)
  case (Cons c cs)
  show ?case
  proof (cases "int (seen + length c) > limit")
    case True
    then show ?thesis using Cons.prems by auto
  next
    case False
    obtain ds' where ds: "ds = c # ds'" "limited_receive limit (seen + length c) cs = (ds', refused)"
      using Cons.prems(2) False by (auto simp: Let_def split: prod.splits)
    from Cons.IH [OF _ this(2)] False show ?thesis by (auto simp: ds(1) algebra_simps)
  qed
qed auto

section \<open>The form\<close>

record form_data =
  fm_file :: "(string option \<times> string) option"
  fm_text :: "(string \<times> string) list"

definition is_multipart :: "string \<Rightarrow> bool" where
  "is_multipart content_type = startswith ''multipart/form-data'' (lower content_type)"

text \<open>\<open>str.isdigit\<close> also accepts superscripts, on which \<open>int\<close> then fails.\<close>

definition form_guard :: "settings \<Rightarrow> string \<Rightarrow> string option \<Rightarrow> exn option" where
  "form_guard cfg content_type declared =
     (if \<not> is_multipart content_type then Some (api ''validation_error'')
      else case declared of
        None \<Rightarrow> None
      | Some s \<Rightarrow>
          if s = [] \<or> \<not> list_all (\<lambda>c. is_digit c \<or> ordc c \<in> {178, 179, 185}) s then None
          else if \<not> list_all is_digit s \<or> length s > 4300 then Some Value_Error
          else if digits_value s > max_upload_bytes cfg + 65536 then Some (api ''file_too_large'') else None)"

definition form_str :: "form_data \<Rightarrow> string \<Rightarrow> string option" where
  "form_str form name = (case map_of (fm_text form) name of Some v \<Rightarrow> if v \<noteq> [] then Some v else None | None \<Rightarrow> None)"

text \<open>\<open>file.read(cap + 1)\<close> reads everything for a negative count.\<close>

definition read_upload :: "settings \<Rightarrow> string option \<times> string \<Rightarrow> exn + string \<times> string" where
  "read_upload cfg file =
     (let cap = max_upload_bytes cfg;
          raw = (if cap + 1 < 0 then snd file else take (nat (cap + 1)) (snd file))
      in if int (length raw) > cap then Inl (api ''file_too_large'')
         else Inr (raw, if truthy (fst file) then or_empty (fst file) else ''upload.csv''))"

definition parse_upload :: "ingest_lib \<Rightarrow> settings \<Rightarrow> (string option \<times> string) option \<Rightarrow> exn + string \<times> string \<times> parsed_file" where
  "parse_upload lib cfg file =
     (case file of
        None \<Rightarrow> Inl (api ''validation_error'')
      | Some f \<Rightarrow>
          (case read_upload cfg f of
             Inl e \<Rightarrow> Inl e
           | Inr (raw, filename) \<Rightarrow>
               (case parse_bytes lib raw filename of
                  Inl code \<Rightarrow> Inl (api code)
                | Inr p \<Rightarrow> Inr (raw, filename, p))))"

text \<open>A slot for parsing is waited for; \<open>got\<close> says whether there was one in time.\<close>

definition with_upload_slot :: "bool \<Rightarrow> (exn + 'r) \<Rightarrow> exn + 'r" where
  "with_upload_slot got body = (if got then body else Inl (ApiError ''busy'' (Some 10) None))"

definition jobs_preview ::
  "ingest_lib \<Rightarrow> settings \<Rightarrow> bool \<Rightarrow> string \<Rightarrow> string option \<Rightarrow> form_data \<Rightarrow> exn + string \<times> preview_reply" where
  "jobs_preview lib cfg got content_type declared form =
     with_upload_slot got
       (case form_guard cfg content_type declared of
          Some e \<Rightarrow> Inl e
        | None \<Rightarrow>
            let column = form_str form ''column''
            in case parse_upload lib cfg (fm_file form) of
                 Inl e \<Rightarrow> Inl e
               | Inr (raw, filename, p) \<Rightarrow>
                   if truthy column \<and> or_empty column \<notin> set (pf_headers p) then Inl (api ''unknown_column'')
                   else Inr (filename, preview lib p (detect_column lib p) 5 column))"

section \<open>Creating a job\<close>

definition TRUE_WORDS :: "string list" where
  "TRUE_WORDS = [''1'', ''true'', ''yes'', ''on'']"

record json_body =
  jb_items :: "string list"
  jb_webhook_url :: "string option"
  jb_fresh :: bool

text \<open>\<open>json.dumps\<close> with its default of escaping everything that is not printable ASCII.\<close>

definition json_ascii :: "string \<Rightarrow> string" where
  "json_ascii s = [CHR 0x22] @ concat (map (\<lambda>c. if ordc c < 127 then json_char c
     else [CHR 0x5C] @ ''u00'' @ [hex_digit (ordc c div 16), hex_digit (ordc c mod 16)]) s) @ [CHR 0x22]"

definition json_opt :: "string option \<Rightarrow> string" where
  "json_opt v = (case v of None \<Rightarrow> ''null'' | Some s \<Rightarrow> json_ascii s)"

definition json_array :: "string list \<Rightarrow> string" where
  "json_array xs = ''['' @ join '', '' xs @ '']''"

definition fingerprint_of :: "(string \<Rightarrow> string) \<Rightarrow> string \<Rightarrow> string option \<Rightarrow> bool \<Rightarrow> string option \<Rightarrow> string" where
  "fingerprint_of sha256 content column fresh webhook_url =
     sha256 (content @ json_array [json_opt column, if fresh then ''true'' else ''false'', json_opt webhook_url])"

definition upload_request ::
  "(string \<Rightarrow> string) \<Rightarrow> string option \<Rightarrow> string option \<Rightarrow> bool \<Rightarrow> string \<times> string \<times> parsed_file \<Rightarrow> string \<times> prepared_item list \<Rightarrow> new_request" where
  "upload_request sha256 key webhook_url fresh upload chosen =
     (let (raw, filename, p) = upload; (col, items) = chosen
      in \<lparr>nr_items = items, nr_columns = pf_headers p, nr_filename = Some filename, nr_chosen = Some col,
          nr_webhook_url = webhook_url, nr_fresh = fresh, nr_key = key,
          nr_fingerprint = fingerprint_of sha256 raw (Some col) fresh webhook_url\<rparr>)"

definition request_from_file ::
  "ingest_lib \<Rightarrow> settings \<Rightarrow> (string \<Rightarrow> string) \<Rightarrow> string option \<Rightarrow> (string option \<times> string) option \<Rightarrow> string option \<Rightarrow>
     string option \<Rightarrow> bool \<Rightarrow> exn + new_request" where
  "request_from_file lib cfg sha256 key file column webhook_url fresh =
     (case parse_upload lib cfg file of
        Inl e \<Rightarrow> Inl e
      | Inr (raw, filename, p) \<Rightarrow>
          (case upload_items lib p column of
             Inl code \<Rightarrow> Inl (api code)
           | Inr chosen \<Rightarrow> Inr (upload_request sha256 key webhook_url fresh (raw, filename, p) chosen)))"

definition request_from_json ::
  "ingest_lib \<Rightarrow> (string \<Rightarrow> string) \<Rightarrow> string option \<Rightarrow> exn + json_body \<Rightarrow> exn + new_request" where
  "request_from_json lib sha256 key body =
     (case body of
        Inl e \<Rightarrow> Inl e
      | Inr b \<Rightarrow>
          if int (length (jb_items b)) > MAX_ITEMS_PER_JOB then Inl (api ''too_many_rows'')
          else Inr \<lparr>nr_items = prepare_plain lib (jb_items b), nr_columns = [''website''], nr_filename = None,
            nr_chosen = Some ''website'', nr_webhook_url = jb_webhook_url b, nr_fresh = jb_fresh b, nr_key = key,
            nr_fingerprint = fingerprint_of sha256 (json_array (map json_ascii (jb_items b))) (Some ''website'')
              (jb_fresh b) (jb_webhook_url b)\<rparr>)"

text \<open>
  The endpoint: a form without a field \<open>file\<close> is read as JSON. \<open>json\<close> is what reading and validating
  the body as JSON gives.
\<close>

definition request_of_call ::
  "ingest_lib \<Rightarrow> settings \<Rightarrow> (string \<Rightarrow> string) \<Rightarrow> bool \<Rightarrow> string \<Rightarrow> string option \<Rightarrow> string option \<Rightarrow> form_data \<Rightarrow> exn + json_body \<Rightarrow>
     exn + new_request" where
  "request_of_call lib cfg sha256 got content_type declared key form json =
     (if \<not> is_multipart content_type then request_from_json lib sha256 key json
      else with_upload_slot got
        (case form_guard cfg content_type declared of
           Some e \<Rightarrow> Inl e
         | None \<Rightarrow>
             if fm_file form \<noteq> None \<or> map_of (fm_text form) ''file'' \<noteq> None
             then request_from_file lib cfg sha256 key (fm_file form) (form_str form ''column'') (form_str form ''webhook_url'')
                    (lower (or_empty (form_str form ''fresh'')) \<in> set TRUE_WORDS)
             else request_from_json lib sha256 key json))"

definition create_job_call ::
  "settings \<Rightarrow> (string option \<Rightarrow> bool) \<Rightarrow> time \<Rightarrow> time \<Rightarrow> uuid \<Rightarrow> principal \<Rightarrow> exn + new_request \<Rightarrow> db \<Rightarrow> db \<times> (exn + create_reply)" where
  "create_job_call cfg webhook_ok now clock new_id who request d =
     (case request of Inl e \<Rightarrow> (d, Inl e) | Inr rq \<Rightarrow> create_job_for cfg webhook_ok now clock new_id who rq d)"

section \<open>Reading a job\<close>

record job_reply =
  gr_job :: job
  gr_active_seconds :: "rat option"
  gr_columns :: "string list"
  gr_counts :: job_tally

definition get_job_reply :: "time \<Rightarrow> uuid option \<Rightarrow> principal \<Rightarrow> db \<Rightarrow> exn + job_reply" where
  "get_job_reply now job_id who d =
     (case get_job job_id who d of
        Inl e \<Rightarrow> Inl e
      | Inr x \<Rightarrow> Inr \<lparr>gr_job = x, gr_active_seconds = active_seconds now x, gr_columns = source_columns_of x,
          gr_counts = job_counts (j_id x) d\<rparr>)"

record progress =
  pg_done :: nat
  pg_unique_domains :: nat
  pg_found :: nat
  pg_active_seconds :: "rat option"

definition list_progress :: "time \<Rightarrow> job list \<Rightarrow> db \<Rightarrow> (uuid \<times> progress) list" where
  "list_progress now xs d =
     map (\<lambda>x. (j_id x, let rows = job_rows (j_id x) d in
       \<lparr>pg_done = count_where (\<lambda>r. jd_state r = Done) rows, pg_unique_domains = length rows,
        pg_found = count_where (\<lambda>r. jd_state r = Done \<and> jd_status r = Some Found) rows,
        pg_active_seconds = active_seconds now x\<rparr>)) xs"

record recent_row =
  rc_domain :: string
  rc_status :: "status option"
  rc_from_cache :: bool
  rc_finished_at :: "time option"
  rc_result :: "doc option"

text \<open>The columns taken from the stored document are left in it.\<close>

definition recent_domains :: "uuid option \<Rightarrow> int \<Rightarrow> principal \<Rightarrow> db \<Rightarrow> exn + recent_row list" where
  "recent_domains job_id limit who d =
     (case get_job job_id who d of
        Inl e \<Rightarrow> Inl e
      | Inr x \<Rightarrow> Inr (map (\<lambda>r. \<lparr>rc_domain = jd_domain r, rc_status = jd_status r, rc_from_cache = jd_from_cache r,
            rc_finished_at = jd_finished_at r, rc_result = jd_result r\<rparr>)
          (take (nat (max 1 (min limit 50)))
            (sort_key (\<lambda>r. case jd_finished_at r of None \<Rightarrow> (False, 0) | Some f \<Rightarrow> (True, - f)) (filter (\<lambda>r. jd_state r = Done) (job_rows (j_id x) d))))))"

section \<open>The name of a download\<close>

definition after_last :: "char \<Rightarrow> string \<Rightarrow> string" where
  "after_last c s = rev (takeWhile (\<lambda>x. x \<noteq> c) (rev s))"

definition before_last :: "char \<Rightarrow> string \<Rightarrow> string" where
  "before_last c s = (if c \<in> set s then rev (tl (dropWhile (\<lambda>x. x \<noteq> c) (rev s))) else s)"

text \<open>\<open>urllib.parse.quote\<close>\<close>

definition quote_byte :: "char \<Rightarrow> string" where
  "quote_byte b =
     (if is_ascii_letter b \<or> is_digit b \<or> b \<in> set ''_.-~/'' then [b]
      else [CHR ''%'', ''0123456789ABCDEF'' ! (ordc b div 16), ''0123456789ABCDEF'' ! (ordc b mod 16)])"

definition quote :: "string \<Rightarrow> string" where
  "quote s = concat (map quote_byte (utf8_encode s))"

definition download_name :: "string option \<Rightarrow> string \<Rightarrow> string" where
  "download_name filename suffix =
     (let name = after_last (CHR 0x5C) (after_last (CHR ''/'') (if truthy filename then or_empty filename else ''results''));
          name = before_last (CHR ''.'') name
      in (if name = [] then ''results'' else name) @ suffix)"

definition ascii_or_underscore :: "char \<Rightarrow> char" where
  "ascii_or_underscore c = (if is_ascii c \<and> is_alnum c \<or> c \<in> set ''-_. '' then c else CHR ''_'')"

definition ascii_name :: "string \<Rightarrow> string" where
  "ascii_name name = map ascii_or_underscore name"

definition attachment :: "string option \<Rightarrow> string \<Rightarrow> string" where
  "attachment filename suffix =
     (let name = download_name filename suffix
      in ''attachment; filename='' @ [CHR 0x22] @ ascii_name name @ [CHR 0x22] @ ''; filename*=UTF-8'' @ [CHR 0x27, CHR 0x27] @ quote name)"

definition printable :: "char \<Rightarrow> bool" where
  "printable c = (32 \<le> ordc c \<and> ordc c < 127)"

lemma printable_name: "list_all printable (ascii_name s)" "CHR 0x22 \<notin> set (ascii_name s)"
proof -
  have "printable (ascii_or_underscore c) \<and> ascii_or_underscore c \<noteq> CHR 0x22" for c
    by (auto simp: ascii_or_underscore_def is_alnum_def is_ascii_def is_ascii_letter_def is_digit_def printable_def ordc_def Let_def)
  then show "list_all printable (ascii_name s)" "CHR 0x22 \<notin> set (ascii_name s)"
    by (auto simp: ascii_name_def list_all_iff) metis
qed

lemma printable_quote: "list_all printable (quote s)" "CHR 0x22 \<notin> set (quote s)"
proof -
  have hex: "list_all (\<lambda>n. printable (''0123456789ABCDEF'' ! n) \<and> ''0123456789ABCDEF'' ! n \<noteq> CHR 0x22) [0..<16]" by code_simp
  have "list_all (\<lambda>c. printable c \<and> c \<noteq> CHR 0x22) (quote_byte b)" for b
  proof (cases "is_ascii_letter b \<or> is_digit b \<or> b \<in> set ''_.-~/''")
    case True
    then show ?thesis
      by (auto simp: quote_byte_def is_ascii_letter_def is_digit_def printable_def ordc_def Let_def)
  next
    case False
    have "ordc b div 16 < 16" "ordc b mod 16 < 16" by simp_all
    with hex have "printable (''0123456789ABCDEF'' ! n) \<and> ''0123456789ABCDEF'' ! n \<noteq> CHR 0x22" if "n \<in> {ordc b div 16, ordc b mod 16}" for n
      using that by (auto simp: list_all_iff)
    then show ?thesis using False by (simp add: quote_byte_def printable_def ordc_def)
  qed
  then show "list_all printable (quote s)" "CHR 0x22 \<notin> set (quote s)"
    by (auto simp: quote_def list_all_iff)
qed

text \<open>
  Whatever name an upload had, the header of its download is printable ASCII and its quoted name ends where it should: the
  name cannot break the header or add to it.
\<close>

theorem attachment_safe:
  "list_all printable (attachment filename suffix) \<and>
   (\<exists>a q. attachment filename suffix = ''attachment; filename='' @ [CHR 0x22] @ a @ [CHR 0x22] @ ''; filename*=UTF-8'' @
      [CHR 0x27, CHR 0x27] @ q \<and> CHR 0x22 \<notin> set a \<and> CHR 0x22 \<notin> set q)"
proof -
  let ?n = "download_name filename suffix"
  have "attachment filename suffix = ''attachment; filename='' @ [CHR 0x22] @ ascii_name ?n @ [CHR 0x22] @ ''; filename*=UTF-8'' @
      [CHR 0x27, CHR 0x27] @ quote ?n" by (simp add: attachment_def Let_def)
  moreover have "list_all printable (''attachment; filename='' @ [CHR 0x22] @ ascii_name ?n @ [CHR 0x22] @ ''; filename*=UTF-8'' @
      [CHR 0x27, CHR 0x27] @ quote ?n)"
    using printable_name [of ?n] printable_quote [of ?n] by (simp add: printable_def ordc_def)
  ultimately show ?thesis using printable_name(2) printable_quote(2) by metis
qed

end
