(* ===== verification/Round_Trip.thy ===== *)
theory Round_Trip
  imports Upload_Api Queue_System
begin

text \<open>
  From an uploaded file to its download, through whatever the queue, the workers and the other
  endpoints do in between.
\<close>

section \<open>What a run keeps of the items\<close>

definition items_of :: "uuid \<Rightarrow> db \<Rightarrow> job_item list" where
  "items_of j d = filter (\<lambda>it. ji_job_id it = j) (job_items d)"

definition columns_of :: "db \<Rightarrow> (uuid \<times> string list option) list" where
  "columns_of d = map (\<lambda>x. (j_id x, j_columns x)) (jobs d)"

text \<open>A transaction that neither adds an item nor a job, nor changes the columns of one.\<close>

definition plain_tx :: "db \<Rightarrow> db \<Rightarrow> bool" where
  "plain_tx d d' = (job_items d' = job_items d \<and> columns_of d' = columns_of d)"

lemma columns_upd:
  assumes "\<And>x. (j_id (f x), j_columns (f x)) = (j_id x, j_columns x)"
  shows "map (\<lambda>x. (j_id x, j_columns x)) (upd_where P f xs) = map (\<lambda>x. (j_id x, j_columns x)) xs"
  using assms by (induction xs) (auto simp: upd_where_def)

lemma plain_refl: "plain_tx d d" and plain_trans: "plain_tx d e \<Longrightarrow> plain_tx e f \<Longrightarrow> plain_tx d f"
  by (simp_all add: plain_tx_def)

lemma plain_complete: "plain_tx d (fst (complete_if_finished now j d))"
  by (simp add: plain_tx_def columns_of_def complete_if_finished_def Let_def complete_job_def columns_upd)

lemma plain_claim: "plain_tx d (fst (claim locked now w hex d))"
proof (cases "claim locked now w hex d")
  case (Pair d' r)
  show ?thesis
  proof (cases r)
    case None
    with Pair claim_idle have "d' = d" by (metis fst_conv snd_conv claim_None_iff)
    with Pair show ?thesis by (simp add: plain_refl)
  next
    case (Some c)
    with Pair have "claim locked now w hex d = (d', Some c)" by simp
    then show ?thesis
      by (rule claim_SomeD) (simp add: Pair plain_tx_def columns_of_def mark_started_def start_job_def columns_upd)
  qed
qed

lemma plain_finish: "plain_tx d (fst (finish now c res fc wc d))"
proof -
  define d2 where "d2 = (let d1 = d\<lparr>job_domains := upd_where (owns_row c) (finish_row now res fc) (job_domains d)\<rparr>
    in unlock_domain c (if \<not> fc \<and> wc then write_cache_of now c res d1 else d1))"
  have "plain_tx d d2" by (simp add: d2_def Let_def plain_tx_def columns_of_def unlock_domain_def write_cache_of_def)
  moreover have "fst (finish now c res fc wc d) = (if \<exists>r \<in> set (job_domains d). owns_row c r
      then fst (complete_if_finished now (c_job_id c) d2) else unlock_domain c d)"
    by (simp add: finish_def d2_def Let_def split_def)
  moreover have "plain_tx d (unlock_domain c d)" by (simp add: plain_tx_def columns_of_def unlock_domain_def)
  ultimately show ?thesis using plain_trans plain_complete by auto
qed

lemmas plain_defs = plain_tx_def columns_of_def lock_domain_def unlock_domain_def requeue_def heartbeat_def reap_def
  complete_finished_jobs_def complete_job_def release_worker_def pause_active_jobs_def pause_job_def requeue_failed_def
  reopen_job_def transition_def transition_job_def resume_job_row_def columns_upd Let_def

definition created :: "uuid \<Rightarrow> db \<Rightarrow> db \<Rightarrow> bool" where
  "created j d d' = (\<exists>its cols. job_items d' = job_items d @ map (new_item j) its \<and> columns_of d' = columns_of d @ [(j, Some cols)])"

lemma create_job_created:
  assumes "create_job cfg now clock j its rq d = (d', rest)"
  shows "job_items d' = job_items d @ map (new_item j) its \<and> columns_of d' = columns_of d @ [(j, Some (rq_source_columns rq))]"
  using assms by (auto simp: create_job_eq Let_def columns_of_def new_job_def)

lemma create_for_plain_or_created:
  "plain_tx d (fst (create_job_for cfg ok now clock j who rq d)) \<or> created j d (fst (create_job_for cfg ok now clock j who rq d))"
proof -
  obtain d' jb rest where c: "create_job cfg now clock j (nr_items rq) (create_request who rq) d = (d', jb, rest)"
    by (metis prod.exhaust)
  have "created j d d'" using create_job_created [OF c] by (auto simp: created_def)
  then show ?thesis using c
    by (auto simp: create_job_for_def create_new_def plain_refl Let_def split_def split: sum.splits option.splits)
qed

lemma step_items:
  assumes "sys_step s t"
  shows "plain_tx (sy_db s) (sy_db t) \<or> (\<exists>j. j \<notin> j_id ` set (jobs (sy_db s)) \<and> created j (sy_db s) (sy_db t))"
  using assms
proof cases
  case (claim w hex locked)
  then show ?thesis using plain_claim by simp
next
  case (finish c res fc wc)
  then show ?thesis using plain_finish by simp
next
  case (complete j)
  then show ?thesis using plain_complete by simp
next
  case (create j cfg ok clock who rq)
  then show ?thesis using create_for_plain_or_created by fastforce
qed (auto simp: plain_defs)

section \<open>Items belong to jobs\<close>

definition items_refs :: "db \<Rightarrow> bool" where
  "items_refs d = (\<forall>it \<in> set (job_items d). ji_job_id it \<in> fst ` set (columns_of d))"

lemma items_refs_plain: "plain_tx d e \<Longrightarrow> items_refs d \<Longrightarrow> items_refs e"
  by (simp add: plain_tx_def items_refs_def)

lemma items_refs_created: "created j d e \<Longrightarrow> items_refs d \<Longrightarrow> items_refs e"
  by (auto simp: created_def items_refs_def new_item_def)

interpretation ir: invariant_system sys_start sys_step "\<lambda>s. items_refs (sy_db s)"
  by unfold_locales (simp add: sys_start_def items_refs_def, use step_items items_refs_plain items_refs_created in blast)

lemma fst_columns: "fst ` set (columns_of d) = j_id ` set (jobs d)"
  by (force simp: columns_of_def)

lemma step_keeps:
  assumes "sys_step s t" and "(j, cols) \<in> set (columns_of (sy_db s))"
  shows "items_of j (sy_db t) = items_of j (sy_db s) \<and> (j, cols) \<in> set (columns_of (sy_db t))"
proof -
  have "j \<in> j_id ` set (jobs (sy_db s))" using assms(2) by (metis fst_columns fst_conv image_eqI)
  with step_items [OF assms(1)] assms(2) show ?thesis
    by (auto simp: plain_tx_def created_def items_of_def new_item_def filter_empty_conv)
qed

lemma steps_keep:
  assumes "sys_step\<^sup>*\<^sup>* s t" and "(j, cols) \<in> set (columns_of (sy_db s))"
  shows "items_of j (sy_db t) = items_of j (sy_db s) \<and> (j, cols) \<in> set (columns_of (sy_db t))"
  using assms by (induction rule: rtranclp_induct) (auto dest: step_keeps)

section \<open>Downloading what was uploaded\<close>

lemma take_row_cells: "take (length cols) (row_cells cols (plain_row d it)) = map (\<lambda>c. csv_safe (get_cell (ji_raw_row it) c)) cols"
  by (simp add: plain_row_def Let_def output_row_def)

lemma sorted_items:
  assumes "\<And>i. i < length its \<Longrightarrow> pi_row_index (its ! i) = i"
  shows "sort_key ji_row_index (map (new_item j) its) = map (new_item j) its"
proof -
  have "map ji_row_index (map (new_item j) its) = [0..<length its]"
    using assms by (intro nth_equalityI) (simp_all add: new_item_def)
  then have "sorted (map ji_row_index (map (new_item j) its))" by simp
  then show ?thesis by (rule sort_key_id_if_sorted)
qed

lemma downloaded_cells:
  assumes "items_of (j_id x) d = map (new_item (j_id x)) its" and "\<And>i. i < length its \<Longrightarrow> pi_row_index (its ! i) = i"
    and "source_columns_of x = cols"
  shows "map (take (length cols)) (csv_table x d) =
    map csv_safe cols # map (\<lambda>it. map (\<lambda>c. csv_safe (get_cell (pi_raw_row it) c)) cols) its"
proof -
  have "stream_rows (j_id x) d = map (plain_row d) (map (new_item (j_id x)) its)"
    using stream_rows_plain [of "j_id x" d 0] assms(1) sorted_items [OF assms(2), of "j_id x"] by (simp add: items_of_def)
  then show ?thesis
    by (simp add: csv_table_def assms(3) take_row_cells output_header_def o_def) (simp add: new_item_def)
qed

lemma created_by_upload:
  assumes "create_job_for cfg ok now clock j who (upload_request sha256 key hook fresh (raw, filename, p) (col, items)) d = (e, Inr reply)"
    and "\<not> cr_replayed reply"
  shows "job_items e = job_items d @ map (new_item j) items \<and> columns_of e = columns_of d @ [(j, Some (pf_headers p))]"
proof -
  let ?rq = "upload_request sha256 key hook fresh (raw, filename, p) (col, items)"
  have nr: "nr_items ?rq = items" "nr_columns ?rq = pf_headers p" by (simp_all add: upload_request_def)
  obtain d' jb rest where c: "create_job cfg now clock j items (create_request who ?rq) d = (d', jb, rest)" by (metis prod.exhaust)
  have "cr_replayed r" if "replay who k f d = Inr (Some r)" for k f r
    using that by (auto simp: replay_def Let_def split: option.splits if_splits)
  then have "e = d'"
    using assms c nr by (cases rule: create_job_for_cases [of cfg ok now clock j who ?rq d]) (auto simp: create_new_def split: prod.splits)
  with create_job_created [OF c] show ?thesis by (simp add: create_request_def nr)
qed

text \<open>
  C7: What was uploaded comes back with the download, row by row and cell by cell. In any run of the
  whole system, let a job be created from an uploaded text whose columns have names of their own;
  afterwards let anything happen: claims, crashes, reaps, retries, pauses, cancellations, other jobs.
  Then the header of the job's CSV file starts with the columns of the upload, and there is one
  row for each record of the upload, in the order of the upload, that starts with the cells of that record,
  guarded against formulas.
\<close>

theorem upload_comes_back:
  assumes "\<And>h. tx_registered (in_tld lib) h \<noteq> [] \<Longrightarrow> in_site h (tx_registered (in_tld lib) h)"
    and "\<And>h h'. in_puny lib h = Some h' \<Longrightarrow> CHR ''/'' \<notin> set h'"
    and "reachable sys_start sys_step s"
    and "parse_text lib dl enc txt = Inr p" and "distinct (pf_headers p)"
    and "upload_items lib p column = Inr (col, items)"
    and "j \<notin> j_id ` set (jobs (sy_db s))"
    and "create_job_for cfg ok (sy_clock s) clock j who (upload_request sha256 key hook fresh (raw, filename, p) (col, items))
      (sy_db s) = (d, Inr reply)" and "\<not> cr_replayed reply"
    and "sys_step\<^sup>*\<^sup>* (s\<lparr>sy_db := d\<rparr>) t" and "x \<in> set (jobs (sy_db t))" and "j_id x = j"
  shows "\<exists>recs. csv_read dl txt = Some recs \<and>
    map (take (length (pf_headers p))) (csv_table x (sy_db t)) =
      map csv_safe (pf_headers p) # map (\<lambda>rec. map (csv_safe \<circ> cell_at rec) [0..<length (pf_headers p)]) (body_of p recs)"
proof -
  let ?rq = "upload_request sha256 key hook fresh (raw, filename, p) (col, items)"
  have "\<exists>recs. csv_read dl txt = Some recs \<and> length items = length (body_of p recs) \<and> length items \<le> MAX_ROWS \<and>
      col \<in> set (pf_headers p) \<and> (\<forall>i < length items. pi_row_index (items ! i) = i \<and> item_ok col (items ! i) \<and>
        (distinct (pf_headers p) \<longrightarrow> map (get_cell (pi_raw_row (items ! i))) (pf_headers p) =
          map (cell_at (body_of p recs ! i)) [0..<length (pf_headers p)]))"
    by (rule upload_facts [OF _ _ assms(4, 6)]) (erule assms(1), erule assms(2))
  then obtain recs where recs: "csv_read dl txt = Some recs" "length items = length (body_of p recs)" "col \<in> set (pf_headers p)"
    and row: "\<And>i. i < length items \<Longrightarrow> pi_row_index (items ! i) = i \<and>
      map (get_cell (pi_raw_row (items ! i))) (pf_headers p) = map (cell_at (body_of p recs ! i)) [0..<length (pf_headers p)]"
    using assms(5) by blast
  have d: "job_items d = job_items (sy_db s) @ map (new_item j) items \<and> columns_of d = columns_of (sy_db s) @ [(j, Some (pf_headers p))]"
    by (rule created_by_upload [OF assms(8, 9)])
  have "items_refs (sy_db s)" by (rule ir.inv_reachable [OF assms(3)])
  then have "items_of j d = map (new_item j) items"
    using assms(7) d fst_columns by (auto simp: items_of_def items_refs_def filter_empty_conv new_item_def)
  with steps_keep [OF assms(10), of j "Some (pf_headers p)"] d
  have kept: "items_of j (sy_db t) = map (new_item j) items" "(j, Some (pf_headers p)) \<in> set (columns_of (sy_db t))" by auto
  from kept(2) obtain y where y: "y \<in> set (jobs (sy_db t))" "j_id y = j" "j_columns y = Some (pf_headers p)"
    by (auto simp: columns_of_def)
  have "sys_step s (s\<lparr>sy_db := d\<rparr>)" using sys_step.create [OF assms(7), of cfg ok clock who ?rq] assms(8) by simp
  then have "reachable sys_start sys_step (s\<lparr>sy_db := d\<rparr>)" by (rule reachable.step [OF assms(3)])
  then have "db_inv (sy_db t)" using qs.inv_steps [OF assms(10) qs.inv_reachable] by (simp add: sys_inv_def)
  with job_unique y assms(11, 12) have "x = y" by metis
  with y recs(3) have cols: "source_columns_of x = pf_headers p" by (auto simp: source_columns_of_def split: list.split)
  have "map (take (length (pf_headers p))) (csv_table x (sy_db t)) =
      map csv_safe (pf_headers p) # map (\<lambda>it. map csv_safe (map (get_cell (pi_raw_row it)) (pf_headers p))) items"
    using downloaded_cells [of x "sy_db t" items "pf_headers p"] kept(1) assms(12) row cols by (simp add: o_def)
  moreover have "map (\<lambda>it. map csv_safe (map (get_cell (pi_raw_row it)) (pf_headers p))) items =
      map (\<lambda>rec. map csv_safe (map (cell_at rec) [0..<length (pf_headers p)])) (body_of p recs)"
    using row recs(2) by (intro nth_equalityI) (simp_all del: map_map)
  ultimately show ?thesis using recs(1) by (simp add: o_def)
qed

section \<open>A sample run\<close>

lemma s_upload_read:
  "csv_read (CHR '';'') s_upload = Some [[''name'', ''Web-Site''], [''Acme'', '' https://www.acme.io/about''], [''Bob'', ''n/a'']]"
  by code_simp

lemma s_file_facts: "pf_headers s_file = [''name'', ''Web-Site'']" "pf_had_header s_file"
  "parse_text s_ingest (CHR '';'') ''utf-8'' s_upload = Inr s_file"
  by (simp_all add: s_file_def s_upload_parsed)

lemma s_created:
  assumes "length its = 2"
  shows "\<exists>d reply. create_job_for settings_default (\<lambda>_. True) 0 0 1 ADMIN (upload_request (\<lambda>s. s) None None False (s_upload, ''list.csv'', s_file) (''Web-Site'', its))
    (sy_db run0) = (d, Inr reply) \<and> \<not> cr_replayed reply"
  using assms by (auto simp: create_job_for_def upload_request_def create_new_def MAX_ITEMS_PER_JOB_def ADMIN_def Let_def split: prod.split)

theorem upload_comes_back_witness:
  "\<exists>s x. reachable sys_start sys_step s \<and> x \<in> set (jobs (sy_db s)) \<and>
     map (take 2) (csv_table x (sy_db s)) = [[''name'', ''Web-Site''], [''Acme'', ''https://www.acme.io/about''], [''Bob'', ''n/a'']]"
proof -
  have lib: "in_site h (tx_registered (in_tld s_ingest) h)" for h by (simp add: in_site_def s_ingest_def s_reg_def)
  have puny: "CHR ''/'' \<notin> set h'" if "in_puny s_ingest h = Some h'" for h h'
    using that by (auto simp: s_ingest_def s_puny_def split: if_splits)
  have "sys_start run0" by (simp add: sys_start_def run0_def locks_inv_def)
  then have r0: "reachable sys_start sys_step run0" by (rule reachable.init)
  obtain its where its: "upload_items s_ingest s_file None = Inr (''Web-Site'', its)" "map pi_domain its = [Some ''acme.io'', None]"
    using s_file_items by (auto split: sum.splits prod.splits)
  then have "length its = 2" by (metis length_map length_Cons list.size(3) numeral_2_eq_2)
  from s_created [OF this] obtain d reply where d: "create_job_for settings_default (\<lambda>_. True) (sy_clock run0) 0 1 ADMIN
      (upload_request (\<lambda>s. s) None None False (s_upload, ''list.csv'', s_file) (''Web-Site'', its)) (sy_db run0) = (d, Inr reply)"
    "\<not> cr_replayed reply" by (auto simp: run0_def)
  have fresh: "1 \<notin> j_id ` set (jobs (sy_db run0))" by (simp add: run0_def)
  define r1 where "r1 = run0\<lparr>sy_db := d\<rparr>"
  define r2 where "r2 = r1\<lparr>sy_db := fst (claim (\<lambda>_. False) (sy_clock r1) ''w'' (\<lambda>_. ''h'') (sy_db r1)),
    sy_used := sy_used r1 \<union> (\<lambda>k. new_token ''w'' ''h'') ` {..<5::nat}\<rparr>"
  have "sys_step run0 r1" unfolding r1_def using sys_step.create [OF fresh, of settings_default "\<lambda>_. True" 0 ADMIN] d(1) by (metis fst_conv)
  then have r1: "reachable sys_start sys_step r1" by (rule reachable.step [OF r0])
  have step: "sys_step r1 r2" unfolding r2_def by (rule sys_step.claim [where hex = "\<lambda>_. ''h''"]) (simp add: r1_def run0_def)
  then have steps: "sys_step\<^sup>*\<^sup>* (run0\<lparr>sy_db := d\<rparr>) r2" by (simp add: r1_def [symmetric])
  have "(1, Some [''name'', ''Web-Site'']) \<in> set (columns_of (sy_db r1))"
    using created_by_upload [OF d] by (simp add: r1_def s_file_facts)
  from step_keeps [OF step this] obtain x where x: "x \<in> set (jobs (sy_db r2))" "j_id x = 1" by (auto simp: columns_of_def)
  have "\<exists>recs. csv_read (CHR '';'') s_upload = Some recs \<and> map (take (length (pf_headers s_file))) (csv_table x (sy_db r2)) =
      map csv_safe (pf_headers s_file) # map (\<lambda>rec. map (csv_safe \<circ> cell_at rec) [0..<length (pf_headers s_file)]) (body_of s_file recs)"
    by (rule upload_comes_back [OF _ _ r0 s_file_facts(3) _ its(1) fresh d steps x]) (simp_all add: lib puny s_file_facts)
  then have "map (take 2) (csv_table x (sy_db r2)) = map csv_safe [''name'', ''Web-Site''] #
      map (\<lambda>rec. map (csv_safe \<circ> cell_at rec) [0..<2]) [[''Acme'', '' https://www.acme.io/about''], [''Bob'', ''n/a'']]"
    by (simp add: s_upload_read s_file_facts body_of_def numeral_2_eq_2)
  also have "\<dots> = [[''name'', ''Web-Site''], [''Acme'', ''https://www.acme.io/about''], [''Bob'', ''n/a'']]" by code_simp
  finally show ?thesis using reachable.step [OF r1 step] x(1) by (intro exI [of _ r2] exI [of _ x] conjI)
qed

end
