(* ===== verification/Spec2Isabelle.thy ===== *)
theory Spec2Isabelle
  imports Queue_Props Job_Store_Props Auth_Props Job_Api_Props Board Finish_Race Worker
    Token_Bucket Breaker Fetch Webhook Fetch_Gate Pipeline_Props Ingest_Props Providers Worker_Loop
    Webhook_Pool Round_Trip
begin

text \<open>
  A verification library for the email extractor: a service that takes lists of company
  websites, crawls each of them and returns the contact addresses it finds. It has an API
  (\<open>src/app/main.py\<close>, \<open>auth.py\<close>, \<open>ingest.py\<close>, \<open>jobs.py\<close>, \<open>errors.py\<close>) that reads uploads and keeps jobs in Postgres, a pool of
  workers (\<open>src/app/worker.py\<close>) that claim domains from a queue in the same database
  (\<open>src/app/queue.py\<close>), a fetch layer behind rate limits (\<open>src/app/pipeline/fetch.py\<close>,
  \<open>src/app/ratelimit.py\<close>), the pipeline of one domain (\<open>src/app/pipeline/run.py\<close> and the modules it
  calls), and webhooks (\<open>src/app/webhook.py\<close>).

  \<^bold>\<open>Conventions.\<close> A table is a list of records and an SQL statement a function on it; a function
  of the source that runs in one transaction is one step. Times and floats are exact rationals,
  a uuid is a natural number, and a string is a list of Latin-1 characters. An exception is a
  value: \<open>None\<close>, or the left of a sum. What the network, the clock, other processes and random
  numbers do is an argument, so a theorem holds for every behaviour of them. Third-party code
  (the public suffix list, the HTML parser, the HTTP client, the resolver, phonenumbers, Redis,
  the cipher, IDNA) is an argument too, and what is assumed of it is a hypothesis; the parts of the Python
  library the program uses are modelled.

  \<^bold>\<open>Foundations.\<close> \<open>Prelude\<close> has the SQL vocabulary and the locales \<open>invariant_system\<close> and
  \<open>refinement\<close>; \<open>Settings\<close> and \<open>Models\<close> the settings, tables and result record; \<open>Py_Str\<close>, \<open>Regex\<close>,
  \<open>Py_Net\<close> and \<open>Html_Scan\<close> the strings, the backtracking matcher of \<open>re\<close>, \<open>urllib.parse\<close> and
  \<open>ipaddress\<close>, and \<open>htmlscan.py\<close>. \<open>Sample\<close> is a small database for the witnesses.

  \<^bold>\<open>Queue and jobs.\<close> \<open>Queue\<close> has one definition for each function of \<open>queue.py\<close>; \<open>Queue_Inv\<close> the
  invariant of the database and that every operation keeps it, through locales of statements
  on rows, jobs and locks that each statement of the program interprets; \<open>Queue_Props\<close> what each
  operation promises (fair claims, results recorded once, leases, retries, shutdown).
  \<open>Queue_System\<close> lets the transactions of all processes interleave and shows the invariant for
  every run; \<open>Board\<close> shows that this system refines a board of cells that wait, are held or
  are answered; \<open>Finish_Race\<close> goes below transactions, to the statements of concurrent finishers.
  \<open>Job_Store\<close> and \<open>Job_Store_Props\<close> are \<open>create_job\<close>, \<open>job_counts\<close> and \<open>stream_rows\<close> of \<open>jobs.py\<close>;
  \<open>Job_Api\<close> and \<open>Job_Api_Props\<close> the job endpoints of \<open>main.py\<close>; \<open>Auth\<close>, \<open>Auth_Props\<close> and \<open>Errors\<close>
  \<open>auth.py\<close> and the error contract. \<open>Worker\<close> is the handler of a claim: it gives everything back,
  whichever way it ends.

  \<^bold>\<open>Fetching.\<close> \<open>Token_Bucket\<close>, \<open>Breaker\<close> and \<open>Fetch_Gate\<close> are \<open>ratelimit.py\<close>: budgets of both
  buckets, when the breaker trips and probes, and that the gate leaks no permit. \<open>Netguard\<close> is
  \<open>netguard.py\<close>, \<open>Fetch\<close> the retry loop, redirects and backends of \<open>fetch.py\<close> with the guard on every
  hop, \<open>Webhook\<close> the checked and pinned delivery of \<open>webhook.py\<close>.

  \<^bold>\<open>The pipeline.\<close> \<open>Normalize\<close> is \<open>normalize.py\<close>; \<open>Site_Check\<close> \<open>dns_check.py\<close> and \<open>parked.py\<close>; \<open>Score\<close>
  and \<open>Discovery\<close> the \<open>discovery\<close> package; \<open>Emails\<close> and \<open>Emails_Props\<close> the sources of addresses in
  \<open>extract\<close>; \<open>Page_Facts\<close> phones, social links and forms; \<open>Rank\<close> \<open>filter_rank.py\<close> and \<open>status.py\<close>;
  \<open>Judge\<close> \<open>typesafe.py\<close>. \<open>Pipeline\<close> is \<open>run.py\<close>, a state machine over the scratchpad with an \<open>await\<close>
  at which the deadline may strike; \<open>Pipeline_Props\<close> follows it with triples and shows what a
  result is worth and which exceptions escape. The end of this theory puts worker, queue and
  pipeline together: nothing unsound is stored or delivered.

  \<^bold>\<open>Bounds.\<close> Loops are structural recursions or have a measure; the sitemap loop is bounded by the
  documents the code reads at most, the redirect loop by \<open>MAX_REDIRECTS\<close>, and the attempts of a
  domain by \<open>max_domain_attempts\<close>. The wait of the token bucket, whose end depends on the clock,
  is shown to end for every clock that advances.

  \<^bold>\<open>Files in and out.\<close> \<open>Csv\<close> is the writer and the reader of Python's \<open>csv\<close> and that they agree;
  \<open>Ingest\<close> and \<open>Ingest_Props\<close> are \<open>ingest.py\<close> and the preparation of items in \<open>jobs.py\<close>: parsing, the choice
  of the website column, the preview. \<open>Rows\<close> is the other direction, the cells and the two formats of
  a download. \<open>Upload_Api\<close> is what the endpoints do around them: the limits on a body, the form, the
  two ways to create a job, the name of a download. \<open>Round_Trip\<close> follows a file through all of it: after any
  run of the system its rows come back in order, with their cells.

  \<^bold>\<open>Provider keys.\<close> \<open>Py_Bytes\<close> has base64 and UTF-8 with their round trips; \<open>Provider_Keys\<close> is
  \<open>provider_keys.py\<close> over its tables and the memory of a process, \<open>Provider_Keys_Props\<close> several processes over
  one database: a saved key takes over everywhere, one that cannot be read is not replaced by an
  older one, and nothing but the last four characters is shown, stated as two runs nobody can tell
  apart. \<open>Providers\<close> is \<open>providers.py\<close> and the endpoints that change a key.

  \<^bold>\<open>Loops of a worker.\<close> \<open>Worker_Loop\<close> is the main loop of \<open>worker.py\<close> with its slots, the stop signal and the drain,
  and a round of its background loops; \<open>Webhook_Pool\<close> the queue and the senders of \<open>webhook.py\<close>.
  \<^bold>\<open>Not modelled.\<close> The HTML of the upload page, the process entry points, logging, database
  sessions, the command line for users, migrations and the evaluation script: input and output
  without decisions the theorems could be about. Of modelled parts: rendering of JSON error
  bodies and OpenAPI documentation, the decoding of bytes and the workbook reader of an upload, the
  framework's parsing of forms and JSON, messages of errors, durations and log lines. Text beyond
  Latin-1 and infinite numbers in JSON are outside the types.
\<close>

section \<open>A worker that runs the pipeline\<close>

text \<open>
  What \<open>_handle\<close> makes of the end of \<open>process_domain\<close>. A cancellation (\<open>None\<close>) ends the handler
  on the spot, without another transaction.
\<close>

definition handler_outcome :: "stop + domain_result \<Rightarrow> outcome option" where
  "handler_outcome x =
     (case x of
        Inr r \<Rightarrow> Some (Result r)
      | Inl (Failed (Fetch_Err f)) \<Rightarrow>
          Some (if fe_class f = PROVIDER_ACCOUNT then Account_Error else outcome.Raised)
      | Inl (Failed Cancelled) \<Rightarrow> None
      | Inl _ \<Rightarrow> Some outcome.Raised)"

text \<open>What the tables hold: results of the rows, and of the shared cache.\<close>

definition doc_ok :: "tld_lib \<Rightarrow> doc option \<Rightarrow> bool" where
  "doc_ok tx doc = (case Option.bind doc model_validate of None \<Rightarrow> True | Some r \<Rightarrow> result_ok tx r)"

definition stored_ok :: "tld_lib \<Rightarrow> db \<Rightarrow> bool" where
  "stored_ok tx d \<longleftrightarrow> (\<forall>r \<in> set (job_domains d). doc_ok tx (jd_result r)) \<and> (\<forall>x \<in> set (domains d). doc_ok tx (d_result x))"

fun event_ok :: "tld_lib \<Rightarrow> event \<Rightarrow> bool" where
  "event_ok tx (Domain_Done url j rows res) = result_ok tx res"
| "event_ok tx (Job_Done url j tally) = True"

lemma doc_ok_simps [simp]: "doc_ok tx (Some (Doc r)) = result_ok tx r" "doc_ok tx None"
  by (simp_all add: doc_ok_def)

lemma stored_ok_rows:
  assumes "stored_ok tx d" and "\<And>r. doc_ok tx (jd_result r) \<Longrightarrow> doc_ok tx (jd_result (f r))"
  shows "stored_ok tx (d\<lparr>job_domains := upd_where P f (job_domains d)\<rparr>)"
  using assms by (auto simp: stored_ok_def set_upd_where)

lemma stored_ok_domains:
  assumes "stored_ok tx d" and "\<And>x. doc_ok tx (d_result x) \<Longrightarrow> doc_ok tx (d_result (f x))"
  shows "stored_ok tx (d\<lparr>domains := upd_where P f (domains d)\<rparr>)"
  using assms by (auto simp: stored_ok_def set_upd_where)

lemma stored_ok_jobs [simp]: "stored_ok tx (d\<lparr>jobs := js\<rparr>) = stored_ok tx d"
  by (simp add: stored_ok_def)

named_theorems stored_intros \<open>operations that keep every stored result sound\<close>

lemma stored_unlock [stored_intros]: "stored_ok tx d \<Longrightarrow> stored_ok tx (unlock_domain c d)"
  unfolding unlock_domain_def by (rule stored_ok_domains) (simp_all add: drop_lock_def)

lemma stored_requeue [stored_intros]: "stored_ok tx d \<Longrightarrow> stored_ok tx (requeue now c delay ca d)"
  unfolding requeue_def by (rule stored_ok_rows) (simp_all add: requeue_row_def)

lemma stored_pause [stored_intros]: "stored_ok tx d \<Longrightarrow> stored_ok tx (pause_active_jobs now why d)"
  by (simp add: pause_active_jobs_def)

lemma stored_lock [stored_intros]: "stored_ok tx d \<Longrightarrow> stored_ok tx (fst (lock_domain now c d))"
  by (auto simp: lock_domain_def Let_def stored_ok_def set_upd_where insert_domain_def new_domain_row_def take_lock_def)

lemma stored_finish [stored_intros]:
  assumes "stored_ok tx d" and "result_ok tx res"
  shows "stored_ok tx (fst (finish now c res fc wc d))"
proof -
  let ?d1 = "d\<lparr>job_domains := upd_where (owns_row c) (finish_row now res fc) (job_domains d)\<rparr>"
  have "stored_ok tx ?d1" using assms by (intro stored_ok_rows) (simp_all add: finish_row_def)
  moreover from this have "stored_ok tx (write_cache_of now c res ?d1)"
    unfolding write_cache_of_def using assms(2) by (intro stored_ok_domains) (simp_all add: write_cache_row_def)
  ultimately show ?thesis
    using assms(1) by (cases fc) (simp_all add: finish_eq Let_def complete_if_finished_def stored_unlock)
qed

lemma cached_ok:
  assumes "cached_result cfg now j dm nb d = Some res" and "stored_ok tx d"
  shows "result_ok tx res"
proof (cases "find (\<lambda>x. d_domain x = dm) (domains d)")
  case None
  with assms(1) show ?thesis by (simp add: cached_result_def)
next
  case (Some x)
  with assms(1) have r: "Option.bind (d_result x) model_validate = Some res"
    by (simp add: cached_result_def split: if_splits)
  from Some have "x \<in> set (domains d)" by (auto simp: find_Some_iff)
  with assms(2) have "doc_ok tx (d_result x)" by (simp add: stored_ok_def)
  with r show ?thesis by (simp add: doc_ok_def)
qed

text \<open>Other processes keep what is stored sound; every operation of the queue does.\<close>

definition sound_env :: "tld_lib \<Rightarrow> (nat \<Rightarrow> db \<Rightarrow> db) \<Rightarrow> bool" where
  "sound_env tx env \<longleftrightarrow> (\<forall>k d. stored_ok tx d \<longrightarrow> stored_ok tx (env k d))"

lemma sound_envD: "sound_env tx env \<Longrightarrow> stored_ok tx d \<Longrightarrow> stored_ok tx (env k d)"
  by (simp add: sound_env_def)

definition sound_end :: "tld_lib \<Rightarrow> db \<times> event list \<Rightarrow> bool" where
  "sound_end tx e \<longleftrightarrow> stored_ok tx (fst e) \<and> list_all (event_ok tx) (snd e)"

text \<open>The same where an exception may have left \<open>_handle\<close>.\<close>

definition sound_part :: "tld_lib \<Rightarrow> db \<times> event list option \<Rightarrow> bool" where
  "sound_part tx e \<longleftrightarrow> stored_ok tx (fst e) \<and> (case snd e of None \<Rightarrow> True | Some evs \<Rightarrow> list_all (event_ok tx) evs)"

lemma sound_part_end: "sound_part tx (case p of (e, evs) \<Rightarrow> (e, Some evs)) = sound_end tx p"
  by (simp add: sound_part_def sound_end_def split: prod.split)

lemma worker_finish_sound:
  assumes "sound_env tx env" and "stored_ok tx d" and "result_ok tx res"
  shows "sound_end tx (worker_finish env clk k job c res fc wc d)"
proof -
  obtain d1 recorded dn where f: "finish (clk k) c res fc wc (env k d) = (d1, recorded, dn)" by (metis prod_cases3)
  note env = sound_envD [OF assms(1)]
  have "stored_ok tx (fst (finish (clk k) c res fc wc (env k d)))"
    by (rule stored_finish [OF env [OF assms(2)] assms(3)])
  then have d1: "stored_ok tx d1" by (simp add: f)
  have "stored_ok tx (env (k + 2) (env (k + 1) d1))" by (intro env d1)
  with d1 assms(3) f show ?thesis
    by (cases job) (simp_all add: worker_finish_def sound_end_def Let_def)
qed

lemma after_process_sound:
  assumes "sound_env tx env" and "stored_ok tx d" and "\<And>r. out = Result r \<Longrightarrow> result_ok tx r"
  shows "sound_part tx (after_process cfg env clk out kc c d)"
proof (cases out)
  case (Result r)
  note env = sound_envD [OF assms(1)]
  have w: "sound_end tx (worker_finish env clk 6 j c r False True (env 5 d))" for j
    by (rule worker_finish_sound [OF assms(1) env [OF assms(2)] assms(3) [OF Result]])
  have "stored_ok tx (requeue (clk 6) c delay True (env 6 (unlock_domain c (env 5 d))))" for delay
    by (intro stored_requeue stored_unlock env assms(2))
  with w show ?thesis
    by (simp add: after_process_def Result Let_def split_def sound_end_def sound_part_def)
next
  case Account_Error
  note env = sound_envD [OF assms(1)]
  have "stored_ok tx (requeue (clk 7) c 0 False (env 7 (unlock_domain c (env 6 e))))" if "stored_ok tx e" for e
    by (intro stored_requeue stored_unlock env that)
  moreover have "stored_ok tx (pause_active_jobs (clk 5) why (env 5 d))" for why
    by (intro stored_pause env assms(2))
  ultimately show ?thesis
    using assms(2) by (simp add: after_process_def Account_Error Let_def sound_part_def)
next
  case Raised
  with assms(2) show ?thesis by (simp add: after_process_def sound_part_def)
qed

lemma locked_claim_sound:
  assumes "sound_env tx env" and "stored_ok tx d" and "\<And>r. out = Result r \<Longrightarrow> result_ok tx r"
  shows "sound_part tx (case cached_result cfg (clk 3) x (c_domain c) (c_not_before c) d of
      Some res \<Rightarrow> (let d4 = unlock_domain c (env 4 d); (e, evs) = worker_finish env clk 5 (Some x) c res True True d4
                  in (e, Some evs))
    | None \<Rightarrow> after_process cfg env clk out kc c (env 4 d))"
proof (cases "cached_result cfg (clk 3) x (c_domain c) (c_not_before c) d")
  case None
  then show ?thesis using after_process_sound [OF assms(1) sound_envD [OF assms(1, 2)] assms(3)] by simp
next
  case (Some res)
  have "stored_ok tx (unlock_domain c (env 4 d))" by (intro stored_unlock sound_envD [OF assms(1)] assms(2))
  from worker_finish_sound [OF assms(1) this cached_ok [OF Some assms(2)]] Some show ?thesis
    by (simp add: Let_def sound_part_end)
qed

lemma handle_claim_sound:
  assumes "sound_env tx env" and "stored_ok tx d" and "\<And>r. out = Result r \<Longrightarrow> result_ok tx r"
  shows "sound_part tx (handle_claim cfg env clk out kc c d)"
proof (cases "find_job (c_job_id c) (env 0 d)")
  note env = sound_envD [OF assms(1)]
  case None
  then show ?thesis using env [OF assms(2)] by (simp add: handle_claim_def Let_def sound_part_def)
next
  case (Some x)
  note env = sound_envD [OF assms(1)]
  let ?d1 = "env 1 (env 0 d)"
  have d1: "stored_ok tx ?d1" by (intro env assms(2))
  note finish = worker_finish_sound [OF assms(1) d1]
  obtain d2 got where l: "lock_domain (clk 2) c (env 2 ?d1) = (d2, got)" by force
  have "stored_ok tx (fst (lock_domain (clk 2) c (env 2 ?d1)))" by (intro stored_lock env d1)
  then have d2: "stored_ok tx d2" unfolding l fst_conv .
  have busy: "stored_ok tx (requeue (clk 3) c LOCK_BUSY_DELAY_S False (env 3 d2))" by (intro stored_requeue env d2)
  have failed: "result_ok tx ((DomainResult (c_domain c) Fetch_Failed)
      \<lparr>dr_error_reason := Some ''internal_error'', dr_site_status := Some ''too_many_attempts''\<rparr>)"
    by (simp add: result_ok_def DomainResult_def)
  note after = locked_claim_sound [where out = out, OF assms(1) env [OF d2] assms(3)]
  show ?thesis
  proof (cases "cached_result cfg (clk 1) x (c_domain c) (c_not_before c) ?d1")
    case None
    note start = handle_claim_def Let_def [of "env 0 d"] Let_def [of "?d1"] Some option.case None
    show ?thesis
    proof (cases "c_attempts c > MAX_CLAIMS cfg")
      case True
      then show ?thesis unfolding start using finish [OF failed] by (simp add: Let_def sound_part_end)
    next
      case False
      then show ?thesis
        unfolding start l using after busy
        by (cases got) (simp_all add: Let_def sound_part_def [of tx "(_, Some [])"])
    qed
  next
    case (Some res)
    from finish [OF cached_ok [OF Some d1]] \<open>find_job (c_job_id c) (env 0 d) = Some x\<close> Some show ?thesis
      by (simp add: handle_claim_def Let_def sound_part_end)
  qed
qed

text \<open>
  C8: Nothing unsound is ever stored or delivered. Let a worker handle a claim by running the
  pipeline on its domain, with whatever the network, the judging service and the deadline do,
  and let other processes change the database between its transactions. If the results in the
  queue and in the shared cache were sound before and the others keep them so, then they are
  sound after the handler, whichever way it ends, and so is every result it hands to the
  webhook sender: distinct, well-formed addresses, each with a source among the pages fetched,
  and a best address and a status that agree with them.
\<close>

theorem handled_sound:
  assumes "handler_outcome (fst (process_domain ws cfg late (c_domain c))) = Some out"
    and "\<And>k. pl_tld (w_page (ws k)) = tx" and "sound_env tx env" and "stored_ok tx d"
  shows "stored_ok tx (fst (handle cfg env clk out kc c d)) \<and>
    list_all (event_ok tx) (snd (handle cfg env clk out kc c d))"
proof -
  have out: "result_ok tx r" if "out = Result r" for r
    using assms(1, 2) that process_domain_result [of ws cfg late "c_domain c" r]
    by (auto simp: handler_outcome_def split: sum.splits stop.splits failure.splits if_splits)
  obtain e evs where h: "handle_claim cfg env clk out kc c d = (e, evs)" by force
  moreover have "sound_part tx (handle_claim cfg env clk out kc c d)" by (rule handle_claim_sound [OF assms(3, 4) out])
  ultimately have s: "stored_ok tx e" "case evs of None \<Rightarrow> True | Some evs \<Rightarrow> list_all (event_ok tx) evs"
    by (simp_all add: sound_part_def)
  have "stored_ok tx (requeue (clk 9) c ERROR_RETRY_DELAY_S True (env 9 (unlock_domain c (env 8 e))))"
    by (intro stored_requeue stored_unlock sound_envD [OF assms(3)] s(1))
  with s h show ?thesis by (cases evs) (simp_all add: handle_def Let_def)
qed

text \<open>The sample site of \<open>Pipeline_Props\<close>, claimed from a queue with one row.\<close>

definition s_cfg :: settings where
  "s_cfg = settings_default\<lparr>max_pages_per_domain := 2\<rparr>"

definition s_site_claim :: claimed where
  "s_site_claim = s_claim\<lparr>c_domain := ''acme.io''\<rparr>"

definition s_site_db :: db where
  "s_site_db = \<lparr>jobs = [s_job 1 0 JRunning (Some 7)],
     job_domains = [take_row 5 ''w|1'' (new_job_domain 0 1 ''acme.io'' 0)], job_items = [],
     domains = [new_domain_row 0 ''acme.io'']\<rparr>"

theorem handled_sound_witness:
  "case handler_outcome (fst (process_domain s_world s_cfg (\<lambda>_ _. False) ''acme.io'')) of
     Some (Result r) \<Rightarrow> dr_best_email r = Some ''bob@acme.io'' \<and>
       stored_ok s_tld (fst (handle s_cfg (\<lambda>_ d. d) (\<lambda>_. 30) (Result r) False s_site_claim s_site_db))
   | _ \<Rightarrow> False"
proof -
  obtain r n where r: "process_domain s_world s_cfg (\<lambda>_ _. False) ''acme.io'' = (Inr r, n)"
    "dr_best_email r = Some ''bob@acme.io''"
    using sample_run unfolding s_cfg_def by (auto split: prod.splits sum.splits)
  have o: "handler_outcome (fst (process_domain s_world s_cfg (\<lambda>_ _. False) (c_domain s_site_claim))) = Some (Result r)"
    by (simp add: r s_site_claim_def handler_outcome_def)
  have "sound_env s_tld (\<lambda>_ d. d)" "stored_ok s_tld s_site_db" "\<And>k. pl_tld (w_page (s_world k)) = s_tld"
    by (simp_all add: sound_env_def stored_ok_def s_site_db_def take_row_def new_job_domain_def new_domain_row_def s_world_def)
  with handled_sound [OF o] have "stored_ok s_tld (fst (handle s_cfg (\<lambda>_ d. d) (\<lambda>_. 30) (Result r) False s_site_claim s_site_db))"
    by blast
  with r show ?thesis by (simp add: handler_outcome_def)
qed

end
